(* ===== verification/Parodus_Prelude.thy ===== *)
theory Parodus_Prelude
  imports Main "HOL-Library.Word" "HOL-Library.Monad_Syntax"
begin

text \<open>
  Shared vocabulary of the development: faults of a C execution, C strings and the library
  routines of \<^verbatim>\<open>string.h\<close> the sources call, \<open>parStrncpy\<close> of
  \<^verbatim>\<open>string_helpers.c\<close>, truncating division, and the generic lemmas the components use.

  A C string is the HOL \<open>string\<close> of its bytes before the terminator; a \<^verbatim>\<open>char *\<close> that
  may be \<^verbatim>\<open>NULL\<close> is a \<open>string option\<close>. An execution that leaves the defined behaviour of C
  (or calls \<^verbatim>\<open>abort\<close>) is an \<open>Inl\<close> of a \<open>fault\<close>; every model that can do so returns
  \<open>fault + 'a\<close>. Allocation is assumed to succeed and releasing memory is not modelled.
\<close>

named_theorems cstr_defs \<open>definitions of the C string routines\<close>
named_theorems fault_splits \<open>case rules for executions that may fault\<close>

type_synonym u32 = "32 word"

datatype fault =
    NullDeref      \<comment> \<open>a null pointer is read or written\<close>
  | OutOfBounds    \<comment> \<open>an array is indexed outside its bounds\<close>
  | UninitRead     \<comment> \<open>an uninitialised object is read\<close>
  | SignedOverflow \<comment> \<open>the result of signed arithmetic is not representable\<close>
  | Aborted        \<comment> \<open>\<^verbatim>\<open>abort\<close> was called\<close>

declare sum.splits [fault_splits]

abbreviation is_fault :: "fault + 'a \<Rightarrow> bool" where
  "is_fault r \<equiv> (case r of Inl _ \<Rightarrow> True | Inr _ \<Rightarrow> False)"

text \<open>Sequencing of executions that may fault.\<close>

definition then_run :: "fault + 'a \<Rightarrow> ('a \<Rightarrow> fault + 'b) \<Rightarrow> fault + 'b" where
  "then_run m k = (case m of Inl f \<Rightarrow> Inl f | Inr x \<Rightarrow> k x)"

lemma then_run_simps [simp]:
  "then_run (Inl f) k = Inl f"
  "then_run (Inr x) k = k x"
  by (simp_all add: then_run_def)

lemma then_run_Inr_iff:
  "then_run m k = Inr y \<longleftrightarrow> (\<exists>x. m = Inr x \<and> k x = Inr y)"
  by (cases m) auto

text \<open>What holds of every execution that returns, and executions that do return.\<close>

definition on_return :: "('a \<Rightarrow> bool) \<Rightarrow> fault + 'a \<Rightarrow> bool" where
  "on_return Q r \<longleftrightarrow> (case r of Inl _ \<Rightarrow> True | Inr x \<Rightarrow> Q x)"

lemma on_return_simps [simp]: "on_return Q (Inl f)" "on_return Q (Inr x) = Q x"
  by (simp_all add: on_return_def)

lemma on_return_then: "(\<And>x. m = Inr x \<Longrightarrow> on_return Q (k x)) \<Longrightarrow> on_return Q (then_run m k)"
  by (cases m) simp_all

lemma on_returnD: "on_return Q r \<Longrightarrow> r = Inr x \<Longrightarrow> Q x"
  by simp

definition runs :: "fault + 'a \<Rightarrow> bool" where
  "runs r \<longleftrightarrow> \<not> is_fault r"

lemma runs_simps [simp]: "runs (Inr x)" "\<not> runs (Inl f)"
  by (simp_all add: runs_def)

lemma runs_then: "runs m \<Longrightarrow> (\<And>x. m = Inr x \<Longrightarrow> runs (k x)) \<Longrightarrow> runs (then_run m k)"
  by (cases m) auto

lemma runs_ex: "\<exists>x. m = Inr x \<Longrightarrow> runs m"
  by auto

text \<open>A pointer that must not be null when it is used.\<close>

definition deref :: "'a option \<Rightarrow> fault + 'a" where
  "deref p = (case p of None \<Rightarrow> Inl NullDeref | Some x \<Rightarrow> Inr x)"

lemma deref_simps [simp]: "deref None = Inl NullDeref" "deref (Some x) = Inr x"
  by (simp_all add: deref_def)

subsection \<open>C strings\<close>

abbreviation NUL :: char where
  "NUL \<equiv> CHR 0x00"

definition nul_free :: "string \<Rightarrow> bool" where
  "nul_free s \<longleftrightarrow> list_all (\<lambda>c. c \<noteq> NUL) s"

text \<open>The C string a byte buffer holds.\<close>

definition cstr :: "char list \<Rightarrow> string" where
  "cstr bs = takeWhile (\<lambda>c. c \<noteq> NUL) bs"

text \<open>\<open>strchr s c\<close>: the suffix of \<open>s\<close> that starts at the first \<open>c\<close>.\<close>

definition strchr :: "string \<Rightarrow> char \<Rightarrow> string option" where
  [cstr_defs]: "strchr s c = (case dropWhile (\<lambda>x. x \<noteq> c) s of [] \<Rightarrow> None | t \<Rightarrow> Some t)"

text \<open>Whether \<open>strstr s p\<close> is not \<^verbatim>\<open>NULL\<close>.\<close>

fun strstr :: "string \<Rightarrow> string \<Rightarrow> bool" where
  "strstr [] p = (p = [])"
| "strstr (c # s) p = (take (length p) (c # s) = p \<or> strstr s p)"

text \<open>Whether \<open>strncmp a b n\<close> is \<open>0\<close>.\<close>

definition strncmp_eq :: "string \<Rightarrow> string \<Rightarrow> nat \<Rightarrow> bool" where
  "strncmp_eq a b n \<longleftrightarrow> take n a = take n b"

definition tolower_c :: "char \<Rightarrow> char" where
  "tolower_c c =
     (let n = (of_char c :: nat) in if 65 \<le> n \<and> n \<le> 90 then char_of (n + 32) else c)"

text \<open>Whether \<open>strcasecmp a b\<close>, and \<open>strncasecmp a b n\<close>, are \<open>0\<close>.\<close>

definition strcasecmp_eq :: "string \<Rightarrow> string \<Rightarrow> bool" where
  "strcasecmp_eq a b \<longleftrightarrow> map tolower_c a = map tolower_c b"

definition strncasecmp_eq :: "string \<Rightarrow> string \<Rightarrow> nat \<Rightarrow> bool" where
  "strncasecmp_eq a b n \<longleftrightarrow> take n (map tolower_c a) = take n (map tolower_c b)"

definition is_digit_c :: "char \<Rightarrow> bool" where
  "is_digit_c c \<longleftrightarrow> 48 \<le> (of_char c :: nat) \<and> (of_char c :: nat) \<le> 57"

definition is_alpha_c :: "char \<Rightarrow> bool" where
  "is_alpha_c c \<longleftrightarrow>
     65 \<le> (of_char c :: nat) \<and> (of_char c :: nat) \<le> 90 \<or>
     97 \<le> (of_char c :: nat) \<and> (of_char c :: nat) \<le> 122"

lemma strchr_None_iff: "strchr s c = None \<longleftrightarrow> c \<notin> set s"
  by (induction s) (auto simp: strchr_def)

lemma strchr_Some_iff:
  "strchr s c = Some t \<longleftrightarrow> (\<exists>u. s = u @ t \<and> c \<notin> set u \<and> t \<noteq> [] \<and> hd t = c)"
proof
  assume "strchr s c = Some t"
  then have t: "dropWhile (\<lambda>x. x \<noteq> c) s = t" "t \<noteq> []"
    by (auto simp: strchr_def split: list.splits)
  then have "hd t = c"
    by (metis (mono_tags, lifting) hd_dropWhile)
  moreover have "s = takeWhile (\<lambda>x. x \<noteq> c) s @ t"
    using t(1) by (metis takeWhile_dropWhile_id)
  moreover have "c \<notin> set (takeWhile (\<lambda>x. x \<noteq> c) s)"
    by (auto dest: set_takeWhileD)
  ultimately show "\<exists>u. s = u @ t \<and> c \<notin> set u \<and> t \<noteq> [] \<and> hd t = c"
    using t(2) by blast
next
  assume "\<exists>u. s = u @ t \<and> c \<notin> set u \<and> t \<noteq> [] \<and> hd t = c"
  then obtain u t' where "s = u @ c # t'" "t = c # t'" "c \<notin> set u"
    by (metis list.collapse)
  moreover then have "dropWhile (\<lambda>x. x \<noteq> c) s = c # t'"
    by (metis (mono_tags, lifting) dropWhile_eq_self_iff list.sel(1)
        dropWhile_append2)
  ultimately show "strchr s c = Some t"
    by (simp add: strchr_def)
qed

lemma strcasecmp_eq_refl [simp]: "strcasecmp_eq s s"
  by (simp add: strcasecmp_eq_def)

lemma strcasecmp_eq_sym: "strcasecmp_eq a b \<Longrightarrow> strcasecmp_eq b a"
  by (simp add: strcasecmp_eq_def)

lemma strcasecmp_eq_trans: "strcasecmp_eq a b \<Longrightarrow> strcasecmp_eq b c \<Longrightarrow> strcasecmp_eq a c"
  by (simp add: strcasecmp_eq_def)

lemma cstr_nul_free: "nul_free s \<Longrightarrow> cstr (s @ NUL # bs) = s"
  by (induction s) (auto simp: cstr_def nul_free_def)

subsection \<open>parStrncpy\<close>

text \<open>
  \<open>strncpy d s n\<close> writes exactly \<open>n\<close> bytes: those of \<open>s\<close>, then zeros. \<open>parStrncpy\<close> does so
  for \<open>destSize - 1\<close> bytes and terminates the buffer; \<open>parStrncpy\<close> below is the C string
  the buffer then holds.
\<close>

definition strncpy_bytes :: "string \<Rightarrow> nat \<Rightarrow> char list" where
  "strncpy_bytes s n = take n (s @ replicate n NUL)"

definition parStrncpy_buf :: "string \<Rightarrow> nat \<Rightarrow> char list" where
  "parStrncpy_buf srcStr destSize = (strncpy_bytes srcStr (destSize - 1)) @ [NUL]"

definition parStrncpy :: "string \<Rightarrow> nat \<Rightarrow> string" where
  "parStrncpy srcStr destSize = take (destSize - 1) srcStr"

lemma length_strncpy_bytes: "length (strncpy_bytes s n) = n"
  by (simp add: strncpy_bytes_def)

lemma length_parStrncpy [simp]: "0 < n \<Longrightarrow> length (parStrncpy s n) < n"
  by (simp add: parStrncpy_def)

lemma length_cstr: "length (cstr bs) \<le> length bs" "NUL \<in> set bs \<Longrightarrow> length (cstr bs) < length bs"
proof -
  show "length (cstr bs) \<le> length bs" by (simp add: cstr_def length_takeWhile_le)
  show "length (cstr bs) < length bs" if "NUL \<in> set bs"
    using that by (induction bs) (auto simp: cstr_def)
qed

lemma parStrncpy_id: "length s < n \<Longrightarrow> parStrncpy s n = s"
  by (simp add: parStrncpy_def)

lemma parStrncpy_eq_iff: "0 < n \<Longrightarrow> parStrncpy s n = s \<longleftrightarrow> length s < n"
  by (auto simp: parStrncpy_def)

lemma parStrncpy_idem: "parStrncpy (parStrncpy s n) n = parStrncpy s n"
  by (simp add: parStrncpy_def)

lemma nul_free_take: "nul_free s \<Longrightarrow> nul_free (take n s)"
  by (auto simp: nul_free_def list_all_iff dest: in_set_takeD)

lemma parStrncpy_buf_cstr:
  assumes "nul_free s" shows "cstr (parStrncpy_buf s n) = parStrncpy s n"
proof (cases "n - 1 \<le> length s")
  case True
  then have "parStrncpy_buf s n = take (n - 1) s @ NUL # []"
    by (simp add: parStrncpy_buf_def strncpy_bytes_def)
  then show ?thesis
    by (simp only: cstr_nul_free [OF nul_free_take [OF assms]] parStrncpy_def)
next
  case False
  then obtain k where "n - 1 - length s = Suc k"
    by (metis Suc_diff_Suc not_le)
  with False have "parStrncpy_buf s n = s @ NUL # replicate k NUL @ [NUL]"
    by (simp add: parStrncpy_buf_def strncpy_bytes_def min_def)
  with False show ?thesis
    by (simp add: cstr_nul_free [OF assms] parStrncpy_def)
qed

subsection \<open>Integers\<close>

text \<open>Division of C: the quotient is truncated towards zero.\<close>

definition cdiv :: "int \<Rightarrow> int \<Rightarrow> int" where
  "cdiv a b = (if 0 \<le> a then a div b else - ((- a) div b))"

lemma cdiv_bounds:
  assumes "0 < b" shows "\<bar>b * cdiv a b - a\<bar> < b"
proof (cases "0 \<le> a")
  case True
  then show ?thesis
    using assms pos_mod_bound [OF assms, of a] pos_mod_sign [OF assms, of a]
    by (simp add: cdiv_def minus_mod_eq_mult_div [symmetric])
next
  case False
  then show ?thesis
    using assms pos_mod_bound [OF assms, of "- a"] pos_mod_sign [OF assms, of "- a"]
      minus_mod_eq_mult_div [of "- a" b]
    by (simp add: cdiv_def)
qed

text \<open>An \<^verbatim>\<open>int\<close> that holds a size, converted to \<^verbatim>\<open>size_t\<close>.\<close>

lemma size_of_int:
  assumes "0 < sz" "sz < 2 ^ 31"
  shows "(scast (word_of_int sz :: u32) :: 64 word) = word_of_int sz"
    "unat (scast (word_of_int sz :: u32) :: 64 word) = nat sz"
proof -
  have "sint (word_of_int sz :: u32) = sz"
    using assms by (simp add: sint_sbintrunc' signed_take_bit_int_eq_self)
  then show eq: "(scast (word_of_int sz :: u32) :: 64 word) = word_of_int sz" by (simp add: scast_eq)
  have "uint (word_of_int sz :: 64 word) = sz"
    using assms by (simp add: uint_word_of_int)
  then show "unat (scast (word_of_int sz :: u32) :: 64 word) = nat sz"
    unfolding eq by (simp add: unat_eq_nat_uint)
qed

subsection \<open>Lists\<close>

text \<open>The index of the first element that satisfies a test: the search loop of the sources.\<close>

fun find_index :: "('a \<Rightarrow> bool) \<Rightarrow> 'a list \<Rightarrow> nat option" where
  "find_index p [] = None"
| "find_index p (x # xs) = (if p x then Some 0 else map_option Suc (find_index p xs))"

lemma find_index_None: "find_index p xs = None \<longleftrightarrow> (\<forall>x\<in>set xs. \<not> p x)"
  by (induction xs) auto

lemma find_index_Some:
  "find_index p xs = Some i \<Longrightarrow> i < length xs \<and> p (xs ! i) \<and> (\<forall>j<i. \<not> p (xs ! j))"
proof (induction xs arbitrary: i)
  case (Cons x xs)
  show ?case
  proof (cases "p x")
    case False
    with Cons.prems obtain k where k: "find_index p xs = Some k" "i = Suc k" by auto
    with Cons.IH [OF k(1)] False show ?thesis
      by (auto simp: less_Suc_eq_0_disj)
  qed (use Cons.prems in auto)
qed simp

definition delete_at :: "nat \<Rightarrow> 'a list \<Rightarrow> 'a list" where
  "delete_at i xs = take i xs @ drop (Suc i) xs"

lemma delete_at_Cons [simp]:
  "delete_at 0 (x # xs) = xs" "delete_at (Suc i) (x # xs) = x # delete_at i xs"
  by (simp_all add: delete_at_def)

lemma length_delete_at: "i < length xs \<Longrightarrow> length (delete_at i xs) = length xs - 1"
  by (simp add: delete_at_def)

lemma set_delete_at: "set (delete_at i xs) \<subseteq> set xs"
  by (auto simp: delete_at_def dest: in_set_takeD in_set_dropD)

lemma filter_delete_at:
  "i < length xs \<Longrightarrow> \<not> P (xs ! i) \<Longrightarrow> filter P (delete_at i xs) = filter P xs"
proof (induction xs arbitrary: i)
  case (Cons x xs)
  then show ?case by (cases i) auto
qed simp

lemma distinct_map_delete_at: "distinct (map f xs) \<Longrightarrow> distinct (map f (delete_at i xs))"
proof (induction xs arbitrary: i)
  case (Cons x xs)
  then show ?case using set_delete_at by (cases i) fastforce+
qed (simp add: delete_at_def)

end
