(* ===== verification/Config.thy ===== *)
theory Config
  imports Parodus_Prelude
begin

text \<open>
  \<^verbatim>\<open>config.c\<close> and \<^verbatim>\<open>config.h\<close>: the configuration structure, the parsers of the command
  line's numbers, MAC address, JWT algorithm list and server url, the option loop of
  \<open>parseCommandLine\<close>, the default values and \<open>loadParodusCfg\<close>.

  Character arrays of the structure are the C strings they hold; \<open>cfg_wf\<close> says that each fits
  its array with its terminator. What is outside the repository is a parameter: the algorithm
  table of the cjwt library (\<open>cjwt_api\<close>), the content of a key file, the build's
  \<^verbatim>\<open>GIT_COMMIT_TAG\<close>, and the sequence of results of \<^verbatim>\<open>getopt_long\<close> (the option letter and
  \<^verbatim>\<open>optarg\<close> of every call before the one that returns \<open>-1\<close>).
\<close>

unbundle bit_operations_syntax

record ParodusCfg =
  hw_model :: string
  hw_serial_number :: string
  hw_manufacturer :: string
  hw_mac :: string
  hw_last_reboot_reason :: string
  fw_name :: string
  boot_time :: u32
  webpa_ping_timeout :: u32
  webpa_url :: string
  webpa_path_url :: string
  webpa_backoff_max :: u32
  webpa_interface_used :: string
  webpa_protocol :: string
  webpa_uuid :: string
  cfg_flags :: u32
  local_url :: string
  partner_id :: string
  seshat_url :: string
  dns_txt_url :: string
  acquire_jwt :: u32
  jwt_algo :: u32
  jwt_key :: string
  cert_path :: string
  webpa_auth_token :: string
  token_acquisition_script :: string
  token_read_script :: string
  client_cert_path :: "string option"
  token_server_url :: "string option"
  connection_health_file :: "string option"
  close_reason_file :: "string option"
  mtls_client_key_path :: "string option"
  mtls_client_cert_path :: "string option"
  crud_config_file :: "string option"
  cloud_status :: "string option"
  cloud_disconnect :: "string option"
  boot_retry_wait :: u32

text \<open>The structure after \<^verbatim>\<open>memset(cfg,0,sizeof(ParodusCfg))\<close> in \<^verbatim>\<open>main\<close>.\<close>

definition zero_cfg :: ParodusCfg where
  "zero_cfg = \<lparr> hw_model = [], hw_serial_number = [], hw_manufacturer = [], hw_mac = [],
     hw_last_reboot_reason = [], fw_name = [], boot_time = 0, webpa_ping_timeout = 0,
     webpa_url = [], webpa_path_url = [], webpa_backoff_max = 0, webpa_interface_used = [],
     webpa_protocol = [], webpa_uuid = [], cfg_flags = 0, local_url = [], partner_id = [],
     seshat_url = [], dns_txt_url = [], acquire_jwt = 0, jwt_algo = 0, jwt_key = [],
     cert_path = [], webpa_auth_token = [],
     token_acquisition_script = [], token_read_script = [], client_cert_path = None, token_server_url = None,
     connection_health_file = None, close_reason_file = None, mtls_client_key_path = None,
     mtls_client_cert_path = None, crud_config_file = None, cloud_status = None,
     cloud_disconnect = None, boot_retry_wait = 0 \<rparr>"

definition FLAGS_IPV6_ONLY :: u32 where "FLAGS_IPV6_ONLY = push_bit 0 1"
definition FLAGS_IPV4_ONLY :: u32 where "FLAGS_IPV4_ONLY = push_bit 1 1"

definition CLOUD_STATUS_ONLINE :: string where "CLOUD_STATUS_ONLINE = ''online''"
definition CLOUD_STATUS_OFFLINE :: string where "CLOUD_STATUS_OFFLINE = ''offline''"

definition set_cloud_disconnect_reason :: "ParodusCfg \<Rightarrow> string \<Rightarrow> ParodusCfg" where
  "set_cloud_disconnect_reason cfg disconn_reason = cfg\<lparr>cloud_disconnect := Some disconn_reason\<rparr>"

definition reset_cloud_disconnect_reason :: "ParodusCfg \<Rightarrow> ParodusCfg" where
  "reset_cloud_disconnect_reason cfg = cfg\<lparr>cloud_disconnect := None\<rparr>"

subsection \<open>Tokens and the JWT algorithm mask\<close>

text \<open>The loop of \<open>get_tok\<close>; the result is the returned pointer and the token buffer.\<close>

fun get_tok_loop :: "string \<Rightarrow> char \<Rightarrow> nat \<Rightarrow> nat \<Rightarrow> string \<Rightarrow> string option \<times> string" where
  "get_tok_loop [] delim endx i result = (None, result)"
| "get_tok_loop (c # src) delim endx i result =
     (if c = delim then (Some src, result)
      else get_tok_loop src delim endx (Suc i) (if i < endx then result @ [c] else result))"

definition get_tok :: "string \<Rightarrow> char \<Rightarrow> nat \<Rightarrow> string option \<times> string" where
  "get_tok src delim resultsize = get_tok_loop src delim (resultsize - 1) 0 []"

record cjwt_api =
  cjwt_alg_str_to_enum :: "string \<Rightarrow> int"
  num_algorithms :: int
  alg_none :: int
  alg_rs256 :: int
  alg_rs384 :: int
  alg_rs512 :: int

text \<open>\<^verbatim>\<open>1<<alg\<close> on \<^verbatim>\<open>unsigned int\<close>\<close>

definition alg_bit :: "int \<Rightarrow> u32" where
  "alg_bit alg_val = push_bit (nat alg_val) 1"

definition rsa_algorithms :: "cjwt_api \<Rightarrow> u32" where
  "rsa_algorithms api =
     alg_bit (alg_rs256 api) OR alg_bit (alg_rs384 api) OR alg_bit (alg_rs512 api)"

lemma get_tok_loop_spec:
  "get_tok_loop src d endx i r =
     (if d \<in> set src then Some (tl (dropWhile (\<lambda>c. c \<noteq> d) src)) else None,
      r @ take (endx - i) (takeWhile (\<lambda>c. c \<noteq> d) src))"
  by (induction src d endx i r rule: get_tok_loop.induct)
     (auto simp: take_Cons' Suc_diff_le)

lemma get_tok_spec:
  "get_tok src d n =
     (if d \<in> set src then Some (tl (dropWhile (\<lambda>c. c \<noteq> d) src)) else None,
      take (n - 1) (takeWhile (\<lambda>c. c \<noteq> d) src))"
  by (simp add: get_tok_def get_tok_loop_spec)

lemma get_tok_shorter: "get_tok src d n = (Some rest, tok) \<Longrightarrow> length rest < length src"
  using length_dropWhile_le [of "\<lambda>c. c \<noteq> d" src]
  by (cases src) (auto simp: get_tok_spec split: if_splits
      intro: le_less_trans [OF diff_le_self] le_imp_less_Suc length_dropWhile_le)

text \<open>
  \<open>get_algo_mask\<close>: \<open>-1\<close> marks an error. Every token must name an algorithm of the library
  that is not \<open>none\<close>, and (\<^verbatim>\<open>ALLOW_NON_RSA_ALG\<close> is false) that is an RSA algorithm.
\<close>

function get_algo_mask_loop :: "cjwt_api \<Rightarrow> u32 \<Rightarrow> string option \<Rightarrow> u32" where
  "get_algo_mask_loop api m None = m"
| "get_algo_mask_loop api m (Some algo_str) =
     (case get_tok algo_str (CHR '':'') 16 of (algo_str', tok) \<Rightarrow>
        let alg_val = cjwt_alg_str_to_enum api tok;
            mask_val = alg_bit alg_val
        in if alg_val < 0 \<or> num_algorithms api \<le> alg_val then - 1
           else if alg_val = alg_none api then - 1
           else if mask_val AND rsa_algorithms api = 0 then - 1
           else get_algo_mask_loop api (m OR mask_val) algo_str')"
  by pat_completeness auto
termination
  by (relation "measure (\<lambda>(api, m, s). case s of None \<Rightarrow> 0 | Some t \<Rightarrow> Suc (length t))")
     (auto split: option.splits dest: get_tok_shorter [OF sym])

definition get_algo_mask :: "cjwt_api \<Rightarrow> string option \<Rightarrow> u32" where
  "get_algo_mask api algo_str = get_algo_mask_loop api 0 algo_str"

subsection \<open>MAC address, numbers\<close>

fun mac_count :: "string \<Rightarrow> nat" where
  "mac_count [] = 0"
| "mac_count (c # arg) = (if c \<noteq> CHR '':'' then Suc (mac_count arg) else mac_count arg)"

fun mac_copy :: "string \<Rightarrow> string" where
  "mac_copy [] = []"
| "mac_copy (c # arg) = (if c \<noteq> CHR '':'' then c # mac_copy arg else mac_copy arg)"

text \<open>The string written to \<open>target\<close>, or \<open>None\<close> where \<open>-1\<close> is returned.\<close>

definition parse_mac_address :: "string \<Rightarrow> string option" where
  "parse_mac_address arg = (if mac_count arg \<noteq> 12 then None else Some (mac_copy arg))"

text \<open>\<open>unsigned\<close> arithmetic wraps; \<open>(unsigned int) -1\<close> is the error value.\<close>

fun parse_num_loop :: "u32 \<Rightarrow> string \<Rightarrow> u32" where
  "parse_num_loop result [] = result"
| "parse_num_loop result (c # arg) =
     (if \<not> is_digit_c c then - 1
      else parse_num_loop (result * 10 + of_char c - 48) arg)"

definition parse_num_arg :: "string \<Rightarrow> u32" where
  "parse_num_arg arg = (if arg = [] then - 1 else parse_num_loop 0 arg)"

subsection \<open>Server urls\<close>

text \<open>The flag and the rest of the url, or \<open>None\<close> where \<open>-1\<close> is returned.\<close>

definition server_is_http :: "string \<Rightarrow> (int \<times> string) option" where
  "server_is_http full_url =
     (if strncmp_eq full_url ''https://'' 8 then Some (0, drop 8 full_url)
      else if strncmp_eq full_url ''http://'' 7 then Some (1, drop 7 full_url)
      else None)"

definition default_port :: "int \<Rightarrow> string" where
  "default_port http_match = (if http_match \<noteq> 0 then ''80'' else ''443'')"

text \<open>\<open>cut_at c s\<close>: the string after its first \<open>c\<close> was overwritten with the terminator.\<close>

definition cut_at :: "char \<Rightarrow> string \<Rightarrow> string" where
  "cut_at c s = takeWhile (\<lambda>x. x \<noteq> c) s"

definition strip_last_slash :: "string \<Rightarrow> string" where
  "strip_last_slash s = (if s \<noteq> [] \<and> last s = CHR ''/'' then butlast s else s)"

text \<open>
  The bytes the copy loop of the \<open>[\<close> branch stores: it copies \<open>server_addr_buflen\<close> bytes from
  the second byte of the buffer on. \<open>None\<close> is a read outside the buffer.
\<close>

definition bracket_shift_reads :: "char list \<Rightarrow> nat \<Rightarrow> char option list" where
  "bracket_shift_reads buf buflen =
     map (\<lambda>i. if Suc i < length buf then Some (buf ! Suc i) else None) [0 ..< buflen]"

text \<open>Server address and port text, or \<open>None\<close> where \<open>-1\<close> is returned.\<close>

definition parse_webpa_url_bufs ::
  "string \<Rightarrow> nat \<Rightarrow> nat \<Rightarrow> (int \<times> string \<times> string) option" where
  "parse_webpa_url_bufs full_url server_addr_buflen port_buflen =
     (case server_is_http full_url of
        None \<Rightarrow> None
      | Some (http_match, server_ptr) \<Rightarrow>
          let server_addr = strip_last_slash (parStrncpy server_ptr server_addr_buflen) in
          if strchr server_addr (CHR ''['') \<noteq> None then
            let server_addr = tl server_addr in
            (case strchr server_addr (CHR '']'') of
               None \<Rightarrow> None
             | Some closeBracket \<Rightarrow>
                 let port = (case strchr (tl closeBracket) (CHR '':'') of
                               None \<Rightarrow> default_port http_match
                             | Some checkPort \<Rightarrow> cut_at (CHR ''/'') (tl checkPort))
                 in Some (http_match, cut_at (CHR '']'') server_addr,
                          parStrncpy port port_buflen))
          else if strchr server_addr (CHR '']'') \<noteq> None then None
          else (case strchr server_addr (CHR '':'') of
                  None \<Rightarrow> Some (http_match, cut_at (CHR ''/'') server_addr,
                                parStrncpy (default_port http_match) port_buflen)
                | Some port_val \<Rightarrow>
                    Some (http_match, cut_at (CHR '':'') server_addr,
                          parStrncpy (cut_at (CHR ''/'') (tl port_val)) port_buflen)))"

text \<open>\<open>allow_insecure\<close>, server address and port, or \<open>None\<close> where \<open>-1\<close> is returned.\<close>

definition parse_webpa_url :: "string \<Rightarrow> (int \<times> string \<times> u32) option" where
  "parse_webpa_url full_url =
     (let buflen = length full_url + 1 in
      case parse_webpa_url_bufs full_url buflen 8 of
        None \<Rightarrow> None
      | Some (allow_insecure, url_buf, port_buf) \<Rightarrow>
          let port_val = parse_num_arg port_buf in
          if port_val = - 1 then None
          else if port_val = 0 \<or> 65535 < port_val then None
          else Some (allow_insecure, url_buf, port_val))"

subsection \<open>Command line\<close>

record cl_env =
  cl_cjwt :: cjwt_api
  key_file :: "string \<Rightarrow> char list option"
  enable_seshat :: bool

text \<open>
  \<open>read_key_from_file\<close> stores up to \<open>buflen\<close> bytes over the old content of the buffer and does
  not terminate it; \<open>parseCommandLine\<close> then prints the buffer as a string.
\<close>

definition read_key_from_file ::
  "(string \<Rightarrow> char list option) \<Rightarrow> string \<Rightarrow> string \<Rightarrow> nat \<Rightarrow> fault + string" where
  "read_key_from_file files fname buf buflen =
     (case files fname of
        None \<Rightarrow> Inl Aborted
      | Some content \<Rightarrow>
          let new = take buflen content; bytes = new @ drop (length new) buf in
          if NUL \<in> set bytes \<or> length bytes < buflen then Inr (cstr bytes)
          else Inl OutOfBounds)"

text \<open>
  One turn of the option loop: the integer is \<open>-1\<close> where the function returns \<open>-1\<close> and \<open>0\<close>
  where the loop goes on. Options without an argument leave \<^verbatim>\<open>optarg\<close> null.
\<close>

definition cl_ok :: "ParodusCfg \<Rightarrow> fault + int \<times> ParodusCfg" where
  "cl_ok cfg = Inr (0, cfg)"

definition parse_num_opt ::
  "(u32 \<Rightarrow> ParodusCfg \<Rightarrow> ParodusCfg) \<Rightarrow> bool \<Rightarrow> ParodusCfg \<Rightarrow> string \<Rightarrow> fault + int \<times> ParodusCfg" where
  "parse_num_opt upd check cfg arg =
     (let v = parse_num_arg arg in
      Inr (if check \<and> v = - 1 then - 1 else 0, upd v cfg))"

definition parse_option_text :: "cl_env \<Rightarrow> ParodusCfg \<Rightarrow> char \<Rightarrow> string \<Rightarrow> fault + int \<times> ParodusCfg" where
  "parse_option_text env cfg c arg =
     (if c = CHR ''m'' then cl_ok (cfg\<lparr>hw_model := parStrncpy arg 64\<rparr>)
      else if c = CHR ''s'' then cl_ok (cfg\<lparr>hw_serial_number := parStrncpy arg 64\<rparr>)
      else if c = CHR ''f'' then cl_ok (cfg\<lparr>hw_manufacturer := parStrncpy arg 64\<rparr>)
      else if c = CHR ''d'' then
        (case parse_mac_address arg of
           None \<Rightarrow> Inr (- 1, cfg)
         | Some mac \<Rightarrow> cl_ok (cfg\<lparr>hw_mac := mac\<rparr>))
      else if c = CHR ''e'' \<and> enable_seshat env then cl_ok (cfg\<lparr>seshat_url := parStrncpy arg 128\<rparr>)
      else if c = CHR ''r'' then cl_ok (cfg\<lparr>hw_last_reboot_reason := parStrncpy arg 128\<rparr>)
      else if c = CHR ''n'' then cl_ok (cfg\<lparr>fw_name := parStrncpy arg 64\<rparr>)
      else if c = CHR ''b'' then parse_num_opt (\<lambda>v. boot_time_update (\<lambda>_. v)) False cfg arg
      else if c = CHR ''u'' then
        (let cfg = cfg\<lparr>webpa_url := parStrncpy arg 124\<rparr> in
         if server_is_http (webpa_url cfg) = None then Inr (- 1, cfg) else cl_ok cfg)
      else if c = CHR ''t'' then parse_num_opt (\<lambda>v. webpa_ping_timeout_update (\<lambda>_. v)) True cfg arg
      else if c = CHR ''o'' then parse_num_opt (\<lambda>v. webpa_backoff_max_update (\<lambda>_. v)) True cfg arg
      else if c = CHR ''i'' then cl_ok (cfg\<lparr>webpa_interface_used := parStrncpy arg 16\<rparr>)
      else if c = CHR ''l'' then cl_ok (cfg\<lparr>local_url := parStrncpy arg 124\<rparr>)
      else if c = CHR ''D'' then cl_ok (cfg\<lparr>dns_txt_url := parStrncpy arg 64\<rparr>)
      else if c = CHR ''j'' then parse_num_opt (\<lambda>v. acquire_jwt_update (\<lambda>_. v)) True cfg arg
      else if c = CHR ''a'' then
        (let cfg = cfg\<lparr>jwt_algo := get_algo_mask (cl_cjwt env) (Some arg)\<rparr> in
         if jwt_algo cfg = - 1 then Inr (- 1, cfg) else cl_ok cfg)
      else if c = CHR ''k'' then
        then_run (read_key_from_file (key_file env) arg (jwt_key cfg) 4096)
          (\<lambda>key. cl_ok (cfg\<lparr>jwt_key := key\<rparr>))
      else if c = CHR ''p'' then cl_ok (cfg\<lparr>partner_id := parStrncpy arg 64\<rparr>)
      else if c = CHR ''c'' then cl_ok (cfg\<lparr>cert_path := parStrncpy arg 64\<rparr>)
      else if c = CHR ''w'' then parse_num_opt (\<lambda>v. boot_retry_wait_update (\<lambda>_. v)) False cfg arg
      else if c = CHR ''S'' then cl_ok (cfg\<lparr>connection_health_file := Some arg\<rparr>)
      else if c = CHR ''R'' then cl_ok (cfg\<lparr>close_reason_file := Some arg\<rparr>)
      else if c = CHR ''C'' then cl_ok (cfg\<lparr>crud_config_file := Some arg\<rparr>)
      else if c = CHR ''P'' then cl_ok (cfg\<lparr>client_cert_path := Some arg\<rparr>)
      else if c = CHR ''U'' then cl_ok (cfg\<lparr>token_server_url := Some arg\<rparr>)
      else if c = CHR ''K'' then cl_ok (cfg\<lparr>mtls_client_key_path := Some arg\<rparr>)
      else if c = CHR ''M'' then cl_ok (cfg\<lparr>mtls_client_cert_path := Some arg\<rparr>)
      else Inr (- 1, cfg))"

definition parse_option ::
  "cl_env \<Rightarrow> ParodusCfg \<Rightarrow> char \<times> string option \<Rightarrow> fault + int \<times> ParodusCfg" where
  "parse_option env cfg opt =
     (case opt of (c, optarg) \<Rightarrow>
        if c = CHR ''4'' then cl_ok (cfg\<lparr>cfg_flags := cfg_flags cfg OR FLAGS_IPV4_ONLY\<rparr>)
        else if c = CHR ''6'' then cl_ok (cfg\<lparr>cfg_flags := cfg_flags cfg OR FLAGS_IPV6_ONLY\<rparr>)
        else if c = CHR ''?'' then cl_ok cfg
        else then_run (deref optarg) (parse_option_text env cfg c))"

fun parse_options ::
  "cl_env \<Rightarrow> ParodusCfg \<Rightarrow> (char \<times> string option) list \<Rightarrow> fault + int \<times> ParodusCfg" where
  "parse_options env cfg [] = Inr (0, cfg)"
| "parse_options env cfg (opt # opts) =
     then_run (parse_option env cfg opt)
       (\<lambda>(rv, cfg'). if rv \<noteq> 0 then Inr (rv, cfg') else parse_options env cfg' opts)"

definition reset_cfg :: "ParodusCfg \<Rightarrow> ParodusCfg" where
  "reset_cfg cfg = cfg\<lparr> cfg_flags := 0, webpa_url := [], acquire_jwt := 0, jwt_algo := 0,
     jwt_key := [], crud_config_file := None, connection_health_file := None,
     close_reason_file := None, client_cert_path := None, token_server_url := None,
     cloud_status := None, cloud_disconnect := None \<rparr>"

definition check_cfg :: "cl_env \<Rightarrow> ParodusCfg \<Rightarrow> int" where
  "check_cfg env cfg =
     (if webpa_url cfg = [] then - 1
      else if acquire_jwt cfg \<noteq> 0 then
        if jwt_algo cfg = 0 then - 1
        else if jwt_algo cfg AND rsa_algorithms (cl_cjwt env) \<noteq> 0 \<and> jwt_key cfg = [] then - 1
        else 0
      else 0)"

definition parseCommandLine ::
  "cl_env \<Rightarrow> (char \<times> string option) list \<Rightarrow> ParodusCfg option \<Rightarrow> fault + int \<times> ParodusCfg option" where
  "parseCommandLine env opts cfg =
     (case cfg of
        None \<Rightarrow> Inr (- 1, None)
      | Some cfg \<Rightarrow>
          then_run (parse_options env (reset_cfg cfg) opts)
            (\<lambda>(rv, cfg'). Inr (if rv \<noteq> 0 then rv else check_cfg env cfg', Some cfg')))"

subsection \<open>Default values and loading\<close>

definition PARODUS_UPSTREAM :: string where "PARODUS_UPSTREAM = ''tcp://127.0.0.1:6666''"
definition DNS_TXT_URL :: string where "DNS_TXT_URL = ''fabric''"
definition WEBPA_PATH_URL :: string where "WEBPA_PATH_URL = ''/api/v2/device''"
definition PROTOCOL_VALUE :: string where "PROTOCOL_VALUE = ''PARODUS-2.0''"

text \<open>\<^verbatim>\<open>snprintf(buf, 32, "%s-%s", PROTOCOL_VALUE, GIT_COMMIT_TAG)\<close>\<close>

definition protocol_text :: "string \<Rightarrow> string" where
  "protocol_text git_tag = take 31 (PROTOCOL_VALUE @ ''-'' @ git_tag)"

text \<open>\<open>setDefaultValuesToCfg\<close> for the structure \<^verbatim>\<open>main\<close> passes, which is not null.\<close>

definition setDefaultValuesToCfg :: "string \<Rightarrow> ParodusCfg \<Rightarrow> ParodusCfg" where
  "setDefaultValuesToCfg git_tag cfg = cfg\<lparr>
     local_url := parStrncpy PARODUS_UPSTREAM 124, acquire_jwt := 0,
     dns_txt_url := parStrncpy DNS_TXT_URL 64, jwt_key := [], jwt_algo := 0, cert_path := [],
     cfg_flags := 0, webpa_path_url := parStrncpy WEBPA_PATH_URL 124,
     webpa_protocol := protocol_text git_tag,
     webpa_uuid := parStrncpy ''1234567-345456546'' 64,
     crud_config_file := None, connection_health_file := None, close_reason_file := None,
     client_cert_path := None, token_server_url := None,
     cloud_status := Some CLOUD_STATUS_OFFLINE \<rparr>"

text \<open>The configuration \<^verbatim>\<open>main\<close> starts with; a non-zero result of the parser aborts.\<close>

definition main_config :: "string \<Rightarrow> cl_env \<Rightarrow> (char \<times> string option) list \<Rightarrow> fault + ParodusCfg" where
  "main_config git_tag env opts =
     then_run (parseCommandLine env opts (Some (setDefaultValuesToCfg git_tag zero_cfg)))
       (\<lambda>(rv, cfg). if rv \<noteq> 0 then Inl Aborted else deref cfg)"

text \<open>A text field is copied only where the source's is not empty.\<close>

definition load_text :: "string \<Rightarrow> string \<Rightarrow> nat \<Rightarrow> string" where
  "load_text new old n = (if new \<noteq> [] then parStrncpy new n else old)"

definition load_ptr :: "string option \<Rightarrow> string option \<Rightarrow> string option" where
  "load_ptr new old = (case new of None \<Rightarrow> old | Some s \<Rightarrow> Some s)"

definition loadParodusCfg :: "string \<Rightarrow> bool \<Rightarrow> ParodusCfg option \<Rightarrow> ParodusCfg \<Rightarrow> ParodusCfg" where
  "loadParodusCfg git_tag seshat config cfg =
     (case config of None \<Rightarrow> cfg | Some config \<Rightarrow> cfg\<lparr>
        hw_model := load_text (hw_model config) (hw_model cfg) 64,
        hw_serial_number := load_text (hw_serial_number config) (hw_serial_number cfg) 64,
        hw_manufacturer := load_text (hw_manufacturer config) (hw_manufacturer cfg) 64,
        hw_mac := load_text (hw_mac config) (hw_mac cfg) 64,
        hw_last_reboot_reason := load_text (hw_last_reboot_reason config) (hw_last_reboot_reason cfg) 128,
        fw_name := load_text (fw_name config) (fw_name cfg) 64,
        webpa_url := load_text (webpa_url config) (webpa_url cfg) 124,
        webpa_interface_used := load_text (webpa_interface_used config) (webpa_interface_used cfg) 16,
        local_url := load_text (local_url config) (parStrncpy PARODUS_UPSTREAM 124) 124,
        partner_id := load_text (partner_id config) (partner_id cfg) 64,
        seshat_url := (if seshat then load_text (seshat_url config) (seshat_url cfg) 128
                       else seshat_url cfg),
        acquire_jwt := acquire_jwt config,
        dns_txt_url := load_text (dns_txt_url config) (parStrncpy DNS_TXT_URL 64) 64,
        jwt_key := load_text (jwt_key config) [] 4096,
        jwt_algo := jwt_algo config,
        cert_path := load_text (cert_path config) [] 64,
        boot_time := boot_time config,
        webpa_ping_timeout := webpa_ping_timeout config,
        webpa_backoff_max := webpa_backoff_max config,
        webpa_path_url := parStrncpy WEBPA_PATH_URL 124,
        webpa_protocol := protocol_text git_tag,
        webpa_uuid := parStrncpy ''1234567-345456546'' 64,
        connection_health_file := load_ptr (connection_health_file config) (connection_health_file cfg),
        close_reason_file := load_ptr (close_reason_file config) (close_reason_file cfg),
        crud_config_file := load_ptr (crud_config_file config) (crud_config_file cfg),
        client_cert_path := load_ptr (client_cert_path config) (client_cert_path cfg),
        token_server_url := load_ptr (token_server_url config) (token_server_url cfg) \<rparr>)"

subsection \<open>Well-formed configurations\<close>

definition cfg_wf :: "ParodusCfg \<Rightarrow> bool" where
  "cfg_wf cfg \<longleftrightarrow>
     length (hw_model cfg) < 64 \<and> length (hw_serial_number cfg) < 64 \<and>
     length (hw_manufacturer cfg) < 64 \<and> length (hw_mac cfg) < 64 \<and>
     length (hw_last_reboot_reason cfg) < 128 \<and> length (fw_name cfg) < 64 \<and>
     length (webpa_url cfg) < 124 \<and> length (webpa_path_url cfg) < 124 \<and>
     length (webpa_interface_used cfg) < 16 \<and> length (webpa_protocol cfg) < 32 \<and>
     length (webpa_uuid cfg) < 64 \<and> length (local_url cfg) < 124 \<and>
     length (partner_id cfg) < 64 \<and> length (seshat_url cfg) < 128 \<and>
     length (dns_txt_url cfg) < 64 \<and> length (jwt_key cfg) < 4096 \<and>
     length (cert_path cfg) < 64 \<and> length (webpa_auth_token cfg) < 4096 \<and>
     length (token_acquisition_script cfg) < 64 \<and> length (token_read_script cfg) < 64"

subsection \<open>Numbers\<close>

definition digit_val :: "char \<Rightarrow> nat" where
  "digit_val c = of_char c - 48"

definition dec_value :: "string \<Rightarrow> nat" where
  "dec_value s = foldl (\<lambda>n c. 10 * n + digit_val c) 0 s"

lemma parse_num_loop_digits:
  "list_all is_digit_c s \<Longrightarrow>
     parse_num_loop (of_nat n) s = of_nat (foldl (\<lambda>n c. 10 * n + digit_val c) n s)"
proof (induction s arbitrary: n)
  case (Cons c s)
  then have "48 \<le> (of_char c :: nat)" by (simp add: is_digit_c_def)
  then have "of_nat n * 10 + of_char c - 48 = (of_nat (10 * n + digit_val c) :: u32)"
    by (simp add: digit_val_def of_nat_diff algebra_simps)
       (metis of_nat_of_char)
  with Cons show ?case by (simp del: of_nat_add of_nat_mult)
qed simp

lemma parse_num_loop_bad: "\<not> list_all is_digit_c s \<Longrightarrow> parse_num_loop r s = - 1"
  by (induction s arbitrary: r) auto

lemma parse_num_arg_eq:
  "parse_num_arg arg =
     (if arg \<noteq> [] \<and> list_all is_digit_c arg then of_nat (dec_value arg) else - 1)"
  using parse_num_loop_digits [of arg 0] parse_num_loop_bad [of arg 0]
  by (auto simp: parse_num_arg_def dec_value_def)

fun nat_text :: "nat \<Rightarrow> string" where
  "nat_text n = (if n < 10 then [char_of (48 + n)]
                 else nat_text (n div 10) @ [char_of (48 + n mod 10)])"

declare nat_text.simps [simp del]

text \<open>The format \<^verbatim>\<open>%d\<close>.\<close>

definition print_int :: "int \<Rightarrow> string" where
  "print_int i = (if i < 0 then CHR ''-'' # nat_text (nat (- i)) else nat_text (nat i))"

lemma dec_value_snoc: "dec_value (s @ [c]) = 10 * dec_value s + digit_val c"
  by (simp add: dec_value_def)

lemma digit_char: "d < 10 \<Longrightarrow> digit_val (char_of (48 + d)) = d \<and> is_digit_c (char_of (48 + d))"
  by (simp add: digit_val_def is_digit_c_def)

lemma nat_text_value: "dec_value (nat_text n) = n"
proof (induction n rule: nat_text.induct)
  case (1 n)
  show ?case
  proof (cases "n < 10")
    case True
    then show ?thesis using dec_value_snoc [of "[]"] digit_char [of n]
      by (simp add: nat_text.simps [of n] dec_value_def)
  next
    case False
    then show ?thesis using 1 digit_char [of "n mod 10"]
      by (simp add: nat_text.simps [of n] dec_value_snoc)
  qed
qed

lemma nat_text_digits: "nat_text n \<noteq> [] \<and> list_all is_digit_c (nat_text n)"
proof (induction n rule: nat_text.induct)
  case (1 n)
  then show ?case using digit_char [of n] digit_char [of "n mod 10"]
    by (cases "n < 10") (simp_all add: nat_text.simps [of n])
qed

lemma length_nat_text: "n < 10 ^ k \<Longrightarrow> 0 < k \<Longrightarrow> length (nat_text n) \<le> k"
proof (induction n arbitrary: k rule: nat_text.induct)
  case (1 n)
  show ?case
  proof (cases "n < 10")
    case False
    with "1.prems" obtain j where j: "k = Suc j" "0 < j"
      by (cases k; cases "k - 1") auto
    then have "n div 10 < 10 ^ j" using "1.prems" by (simp add: less_mult_imp_div_less mult.commute)
    then show ?thesis using "1.IH" [OF False, of j] False j
      by (simp add: nat_text.simps [of n])
  qed (use 1 in \<open>simp add: nat_text.simps [of n]\<close>)
qed

subsection \<open>MAC addresses\<close>

lemma mac_copy_filter: "mac_copy s = filter (\<lambda>c. c \<noteq> CHR '':'') s"
  by (induction s) auto

lemma mac_count_length: "mac_count s = length (mac_copy s)"
  by (induction s) auto

lemma parse_mac_address_iff:
  "parse_mac_address arg = Some t \<longleftrightarrow> t = filter (\<lambda>c. c \<noteq> CHR '':'') arg \<and> length t = 12"
  by (auto simp: parse_mac_address_def mac_count_length mac_copy_filter)

subsection \<open>Algorithms\<close>

function algo_tokens :: "string \<Rightarrow> string list" where
  "algo_tokens s =
     (case get_tok s (CHR '':'') 16 of
        (None, tok) \<Rightarrow> [tok]
      | (Some rest, tok) \<Rightarrow> tok # algo_tokens rest)"
  by pat_completeness auto
termination
  by (relation "measure length") (auto dest: get_tok_shorter [OF sym])

declare algo_tokens.simps [simp del]

definition allowed_algo :: "cjwt_api \<Rightarrow> string \<Rightarrow> bool" where
  "allowed_algo api tok \<longleftrightarrow>
     (let a = cjwt_alg_str_to_enum api tok in
      0 \<le> a \<and> a < num_algorithms api \<and> a \<noteq> alg_none api \<and> bit (rsa_algorithms api) (nat a))"

lemma bit_alg_bit [simp]: "bit (alg_bit a) k \<longleftrightarrow> k = nat a \<and> k < 32"
  by (auto simp: alg_bit_def bit_simps)

lemma alg_bit_and_eq_0: "alg_bit a AND w = 0 \<longleftrightarrow> \<not> bit w (nat a)"
proof
  assume "alg_bit a AND w = 0"
  then have "\<not> bit (alg_bit a AND w) (nat a)" by simp
  then show "\<not> bit w (nat a)"
    by (auto simp: bit_and_iff dest: bit_imp_le_length)
next
  assume "\<not> bit w (nat a)"
  then show "alg_bit a AND w = 0"
    by (intro bit_word_eqI) (auto simp: bit_and_iff)
qed

lemma get_algo_mask_loop_allowed:
  "get_algo_mask_loop api m (Some s) =
     (if list_all (allowed_algo api) (algo_tokens s)
      then foldl (\<lambda>w t. w OR alg_bit (cjwt_alg_str_to_enum api t)) m (algo_tokens s)
      else - 1)"
proof (induction s arbitrary: m rule: algo_tokens.induct)
  case (1 s)
  obtain r tok where tok: "get_tok s (CHR '':'') 16 = (r, tok)" by fastforce
  show ?case
  proof (cases r)
    case None
    then show ?thesis using tok
      by (auto simp: algo_tokens.simps [of s] allowed_algo_def Let_def alg_bit_and_eq_0)
  next
    case (Some rest)
    note IH = 1 [OF tok [symmetric] Some]
    show ?thesis using tok Some
      by (auto simp: algo_tokens.simps [of s] allowed_algo_def Let_def alg_bit_and_eq_0 IH
          simp del: get_algo_mask_loop.simps(2) simp: get_algo_mask_loop.simps(2) [of api m s])
  qed
qed

lemma foldl_or_bit:
  "bit (foldl (\<lambda>w t. w OR f t) m ts :: u32) k \<longleftrightarrow> bit m k \<or> (\<exists>t\<in>set ts. bit (f t) k)"
  by (induction ts arbitrary: m) (auto simp: bit_or_iff)

lemma rsa_algorithms_bit:
  "bit (rsa_algorithms api) k \<longleftrightarrow>
     k < 32 \<and> k \<in> nat ` {alg_rs256 api, alg_rs384 api, alg_rs512 api}"
  by (auto simp: rsa_algorithms_def bit_or_iff)

lemma get_algo_mask_eq:
  "get_algo_mask api (Some s) =
     (if list_all (allowed_algo api) (algo_tokens s)
      then foldl (\<lambda>w t. w OR alg_bit (cjwt_alg_str_to_enum api t)) 0 (algo_tokens s)
      else - 1)"
  unfolding get_algo_mask_def by (rule get_algo_mask_loop_allowed)



subsection \<open>Server urls: ranges and round trips\<close>

lemma take_length_prefix: "take (length p) s = p \<longleftrightarrow> (\<exists>r. s = p @ r)"
  by (metis append_eq_conv_conj append_take_drop_id)

lemma https_prefix: "strncmp_eq url ''https://'' 8 \<longleftrightarrow> (\<exists>r. url = ''https://'' @ r)"
  using take_length_prefix [of "''https://''" url] by (simp add: strncmp_eq_def eval_nat_numeral)

lemma http_prefix: "strncmp_eq url ''http://'' 7 \<longleftrightarrow> (\<exists>r. url = ''http://'' @ r)"
  using take_length_prefix [of "''http://''" url] by (simp add: strncmp_eq_def eval_nat_numeral)

lemma server_is_http_Some:
  "server_is_http url = Some (h, r) \<longleftrightarrow>
     h = 0 \<and> url = ''https://'' @ r \<or> h = 1 \<and> url = ''http://'' @ r"
  unfolding server_is_http_def https_prefix http_prefix by auto

lemma takeWhile_until: "c \<notin> set u \<Longrightarrow> takeWhile (\<lambda>x. x \<noteq> c) (u @ c # t) = u"
  by (metis (mono_tags, lifting) append_Nil2 takeWhile_append1 takeWhile.simps(2) takeWhile_append2)

lemma cut_at_until: "c \<notin> set u \<Longrightarrow> t = [] \<or> hd t = c \<Longrightarrow> cut_at c (u @ t) = u"
  by (cases t) (auto simp: cut_at_def takeWhile_append takeWhile_eq_all_conv)

lemma strchr_until: "c \<notin> set u \<Longrightarrow> strchr (u @ c # t) c = Some (c # t)"
  by (auto simp: strchr_Some_iff)

lemma digit_not_punct: "is_digit_c c \<Longrightarrow> c \<notin> {CHR ''/'', CHR '':'', CHR ''['', CHR '']''}"
  by (auto simp: is_digit_c_def)

lemma nat_text_no_punct: "c \<in> {CHR ''/'', CHR '':'', CHR ''['', CHR '']''} \<Longrightarrow> c \<notin> set (nat_text n)"
  using nat_text_digits [of n] digit_not_punct by (auto simp: list_all_iff)

lemma port_text_parses:
  assumes "0 < p" "p \<le> 65535"
  shows "parse_num_arg (parStrncpy (nat_text p) 8) = of_nat p \<and>
    (of_nat p :: u32) \<noteq> - 1 \<and> (of_nat p :: u32) \<noteq> 0 \<and> \<not> 65535 < (of_nat p :: u32)"
proof -
  have "length (nat_text p) \<le> 5" using assms length_nat_text [of p 5] by simp
  then have "parStrncpy (nat_text p) 8 = nat_text p" by (simp add: parStrncpy_id)
  moreover have "unat (of_nat p :: u32) = p" using assms by (simp add: unat_of_nat)
  moreover have "(- 1 :: u32) = 4294967295" by simp
  ultimately show ?thesis using assms nat_text_digits [of p]
    by (auto simp: parse_num_arg_eq nat_text_value word_less_nat_alt word_unat_eq_iff)
qed

lemma strip_last_slash_append:
  "t \<noteq> [] \<Longrightarrow> strip_last_slash (u @ t) = u @ strip_last_slash t"
  by (simp add: strip_last_slash_def butlast_append)

text \<open>What may follow the port: nothing, or a path.\<close>

definition url_path :: "string \<Rightarrow> bool" where
  "url_path path \<longleftrightarrow> (path = [] \<or> hd path = CHR ''/'') \<and> CHR ''['' \<notin> set path \<and> CHR '']'' \<notin> set path"

lemma url_path_strip:
  assumes "url_path path"
  obtains path' where "url_path path'" "strip_last_slash (nat_text p @ path) = nat_text p @ path'"
proof (cases "path = []")
  case True
  have "last (nat_text p) \<noteq> CHR ''/''"
    using nat_text_digits [of p] nat_text_no_punct [of "CHR ''/''" p] last_in_set by fastforce
  with True that [of "[]"] show ?thesis by (simp add: strip_last_slash_def url_path_def)
next
  case False
  have "url_path (strip_last_slash path)"
    using assms by (cases path rule: rev_cases; cases "butlast path")
      (auto simp: url_path_def strip_last_slash_def)
  with that strip_last_slash_append [OF False] show ?thesis by metis
qed

lemma parse_webpa_url_bufs_host:
  assumes host: "set host \<inter> {CHR ''/'', CHR '':'', CHR ''['', CHR '']''} = {}"
    and path: "url_path path"
    and h: "server_is_http url = Some (h, host @ CHR '':'' # nat_text p @ path)"
    and n: "length url < n"
  shows "parse_webpa_url_bufs url n m = Some (h, host, parStrncpy (nat_text p) m)"
proof -
  obtain path' where path': "url_path path'"
    and strip: "strip_last_slash (nat_text p @ path) = nat_text p @ path'"
    using url_path_strip [OF path] by metis
  let ?s = "host @ CHR '':'' # nat_text p @ path'"
  have "parStrncpy (host @ CHR '':'' # nat_text p @ path) n = host @ CHR '':'' # nat_text p @ path"
    using h n by (intro parStrncpy_id) (auto simp: server_is_http_Some)
  moreover have "strip_last_slash (host @ CHR '':'' # nat_text p @ path) = ?s"
    using strip_last_slash_append [of "nat_text p @ path" "host @ [CHR '':'']"] nat_text_digits [of p] strip
    by simp
  moreover have "strchr ?s (CHR ''['') = None" "strchr ?s (CHR '']'') = None"
    using host path' nat_text_no_punct [of _ p] by (auto simp: strchr_None_iff url_path_def)
  moreover have "strchr ?s (CHR '':'') = Some (CHR '':'' # nat_text p @ path')"
    using host by (intro strchr_until) auto
  moreover have "cut_at (CHR '':'') ?s = host"
    using host by (intro cut_at_until) auto
  moreover have "cut_at (CHR ''/'') (nat_text p @ path') = nat_text p"
    using path' nat_text_no_punct [of _ p] by (intro cut_at_until) (auto simp: url_path_def)
  ultimately show ?thesis
    by (simp add: parse_webpa_url_bufs_def h)
qed


lemma length_cut_at [simp]:
  "length (cut_at c s) \<le> length s" "length (cut_at c (tl s)) \<le> length s"
  using length_takeWhile_le [of "\<lambda>x. x \<noteq> c" s] length_takeWhile_le [of "\<lambda>x. x \<noteq> c" "tl s"]
  by (simp_all add: cut_at_def)

lemma parse_webpa_url_bufs_scheme:
  assumes "parse_webpa_url_bufs url n m = Some (h, addr, port)"
  shows "(\<exists>r. h = 0 \<and> url = ''https://'' @ r \<and> length addr \<le> length r) \<or>
         (\<exists>r. h = 1 \<and> url = ''http://'' @ r \<and> length addr \<le> length r)"
proof -
  obtain r where r: "server_is_http url = Some (h, r)"
    and addr: "length addr \<le> length (strip_last_slash (parStrncpy r n))"
    using assms unfolding parse_webpa_url_bufs_def
    by (auto simp: Let_def split: option.splits if_splits)
  have "length addr \<le> length r"
    using addr by (auto simp: strip_last_slash_def parStrncpy_def split: if_splits)
  then show ?thesis using r by (auto simp: server_is_http_Some)
qed

subsection \<open>The command line\<close>

lemma read_key_length:
  assumes "read_key_from_file files f buf n = Inr key" "length buf < n"
  shows "length key < n"
proof -
  from assms obtain content where c: "files f = Some content"
    by (auto simp: read_key_from_file_def split: option.splits)
  let ?bytes = "take n content @ drop (length (take n content)) buf"
  have len: "length ?bytes \<le> n" using assms(2) by simp
  have "key = cstr ?bytes" "NUL \<in> set ?bytes \<or> length ?bytes < n"
    using assms(1) c by (auto simp: read_key_from_file_def Let_def split: if_splits)
  then show ?thesis
    using len length_cstr [of ?bytes] by (metis less_le_trans le_less_trans)
qed

text \<open>Every assignment of the option loop keeps the configuration well formed.\<close>

lemma cfg_wf_text_updates:
  assumes "cfg_wf cfg"
  shows "length s < 64 \<Longrightarrow> cfg_wf (cfg\<lparr>hw_model := s\<rparr>)"
    "length s < 64 \<Longrightarrow> cfg_wf (cfg\<lparr>hw_serial_number := s\<rparr>)"
    "length s < 64 \<Longrightarrow> cfg_wf (cfg\<lparr>hw_manufacturer := s\<rparr>)"
    "length s < 64 \<Longrightarrow> cfg_wf (cfg\<lparr>hw_mac := s\<rparr>)"
    "length s < 128 \<Longrightarrow> cfg_wf (cfg\<lparr>seshat_url := s\<rparr>)"
    "length s < 128 \<Longrightarrow> cfg_wf (cfg\<lparr>hw_last_reboot_reason := s\<rparr>)"
    "length s < 64 \<Longrightarrow> cfg_wf (cfg\<lparr>fw_name := s\<rparr>)"
    "length s < 124 \<Longrightarrow> cfg_wf (cfg\<lparr>webpa_url := s\<rparr>)"
    "length s < 16 \<Longrightarrow> cfg_wf (cfg\<lparr>webpa_interface_used := s\<rparr>)"
    "length s < 124 \<Longrightarrow> cfg_wf (cfg\<lparr>local_url := s\<rparr>)"
    "length s < 64 \<Longrightarrow> cfg_wf (cfg\<lparr>dns_txt_url := s\<rparr>)"
    "length s < 4096 \<Longrightarrow> cfg_wf (cfg\<lparr>jwt_key := s\<rparr>)"
    "length s < 64 \<Longrightarrow> cfg_wf (cfg\<lparr>partner_id := s\<rparr>)"
    "length s < 64 \<Longrightarrow> cfg_wf (cfg\<lparr>cert_path := s\<rparr>)"
  using assms by (simp_all add: cfg_wf_def)

lemma cfg_wf_other_updates:
  "cfg_wf (boot_time_update f cfg) = cfg_wf cfg"
  "cfg_wf (webpa_ping_timeout_update f cfg) = cfg_wf cfg"
  "cfg_wf (webpa_backoff_max_update f cfg) = cfg_wf cfg"
  "cfg_wf (acquire_jwt_update f cfg) = cfg_wf cfg"
  "cfg_wf (jwt_algo_update f cfg) = cfg_wf cfg"
  "cfg_wf (boot_retry_wait_update f cfg) = cfg_wf cfg"
  "cfg_wf (cfg_flags_update f cfg) = cfg_wf cfg"
  "cfg_wf (connection_health_file_update g cfg) = cfg_wf cfg"
  "cfg_wf (close_reason_file_update g cfg) = cfg_wf cfg"
  "cfg_wf (crud_config_file_update g cfg) = cfg_wf cfg"
  "cfg_wf (client_cert_path_update g cfg) = cfg_wf cfg"
  "cfg_wf (token_server_url_update g cfg) = cfg_wf cfg"
  "cfg_wf (mtls_client_key_path_update g cfg) = cfg_wf cfg"
  "cfg_wf (mtls_client_cert_path_update g cfg) = cfg_wf cfg"
  by (simp_all add: cfg_wf_def)

lemmas option_simps = parse_num_opt_def Let_def cl_ok_def then_run_Inr_iff

lemma cfg_wf_key: "cfg_wf cfg \<Longrightarrow> length (jwt_key cfg) < 4096"
  by (simp add: cfg_wf_def)

lemma parse_option_text_wf:
  assumes "parse_option_text env cfg c arg = Inr (rv, cfg')" "cfg_wf cfg"
  shows "cfg_wf cfg'"
  using assms cfg_wf_text_updates [OF assms(2)] cfg_wf_key [OF assms(2)]
  unfolding parse_option_text_def
  by (auto simp: option_simps cfg_wf_other_updates parse_mac_address_iff
      split: if_split_asm option.split_asm dest: read_key_length)

lemma parse_option_wf:
  "parse_option env cfg opt = Inr (rv, cfg') \<Longrightarrow> cfg_wf cfg \<Longrightarrow> cfg_wf cfg'"
  by (auto simp: parse_option_def cl_ok_def then_run_Inr_iff cfg_wf_other_updates
      split: prod.splits if_splits dest: parse_option_text_wf)

lemma parse_options_wf:
  "parse_options env cfg opts = Inr (rv, cfg') \<Longrightarrow> cfg_wf cfg \<Longrightarrow> cfg_wf cfg'"
  by (induction opts arbitrary: cfg)
     (auto simp: then_run_Inr_iff split: prod.splits if_splits dest: parse_option_wf)

lemma default_wf: "cfg_wf (reset_cfg (setDefaultValuesToCfg git_tag zero_cfg))"
  by (simp add: cfg_wf_def reset_cfg_def setDefaultValuesToCfg_def zero_cfg_def protocol_text_def)

text \<open>The url the option loop leaves is empty or has a scheme.\<close>

definition url_ok :: "ParodusCfg \<Rightarrow> bool" where
  "url_ok cfg \<longleftrightarrow> webpa_url cfg = [] \<or> server_is_http (webpa_url cfg) \<noteq> None"

lemma parse_option_text_url:
  assumes "parse_option_text env cfg c arg = Inr (0, cfg')" "url_ok cfg"
  shows "url_ok cfg' \<and> cloud_status cfg' = cloud_status cfg"
  using assms
  by (auto simp: parse_option_text_def url_ok_def parse_num_opt_def Let_def cl_ok_def then_run_Inr_iff
     split: if_splits option.splits)

lemma parse_options_url:
  "parse_options env cfg opts = Inr (0, cfg') \<Longrightarrow> url_ok cfg \<Longrightarrow> url_ok cfg' \<and> cloud_status cfg' = cloud_status cfg"
proof (induction opts arbitrary: cfg)
  case (Cons opt opts)
  from Cons.prems(1) obtain cfg1 where c1: "parse_option env cfg opt = Inr (0, cfg1)"
    "parse_options env cfg1 opts = Inr (0, cfg')"
    by (auto simp: then_run_Inr_iff split: prod.splits if_splits)
  from c1(1) Cons.prems(2) have "url_ok cfg1 \<and> cloud_status cfg1 = cloud_status cfg"
    by (auto simp: parse_option_def cl_ok_def then_run_Inr_iff split: prod.splits if_splits
      dest: parse_option_text_url simp: url_ok_def)
  with Cons.IH [OF c1(2)] show ?case by simp
qed simp

lemma main_config_parts:
  assumes "main_config git_tag env opts = Inr cfg"
  shows "parse_options env (reset_cfg (setDefaultValuesToCfg git_tag zero_cfg)) opts = Inr (0, cfg)"
    "check_cfg env cfg = 0"
  using assms
  by (auto simp: main_config_def parseCommandLine_def then_run_Inr_iff split: if_splits)


lemma load_text_less: "length old < n \<Longrightarrow> length (load_text new old n) < n"
  by (cases "n = 0") (simp_all add: load_text_def)

lemma load_text_id: "length new < n \<Longrightarrow> load_text new [] n = new"
  by (simp add: load_text_def parStrncpy_id)

lemma parse_webpa_url_bounds:
  assumes "parse_webpa_url url = Some (insecure, addr, port)"
  shows "1 \<le> unat port \<and> unat port \<le> 65535 \<and> length addr < length url \<and>
    (insecure = 1 \<and> take 7 url = ''http://'' \<or> insecure = 0 \<and> take 8 url = ''https://'')"
proof -
  obtain pt where "parse_webpa_url_bufs url (length url + 1) 8 = Some (insecure, addr, pt)"
    and p: "port \<noteq> 0" "\<not> 65535 < port"
    using assms by (auto simp: parse_webpa_url_def Let_def split: option.splits if_splits)
  from parse_webpa_url_bufs_scheme [OF this(1)] p show ?thesis
    by (auto simp: word_less_nat_alt word_unat_eq_iff Suc_le_eq)
qed

lemma get_algo_mask_accepted:
  assumes "get_algo_mask api (Some s) \<noteq> - 1"
  shows "(\<forall>t\<in>set (algo_tokens s). allowed_algo api t) \<and>
    (\<forall>k. bit (get_algo_mask api (Some s)) k \<longleftrightarrow>
       (\<exists>t\<in>set (algo_tokens s). k = nat (cjwt_alg_str_to_enum api t))) \<and>
    get_algo_mask api (Some s) AND NOT (rsa_algorithms api) = 0"
proof -
  let ?m = "get_algo_mask api (Some s)"
  from assms have ok: "\<forall>t\<in>set (algo_tokens s). allowed_algo api t"
    and m: "?m = foldl (\<lambda>w t. w OR alg_bit (cjwt_alg_str_to_enum api t)) 0 (algo_tokens s)"
    by (auto simp: get_algo_mask_eq list_all_iff split: if_splits)
  have lt: "nat (cjwt_alg_str_to_enum api t) < 32" if "t \<in> set (algo_tokens s)" for t
    using ok that by (auto simp: allowed_algo_def Let_def rsa_algorithms_bit)
  have bits: "bit ?m k \<longleftrightarrow> (\<exists>t\<in>set (algo_tokens s). k = nat (cjwt_alg_str_to_enum api t))" for k
    unfolding m foldl_or_bit using lt by auto
  have "?m AND NOT (rsa_algorithms api) = 0"
    using ok by (intro bit_word_eqI) (auto simp: bit_and_iff bit_not_iff bits allowed_algo_def Let_def)
  with ok bits show ?thesis by blast
qed

lemma algo_mask_bit:
  assumes "get_algo_mask api (Some s) \<noteq> - 1" "alg_bit a AND get_algo_mask api (Some s) \<noteq> 0" "0 \<le> a"
  shows "a \<in> cjwt_alg_str_to_enum api ` set (algo_tokens s) \<and>
    nat a \<in> nat ` {alg_rs256 api, alg_rs384 api, alg_rs512 api} \<and> a \<noteq> alg_none api"
proof -
  note acc = get_algo_mask_accepted [OF assms(1)]
  from assms(2) have "bit (get_algo_mask api (Some s)) (nat a)" by (simp add: alg_bit_and_eq_0)
  with acc obtain t where t: "t \<in> set (algo_tokens s)" "nat a = nat (cjwt_alg_str_to_enum api t)"
    "allowed_algo api t" by blast
  then have "a = cjwt_alg_str_to_enum api t" using assms(3) by (auto simp: allowed_algo_def Let_def)
  with t show ?thesis by (auto simp: allowed_algo_def Let_def rsa_algorithms_bit)
qed

lemma parse_webpa_url_text:
  assumes "set host \<inter> {CHR ''/'', CHR '':'', CHR ''['', CHR '']''} = {}"
    and "url_path path" and "0 < p" "p \<le> 65535"
  shows "parse_webpa_url ((if http then ''http://'' else ''https://'') @ host @ '':'' @ nat_text p @ path)
         = Some (if http then 1 else 0, host, of_nat p)"
proof -
  let ?url = "(if http then ''http://'' else ''https://'') @ host @ '':'' @ nat_text p @ path"
  have "server_is_http ?url = Some (if http then 1 else 0, host @ CHR '':'' # nat_text p @ path)"
    unfolding server_is_http_Some by simp
  note bufs = parse_webpa_url_bufs_host [OF assms(1,2) this, of "length ?url + 1" 8]
  show ?thesis
    unfolding parse_webpa_url_def Let_def using bufs port_text_parses [OF assms(3,4)] by simp
qed

text \<open>Without a port the default one of the scheme is taken; the path has then no colon.\<close>

lemma default_port_text: "default_port h = (if h \<noteq> 0 then nat_text 80 else nat_text 443)"
proof -
  have "nat_text 80 = ''80''" "nat_text 443 = ''443''" by code_simp+
  then show ?thesis by (simp add: default_port_def)
qed

lemma parse_webpa_url_no_port:
  assumes host: "set host \<inter> {CHR ''/'', CHR '':'', CHR ''['', CHR '']''} = {}"
    and path: "url_path path" "CHR '':'' \<notin> set path"
  shows "parse_webpa_url ((if http then ''http://'' else ''https://'') @ host @ path)
         = Some (if http then 1 else 0, host, if http then 80 else 443)"
proof -
  let ?url = "(if http then ''http://'' else ''https://'') @ host @ path" and ?h = "if http then 1 else 0 :: int"
  have h: "server_is_http ?url = Some (?h, host @ path)" unfolding server_is_http_Some by simp
  obtain path' where s: "strip_last_slash (host @ path) = host @ path'" "url_path path'" "CHR '':'' \<notin> set path'"
  proof (cases "path = []")
    case True
    have "CHR ''/'' \<notin> set host" using host by blast
    then have "strip_last_slash host = host" by (cases host rule: rev_cases) (auto simp: strip_last_slash_def)
    with True that [of "[]"] path show thesis by simp
  next
    case False
    have "url_path (strip_last_slash path)" "CHR '':'' \<notin> set (strip_last_slash path)"
      using path by (cases path rule: rev_cases; cases "butlast path"; auto simp: url_path_def strip_last_slash_def)+
    with that strip_last_slash_append [OF False] show thesis by metis
  qed
  have none: "strchr (host @ path') (CHR ''['') = None" "strchr (host @ path') (CHR '']'') = None"
    "strchr (host @ path') (CHR '':'') = None"
    using host s(2,3) by (auto simp: strchr_None_iff url_path_def)
  have "cut_at (CHR ''/'') (host @ path') = host" using host s(2) by (intro cut_at_until) (auto simp: url_path_def)
  then have "parse_webpa_url_bufs ?url (length ?url + 1) 8 = Some (?h, host, parStrncpy (default_port ?h) 8)"
    unfolding parse_webpa_url_bufs_def h option.case prod.case Let_def
    by (simp add: parStrncpy_id s(1) none)
  with port_text_parses [of 80] port_text_parses [of 443] show ?thesis
    unfolding parse_webpa_url_def Let_def by (simp add: default_port_text)
qed

text \<open>The port of a url of the scheme: its own, or the default one.\<close>

definition port_or_default :: "bool \<Rightarrow> nat option \<Rightarrow> nat" where
  "port_or_default http port = (case port of None \<Rightarrow> if http then 80 else 443 | Some p \<Rightarrow> p)"

definition port_suffix :: "nat option \<Rightarrow> string" where
  "port_suffix port = (case port of None \<Rightarrow> [] | Some p \<Rightarrow> '':'' @ nat_text p)"

definition port_in_range :: "nat option \<Rightarrow> bool" where
  "port_in_range port = (case port of None \<Rightarrow> True | Some p \<Rightarrow> 0 < p \<and> p \<le> 65535)"

lemma parse_webpa_url_any:
  assumes "set host \<inter> {CHR ''/'', CHR '':'', CHR ''['', CHR '']''} = {}" "url_path path" "CHR '':'' \<notin> set path"
    and "port_in_range port"
  shows "parse_webpa_url ((if http then ''http://'' else ''https://'') @ host @ port_suffix port @ path)
         = Some (if http then 1 else 0, host, of_nat (port_or_default http port))"
proof (cases port)
  case None
  with parse_webpa_url_no_port [OF assms(1-3), of http] show ?thesis
    by (simp add: port_suffix_def port_or_default_def)
next
  case (Some p)
  with parse_webpa_url_text [OF assms(1,2), of p http] assms(4) show ?thesis
    by (simp add: port_suffix_def port_or_default_def port_in_range_def)
qed

subsection \<open>Properties\<close>

text \<open>
  \<open>parse_num_arg\<close> returns the number the decimal text denotes, reduced modulo \<open>2 ^ 32\<close>
  (there is no overflow check), and \<open>(unsigned int) -1\<close> for an empty text and for a text with
  a character that is not a digit.
\<close>

lemma parse_num_arg_value:
  "parse_num_arg arg =
     (if arg \<noteq> [] \<and> list_all is_digit_c arg then of_nat (dec_value arg) else - 1) \<and>
   unat (parse_num_arg (nat_text n)) = n mod 2 ^ 32"
  using nat_text_digits [of n] nat_text_value [of n] by (simp add: parse_num_arg_eq unat_of_nat)

text \<open>
  C31. A url made of a scheme, a host name, a port and a path is taken apart into exactly these:
  the insecure flag of the scheme, the host and the port.
\<close>

theorem parse_webpa_url_roundtrip:
  assumes "set host \<inter> {CHR ''/'', CHR '':'', CHR ''['', CHR '']''} = {}"
    and "url_path path" and "0 < p" "p \<le> 65535"
  shows "parse_webpa_url ((if http then ''http://'' else ''https://'') @ host @ '':'' @ nat_text p @ path)
         = Some (if http then 1 else 0, host, of_nat p)"
  by (rule parse_webpa_url_text [OF assms])

theorem parse_webpa_url_roundtrip_witness:
  "url_path ''/api/v2/'' \<and>
   parse_webpa_url (''https://'' @ ''fabric.example.net'' @ '':'' @ nat_text 8080 @ ''/api/v2/'') =
     Some (0, ''fabric.example.net'', 8080)"
proof -
  have "url_path ''/api/v2/''" by (simp add: url_path_def)
  then show ?thesis
    using parse_webpa_url_roundtrip [of "''fabric.example.net''" "''/api/v2/''" 8080 False] by simp
qed

text \<open>
  The same for a bracketed address: an IPv6 address keeps its colons, and the brackets are
  removed.
\<close>

lemma parse_webpa_url_roundtrip_ipv6:
  assumes addr: "CHR '']'' \<notin> set addr" and path: "url_path path" and "0 < p" "p \<le> 65535"
  shows "parse_webpa_url ((if http then ''http://['' else ''https://['') @ addr @ '']:'' @ nat_text p @ path)
         = Some (if http then 1 else 0, addr, of_nat p)"
proof -
  obtain path' where path': "url_path path'"
    and strip: "strip_last_slash (nat_text p @ path) = nat_text p @ path'"
    using url_path_strip [OF path] by metis
  let ?t = "addr @ CHR '']'' # CHR '':'' # nat_text p @ path"
  let ?t' = "addr @ CHR '']'' # CHR '':'' # nat_text p @ path'"
  let ?url = "(if http then ''http://['' else ''https://['') @ addr @ '']:'' @ nat_text p @ path"
  have h: "server_is_http ?url = Some (if http then 1 else 0, CHR ''['' # ?t)"
    unfolding server_is_http_Some by simp
  have copy: "parStrncpy (CHR ''['' # ?t) (length ?url + 1) = CHR ''['' # ?t"
    by (intro parStrncpy_id) simp
  have strip': "strip_last_slash (CHR ''['' # ?t) = CHR ''['' # ?t'"
    using strip_last_slash_append [of "nat_text p @ path" "CHR ''['' # addr @ '']:''"]
      nat_text_digits [of p] strip by simp
  have op: "strchr (CHR ''['' # ?t') (CHR ''['') \<noteq> None" by (simp add: strchr_None_iff)
  have cl: "strchr ?t' (CHR '']'') = Some (CHR '']'' # CHR '':'' # nat_text p @ path')"
    using addr by (rule strchr_until)
  have cut: "cut_at (CHR '']'') ?t' = addr" using addr by (intro cut_at_until) auto
  have col: "strchr (CHR '':'' # nat_text p @ path') (CHR '':'') = Some (CHR '':'' # nat_text p @ path')"
    by (simp add: strchr_def)
  have port: "cut_at (CHR ''/'') (nat_text p @ path') = nat_text p"
    using path' nat_text_no_punct [of _ p] by (intro cut_at_until) (auto simp: url_path_def)
  have "parse_webpa_url_bufs ?url (length ?url + 1) 8 =
      Some (if http then 1 else 0, addr, parStrncpy (nat_text p) 8)"
    unfolding parse_webpa_url_bufs_def h option.case prod.case Let_def copy strip'
    using op by (simp add: cl cut col port del: append_Cons append.simps)
  then show ?thesis
    unfolding parse_webpa_url_def Let_def using port_text_parses [OF assms(3,4)] by simp
qed

lemma parse_webpa_url_roundtrip_ipv6_witness:
  "parse_webpa_url (''http://['' @ ''fe80::1'' @ '']:'' @ nat_text 80 @ []) = Some (1, ''fe80::1'', 80)"
proof -
  have "url_path []" by (simp add: url_path_def)
  then show ?thesis
    using parse_webpa_url_roundtrip_ipv6 [of "''fe80::1''" "[]" 80 True] by simp
qed

text \<open>
  Whatever the url, an accepted one has a port between 1 and 65535, an address that fits the
  buffer allocated for it, and a flag that says whether the scheme is \<^verbatim>\<open>http\<close>.
\<close>

lemma parse_webpa_url_range:
  assumes "parse_webpa_url url = Some (insecure, addr, port)"
  shows "1 \<le> unat port \<and> unat port \<le> 65535 \<and> length addr < length url \<and>
    (insecure = 1 \<and> take 7 url = ''http://'' \<or> insecure = 0 \<and> take 8 url = ''https://'')"
  using assms by (rule parse_webpa_url_bounds)

lemma parse_webpa_url_range_witness:
  "(1::nat) \<le> unat (443 :: u32) \<and> parse_webpa_url ''https://a'' = Some (0, ''a'', 443)"
proof -
  have "parse_webpa_url ''https://a'' = Some (0, ''a'', 443)" by code_simp
  with parse_webpa_url_range [OF this] show ?thesis by simp
qed

text \<open>
  C32. A mask that \<open>get_algo_mask\<close> accepts holds exactly the algorithms the tokens name, each of
  which the library knows, is not \<open>none\<close> and is an RSA algorithm; no other bit is set.
\<close>

theorem get_algo_mask_rsa_only:
  assumes "get_algo_mask api (Some s) \<noteq> - 1"
  shows "(\<forall>t\<in>set (algo_tokens s). allowed_algo api t) \<and>
    (\<forall>k. bit (get_algo_mask api (Some s)) k \<longleftrightarrow>
       (\<exists>t\<in>set (algo_tokens s). k = nat (cjwt_alg_str_to_enum api t))) \<and>
    get_algo_mask api (Some s) AND NOT (rsa_algorithms api) = 0"
  using assms by (rule get_algo_mask_accepted)

text \<open>The algorithm numbers of an instance of the library, for concrete inputs.\<close>

definition sample_cjwt :: cjwt_api where
  "sample_cjwt = \<lparr> cjwt_alg_str_to_enum = (\<lambda>s. if s = ''none'' then 0 else if s = ''RS256'' then 10
        else if s = ''RS512'' then 12 else - 1),
     num_algorithms = 13, alg_none = 0, alg_rs256 = 10, alg_rs384 = 11, alg_rs512 = 12 \<rparr>"

theorem get_algo_mask_rsa_only_witness:
  "get_algo_mask sample_cjwt (Some ''RS256:RS512'') = 5120 \<and> bit (5120 :: u32) 12"
proof -
  have m: "get_algo_mask sample_cjwt (Some ''RS256:RS512'') = 5120" by code_simp
  have "algo_tokens ''RS256:RS512'' = [''RS256'', ''RS512'']" by code_simp
  then show ?thesis
    using get_algo_mask_rsa_only [of sample_cjwt "''RS256:RS512''"] m
    by (simp add: sample_cjwt_def)
qed

text \<open>
  C30. When \<^verbatim>\<open>main\<close> gets past the command line, every text of the configuration fits its array, the
  server url has a scheme, and a JWT is acquired only with an algorithm and, for RSA, a key. The
  default \<open>offline\<close> of \<open>cloud_status\<close> has been overwritten with a null pointer.
\<close>

theorem main_config_ok:
  assumes "main_config git_tag env opts = Inr cfg"
  shows "cfg_wf cfg \<and> server_is_http (webpa_url cfg) \<noteq> None \<and>
    (acquire_jwt cfg \<noteq> 0 \<longrightarrow> jwt_algo cfg \<noteq> 0 \<and>
       (jwt_algo cfg AND rsa_algorithms (cl_cjwt env) \<noteq> 0 \<longrightarrow> jwt_key cfg \<noteq> [])) \<and>
    cloud_status cfg = None"
proof -
  note p = main_config_parts [OF assms]
  have "url_ok (reset_cfg (setDefaultValuesToCfg git_tag zero_cfg))"
    "cloud_status (reset_cfg (setDefaultValuesToCfg git_tag zero_cfg)) = None"
    by (simp_all add: url_ok_def reset_cfg_def)
  with parse_options_url [OF p(1)] parse_options_wf [OF p(1) default_wf] p(2) show ?thesis
    by (auto simp: check_cfg_def url_ok_def split: if_splits)
qed

definition sample_env :: cl_env where
  "sample_env = \<lparr> cl_cjwt = sample_cjwt, key_file = (\<lambda>f. if f = ''k'' then Some ''PEM'' else None),
     enable_seshat = False \<rparr>"

theorem main_config_ok_witness:
  "\<exists>cfg. main_config ''v1'' sample_env
      [(CHR ''u'', Some ''https://a''), (CHR ''j'', Some ''1''), (CHR ''a'', Some ''RS256''),
       (CHR ''k'', Some ''k'')] = Inr cfg \<and>
    cfg_wf cfg \<and> jwt_key cfg \<noteq> []"
proof -
  let ?opts = "[(CHR ''u'', Some ''https://a''), (CHR ''j'', Some ''1''), (CHR ''a'', Some ''RS256''),
       (CHR ''k'', Some ''k'')]"
  have "is_fault (main_config ''v1'' sample_env ?opts) = False"
    "case main_config ''v1'' sample_env ?opts of Inr c \<Rightarrow> jwt_key c = ''PEM'' | Inl _ \<Rightarrow> False"
    by code_simp+
  then obtain cfg where "main_config ''v1'' sample_env ?opts = Inr cfg" "jwt_key cfg = ''PEM''"
    by (auto split: sum.splits)
  with main_config_ok [OF this(1)] show ?thesis by simp
qed

text \<open>
  \<open>loadParodusCfg\<close> keeps the configuration well formed, whatever it is given to load.
\<close>

lemma loadParodusCfg_wf:
  "cfg_wf cfg \<Longrightarrow> cfg_wf (loadParodusCfg git_tag seshat config cfg)"
  by (cases config) (simp_all add: loadParodusCfg_def cfg_wf_def load_text_less protocol_text_def)

lemma loadParodusCfg_wf_witness:
  "cfg_wf zero_cfg \<and>
   cfg_wf (loadParodusCfg ''v1'' True (Some (zero_cfg\<lparr>fw_name := replicate 200 CHR ''x''\<rparr>)) zero_cfg)"
proof -
  have "cfg_wf zero_cfg" by (simp add: cfg_wf_def zero_cfg_def)
  with loadParodusCfg_wf show ?thesis by blast
qed

text \<open>
  The copy loop of the bracket branch of \<open>parse_webpa_url__\<close> reads one byte past the buffer.
\<close>

theorem bracket_shift_oob:
  "buf \<noteq> [] \<Longrightarrow> length (bracket_shift_reads buf (length buf)) = length buf \<and>
     last (bracket_shift_reads buf (length buf)) = None"
  by (cases buf rule: rev_cases) (auto simp: bracket_shift_reads_def)

end
