(* ===== verification/Timers.thy ===== *)
theory Timers
  imports Parodus_Prelude
begin

text \<open>
  Time: \<^verbatim>\<open>time.c\<close>, \<open>timespec_diff\<close> of \<^verbatim>\<open>ParodusInternal.c\<close>, the flags of \<^verbatim>\<open>heartBeat.c\<close>,
  \<^verbatim>\<open>close_retry.c\<close> and \<^verbatim>\<open>ParodusInternal.c\<close>, the ping watchdog of the main loop in
  \<^verbatim>\<open>conn_interface.c\<close>, and the expire and backoff timers of \<^verbatim>\<open>connection.c\<close>.

  Seconds, nanoseconds and \<^verbatim>\<open>long\<close> milliseconds are integers (clock values are far below the
  64-bit range); \<^verbatim>\<open>unsigned int\<close> values are 32-bit words; the \<^verbatim>\<open>int\<close> fields of the backoff timer
  are integers whose signed overflow is a fault. The clock, \<^verbatim>\<open>random\<close> and the result of
  \<^verbatim>\<open>pthread_cond_timedwait\<close> are arguments. Each flag operation is one critical section, so one
  function.
\<close>

unbundle bit_operations_syntax

subsection \<open>Points in time\<close>

record timespec =
  tv_sec :: int
  tv_nsec :: int

definition getCurrentTimeInMicroSeconds :: "timespec \<Rightarrow> 64 word" where
  "getCurrentTimeInMicroSeconds timer =
     of_int (tv_sec timer) * 1000000 + of_int (cdiv (tv_nsec timer) 1000)"

definition timeValDiff :: "timespec \<Rightarrow> timespec \<Rightarrow> int" where
  "timeValDiff starttime finishtime =
     (let msec = (tv_sec finishtime - tv_sec starttime) * 1000
      in msec + cdiv (tv_nsec finishtime - tv_nsec starttime) 1000000)"

definition timespec_diff :: "timespec \<Rightarrow> timespec \<Rightarrow> timespec" where
  "timespec_diff start stop =
     (if tv_nsec stop - tv_nsec start < 0
      then \<lparr> tv_sec = tv_sec stop - tv_sec start - 1,
             tv_nsec = tv_nsec stop - tv_nsec start + 1000000000 \<rparr>
      else \<lparr> tv_sec = tv_sec stop - tv_sec start, tv_nsec = tv_nsec stop - tv_nsec start \<rparr>)"

definition add_timespec :: "timespec \<Rightarrow> timespec \<Rightarrow> timespec" where
  "add_timespec t1 t2 =
     (let s = tv_sec t2 + tv_sec t1; n = tv_nsec t2 + tv_nsec t1
      in if 1000000000 \<le> n then \<lparr> tv_sec = s + 1, tv_nsec = n - 1000000000 \<rparr>
         else \<lparr> tv_sec = s, tv_nsec = n \<rparr>)"

text \<open>A normalised time, and the number of nanoseconds it denotes.\<close>

definition ts_wf :: "timespec \<Rightarrow> bool" where
  "ts_wf t \<longleftrightarrow> 0 \<le> tv_nsec t \<and> tv_nsec t < 1000000000"

definition ns_of :: "timespec \<Rightarrow> int" where
  "ns_of t = tv_sec t * 1000000000 + tv_nsec t"

subsection \<open>Flags\<close>

record flags =
  heartBeatTimer :: u32
  paused :: bool
  close_retry :: bool
  interface_down_event :: bool

definition get_heartBeatTimer :: "flags \<Rightarrow> u32" where
  "get_heartBeatTimer fl = heartBeatTimer fl"

definition reset_heartBeatTimer :: "flags \<Rightarrow> flags" where
  "reset_heartBeatTimer fl = fl\<lparr>heartBeatTimer := 0\<rparr>"

definition increment_heartBeatTimer :: "u32 \<Rightarrow> flags \<Rightarrow> flags" where
  "increment_heartBeatTimer inc_time_ms fl =
     (if \<not> paused fl then fl\<lparr>heartBeatTimer := heartBeatTimer fl + inc_time_ms\<rparr> else fl)"

definition pause_heartBeatTimer :: "flags \<Rightarrow> flags" where
  "pause_heartBeatTimer fl = fl\<lparr>heartBeatTimer := 0, paused := True\<rparr>"

definition resume_heartBeatTimer :: "flags \<Rightarrow> flags" where
  "resume_heartBeatTimer fl = fl\<lparr>paused := False\<rparr>"

definition get_close_retry :: "flags \<Rightarrow> bool" where
  "get_close_retry fl = close_retry fl"

definition reset_close_retry :: "flags \<Rightarrow> flags" where
  "reset_close_retry fl = fl\<lparr>close_retry := False\<rparr>"

definition set_close_retry :: "flags \<Rightarrow> flags" where
  "set_close_retry fl = fl\<lparr>close_retry := True\<rparr>"

definition get_interface_down_event :: "flags \<Rightarrow> bool" where
  "get_interface_down_event fl = interface_down_event fl"

definition reset_interface_down_event :: "flags \<Rightarrow> flags" where
  "reset_interface_down_event fl = fl\<lparr>interface_down_event := False\<rparr>"

definition set_interface_down_event :: "flags \<Rightarrow> flags" where
  "set_interface_down_event fl = fl\<lparr>interface_down_event := True\<rparr>"

subsection \<open>The ping watchdog\<close>

text \<open>
  The part of a turn of the main loop that watches for missed pings. \<open>start\<close> and \<open>stop\<close> are the
  clock before and after the wait. The result also says whether the reconnect reason was set to
  \<open>Ping_Miss\<close> (and the status callback called with \<open>missed\<close>).
\<close>

definition time_taken_ms :: "timespec \<Rightarrow> timespec \<Rightarrow> int" where
  "time_taken_ms start stop =
     (let diff = timespec_diff start stop
      in tv_sec diff * 1000 + cdiv (tv_nsec diff) 1000000)"

definition ping_watchdog :: "u32 \<Rightarrow> timespec \<Rightarrow> timespec \<Rightarrow> flags \<Rightarrow> flags \<times> bool" where
  "ping_watchdog webpa_ping_timeout_ms start stop fl =
     (if webpa_ping_timeout_ms \<le> get_heartBeatTimer fl then
        let miss = \<not> get_close_retry fl;
            fl = (if miss then set_close_retry fl else fl)
        in (reset_heartBeatTimer fl, miss)
      else (increment_heartBeatTimer (of_int (time_taken_ms start stop)) fl, False))"

text \<open>Turns of the main loop with no ping in between.\<close>

fun watchdog_turns :: "u32 \<Rightarrow> (timespec \<times> timespec) list \<Rightarrow> flags \<Rightarrow> flags" where
  "watchdog_turns tmo [] fl = fl"
| "watchdog_turns tmo ((start, stop) # turns) fl =
     watchdog_turns tmo turns (fst (ping_watchdog tmo start stop fl))"

subsection \<open>Expire timer\<close>

record expire_timer_t =
  running :: bool
  et_start_time :: timespec
  et_end_time :: timespec

definition init_expire_timer :: "expire_timer_t \<Rightarrow> expire_timer_t" where
  "init_expire_timer timer = timer\<lparr>running := False\<rparr>"

definition check_timer_expired :: "timespec \<Rightarrow> int \<Rightarrow> expire_timer_t \<Rightarrow> bool \<times> expire_timer_t" where
  "check_timer_expired now timeout_ms timer =
     (if \<not> running timer then (False, timer\<lparr>et_start_time := now, running := True\<rparr>)
      else let timer = timer\<lparr>et_end_time := now\<rparr>;
               time_diff_ms = timeValDiff (et_start_time timer) (et_end_time timer)
           in (timeout_ms \<le> time_diff_ms, timer))"

subsection \<open>Backoff timer\<close>

record backoff_timer_t =
  bt_start_time :: nat
  bt_ts :: timespec
  bt_count :: int
  bt_max_count :: int
  bt_delay :: int

definition init_backoff_timer :: "int \<Rightarrow> timespec \<Rightarrow> nat \<Rightarrow> backoff_timer_t" where
  "init_backoff_timer max_count now secs =
     \<lparr> bt_start_time = secs, bt_ts = now, bt_count = 1, bt_max_count = max_count, bt_delay = 1 \<rparr>"

definition int_range :: "int \<Rightarrow> fault + int" where
  "int_range i = (if - (2 ^ 31) \<le> i \<and> i < 2 ^ 31 then Inr i else Inl SignedOverflow)"

definition update_backoff_delay :: "backoff_timer_t \<Rightarrow> fault + u32 \<times> backoff_timer_t" where
  "update_backoff_delay timer =
     (if bt_count timer < bt_max_count timer then
        then_run (int_range (bt_count timer + 1)) (\<lambda>c.
        then_run (int_range (bt_delay timer + bt_delay timer)) (\<lambda>d.
        then_run (int_range (d + 1)) (\<lambda>d'.
        Inr (of_int d', timer\<lparr>bt_count := c, bt_delay := d'\<rparr>))))
      else Inr (of_int (bt_delay timer), timer))"

definition calc_random_secs :: "int \<Rightarrow> u32 \<Rightarrow> u32" where
  "calc_random_secs random_num max_secs =
     (let delay_secs = of_int random_num AND max_secs
      in if delay_secs < 3 then delay_secs + 3 else delay_secs)"

definition calc_random_nsecs :: "int \<Rightarrow> u32" where
  "calc_random_nsecs random_num =
     (let n = drop_bit 1 (of_int random_num :: u32)
      in if n < 1000000000 then n else n - 1000000000)"

definition calc_random_expiration ::
  "int \<Rightarrow> int \<Rightarrow> backoff_timer_t \<Rightarrow> timespec \<Rightarrow> fault + backoff_timer_t \<times> timespec" where
  "calc_random_expiration random_num1 random_num2 timer ts =
     then_run (update_backoff_delay timer) (\<lambda>(max_secs, timer').
       let ts_delay = (if 3 < max_secs
                       then \<lparr> tv_sec = uint (calc_random_secs random_num1 max_secs),
                              tv_nsec = uint (calc_random_nsecs random_num2) \<rparr>
                       else \<lparr> tv_sec = 3, tv_nsec = 0 \<rparr>)
       in Inr (timer', add_timespec ts_delay ts))"

datatype backoff_result = BACKOFF_ERR | BACKOFF_SHUTDOWN | BACKOFF_DELAY_TAKEN

definition UPDATE_HEALTH_FILE_INTERVAL_SECS :: int where
  "UPDATE_HEALTH_FILE_INTERVAL_SECS = 240"

text \<open>
  What \<open>backoff_delay\<close> finds in its environment: the clock, two random numbers, the result of the
  timed wait and the value of \<open>g_shutdown\<close> after it.
\<close>

record backoff_env =
  be_now :: timespec
  be_random1 :: int
  be_random2 :: int
  be_wait_rtn :: int
  be_shutdown :: bool

definition ETIMEDOUT :: int where "ETIMEDOUT = 110"

text \<open>The result, the timer, whether the health file was rewritten, and the end of the wait.\<close>

definition backoff_delay ::
  "backoff_env \<Rightarrow> backoff_timer_t \<Rightarrow> fault + backoff_result \<times> backoff_timer_t \<times> bool \<times> timespec" where
  "backoff_delay env timer =
     (let ts = be_now env;
          due = UPDATE_HEALTH_FILE_INTERVAL_SECS \<le> tv_sec ts - tv_sec (bt_ts timer);
          timer = (if due
                   then timer\<lparr>bt_ts := (bt_ts timer)\<lparr>tv_sec :=
                          tv_sec (bt_ts timer) + UPDATE_HEALTH_FILE_INTERVAL_SECS\<rparr>\<rparr>
                   else timer)
      in then_run (calc_random_expiration (be_random1 env) (be_random2 env) timer ts)
           (\<lambda>(timer', until).
             Inr (if be_shutdown env then BACKOFF_SHUTDOWN
                  else if be_wait_rtn env \<noteq> 0 \<and> be_wait_rtn env \<noteq> ETIMEDOUT then BACKOFF_ERR
                  else BACKOFF_DELAY_TAKEN, timer', due, until)))"

text \<open>Successive backoffs with one timer.\<close>

fun backoffs :: "(int \<times> int) list \<Rightarrow> timespec \<Rightarrow> backoff_timer_t \<Rightarrow> fault + backoff_timer_t" where
  "backoffs [] ts timer = Inr timer"
| "backoffs ((r1, r2) # rs) ts timer =
     then_run (calc_random_expiration r1 r2 timer ts) (\<lambda>(timer', _). backoffs rs ts timer')"

subsection \<open>Exactness\<close>

lemma cdiv_nonneg: "0 \<le> a \<Longrightarrow> 0 < b \<Longrightarrow> 0 \<le> cdiv a b"
  by (simp add: cdiv_def pos_imp_zdiv_nonneg_iff)

lemma timespec_diff_exact:
  assumes "ts_wf start" "ts_wf stop"
  shows "ts_wf (timespec_diff start stop) \<and>
    ns_of (timespec_diff start stop) = ns_of stop - ns_of start"
  using assms by (auto simp: ts_wf_def timespec_diff_def ns_of_def)

lemma add_timespec_exact:
  assumes "ts_wf t1" "ts_wf t2"
  shows "ts_wf (add_timespec t1 t2) \<and> ns_of (add_timespec t1 t2) = ns_of t1 + ns_of t2"
  using assms by (auto simp: ts_wf_def add_timespec_def ns_of_def Let_def)

lemma timeValDiff_error:
  "\<bar>1000000 * timeValDiff a b - (ns_of b - ns_of a)\<bar> < 1000000"
proof -
  have "1000000 * timeValDiff a b - (ns_of b - ns_of a) =
      1000000 * cdiv (tv_nsec b - tv_nsec a) 1000000 - (tv_nsec b - tv_nsec a)"
    by (simp add: timeValDiff_def ns_of_def Let_def algebra_simps)
  then show ?thesis
    using cdiv_bounds [of 1000000 "tv_nsec b - tv_nsec a"] by simp
qed

subsection \<open>The watchdog\<close>

lemmas flag_defs = get_heartBeatTimer_def reset_heartBeatTimer_def increment_heartBeatTimer_def
  get_close_retry_def set_close_retry_def

definition turns_ms :: "(timespec \<times> timespec) list \<Rightarrow> int" where
  "turns_ms turns = sum_list (map (\<lambda>(start, stop). time_taken_ms start stop) turns)"

lemma turns_ms_simps [simp]:
  "turns_ms [] = 0" "turns_ms ((a, b) # turns) = time_taken_ms a b + turns_ms turns"
  by (simp_all add: turns_ms_def)

definition forward :: "(timespec \<times> timespec) list \<Rightarrow> bool" where
  "forward turns \<longleftrightarrow> list_all (\<lambda>(start, stop). 0 \<le> time_taken_ms start stop) turns"

lemma turns_ms_nonneg: "forward turns \<Longrightarrow> 0 \<le> turns_ms turns"
  unfolding forward_def by (induction turns) auto

lemma close_retry_stays: "close_retry fl \<Longrightarrow> close_retry (watchdog_turns tmo turns fl)"
  by (induction tmo turns fl rule: watchdog_turns.induct)
     (simp_all add: ping_watchdog_def flag_defs Let_def)

lemma watchdog_detects_gen:
  assumes "\<not> paused fl" "\<not> close_retry fl" "forward turns"
    "uint (heartBeatTimer fl) + turns_ms turns < 2 ^ 32"
  shows "close_retry (watchdog_turns tmo (turns @ [(a, b)]) fl) \<longleftrightarrow>
    uint tmo \<le> uint (heartBeatTimer fl) + turns_ms turns"
  using assms
proof (induction turns arbitrary: fl)
  case Nil
  then show ?case
    by (simp add: ping_watchdog_def flag_defs Let_def word_le_def)
next
  case (Cons x turns)
  obtain p q where x: "x = (p, q)" by fastforce
  let ?t = "time_taken_ms p q" and ?h = "heartBeatTimer fl"
  have t: "0 \<le> ?t" "forward turns" "0 \<le> turns_ms turns"
    using Cons.prems(3) x turns_ms_nonneg [of turns] by (simp_all add: forward_def)
  show ?case
  proof (cases "tmo \<le> ?h")
    case True
    then have "uint tmo \<le> uint ?h" by (simp add: word_le_def)
    moreover have "close_retry (watchdog_turns tmo ((x # turns) @ [(a, b)]) fl)"
      using True Cons.prems(2) x
      by (simp add: ping_watchdog_def flag_defs Let_def close_retry_stays)
    ultimately show ?thesis using t x by simp
  next
    case False
    let ?fl = "fl\<lparr>heartBeatTimer := ?h + of_int ?t\<rparr>"
    have small: "uint ?h + ?t < 2 ^ 32" using Cons.prems(4) t x by simp
    have ge0: "0 \<le> uint ?h" by simp
    have no_wrap: "uint (?h + of_int ?t) = uint ?h + ?t"
      using small t ge0 by (simp add: uint_word_ariths uint_word_of_int mod_simps)
    have "watchdog_turns tmo ((x # turns) @ [(a, b)]) fl = watchdog_turns tmo (turns @ [(a, b)]) ?fl"
      using False Cons.prems(1) x by (simp add: ping_watchdog_def flag_defs)
    then show ?thesis
      using Cons.IH [of ?fl] Cons.prems t x no_wrap by (simp add: add.assoc)
  qed
qed

text \<open>
  C24. From a reset timer, with the clock moving forward and no ping in between, the watchdog has
  asked for a reconnect at the end of a turn exactly when the turns before it took at least the
  ping timeout.
\<close>

theorem watchdog_detects_missed_pings:
  assumes "\<not> paused fl" "\<not> close_retry fl" "heartBeatTimer fl = 0" "forward turns"
    "turns_ms turns < 2 ^ 32"
  shows "close_retry (watchdog_turns tmo (turns @ [(a, b)]) fl) \<longleftrightarrow> uint tmo \<le> turns_ms turns"
  using watchdog_detects_gen [OF assms(1,2,4), of tmo a b] assms(3,5) by simp

theorem watchdog_detects_missed_pings_witness:
  "close_retry (watchdog_turns 5000
     [(\<lparr> tv_sec = 0, tv_nsec = 0 \<rparr>, \<lparr> tv_sec = 5, tv_nsec = 0 \<rparr>),
      (\<lparr> tv_sec = 5, tv_nsec = 0 \<rparr>, \<lparr> tv_sec = 6, tv_nsec = 0 \<rparr>)]
     \<lparr> heartBeatTimer = 0, paused = False, close_retry = False, interface_down_event = False \<rparr>)"
proof -
  let ?turns = "[(\<lparr> tv_sec = 0, tv_nsec = 0 \<rparr>, \<lparr> tv_sec = 5, tv_nsec = 0 \<rparr>)]"
  have "turns_ms ?turns = 5000" "forward ?turns"
    by (simp_all add: forward_def time_taken_ms_def timespec_diff_def cdiv_def)
  then show ?thesis
    using watchdog_detects_missed_pings [of "\<lparr> heartBeatTimer = 0, paused = False,
      close_retry = False, interface_down_event = False \<rparr>" ?turns 5000] by simp
qed

lemma watchdog_paused:
  "0 < tmo \<Longrightarrow> watchdog_turns tmo turns (pause_heartBeatTimer fl) = pause_heartBeatTimer fl"
  by (induction turns)
     (auto simp: ping_watchdog_def flag_defs pause_heartBeatTimer_def Let_def not_le split_beta)

text \<open>
  The elapsed time is taken from the real-time clock and added to an unsigned counter: when the
  clock is set back by a second, the next turn takes the reset timer for a missed ping.
\<close>

lemma watchdog_clock_step_back:
  "\<exists>start stop fl. ts_wf start \<and> ts_wf stop \<and> heartBeatTimer fl = 0 \<and> \<not> paused fl \<and>
     ns_of stop < ns_of start \<and>
     close_retry (watchdog_turns 180000 [(start, stop), (start, stop)] fl)"
proof -
  let ?a = "\<lparr> tv_sec = 10, tv_nsec = 0 \<rparr>" and ?b = "\<lparr> tv_sec = 9, tv_nsec = 0 \<rparr>"
  let ?fl = "\<lparr> heartBeatTimer = 0, paused = False, close_retry = False, interface_down_event = False \<rparr>"
  have "ts_wf ?a \<and> ts_wf ?b \<and> heartBeatTimer ?fl = 0 \<and> \<not> paused ?fl \<and> ns_of ?b < ns_of ?a \<and>
     close_retry (watchdog_turns 180000 [(?a, ?b), (?a, ?b)] ?fl)"
    by code_simp
  then show ?thesis by blast
qed

subsection \<open>The backoff timer\<close>

definition bt_ok :: "backoff_timer_t \<Rightarrow> bool" where
  "bt_ok t \<longleftrightarrow> 1 \<le> bt_count t \<and> bt_count t \<le> max 1 (bt_max_count t) \<and> bt_count t \<le> 31 \<and>
     bt_delay t = 2 ^ nat (bt_count t) - 1"

definition next_count :: "backoff_timer_t \<Rightarrow> int" where
  "next_count t = (if bt_count t < bt_max_count t then bt_count t + 1 else bt_count t)"

lemma two_power_range: "1 \<le> c \<Longrightarrow> c \<le> 31 \<Longrightarrow> (2::int) \<le> 2 ^ nat c \<and> (2::int) ^ nat c \<le> 2 ^ 31"
proof -
  assume c: "1 \<le> c" "c \<le> 31"
  have "(2::int) ^ 1 \<le> 2 ^ nat c" using c by (intro power_increasing) auto
  moreover have "(2::int) ^ nat c \<le> 2 ^ 31" using c by (intro power_increasing) auto
  ultimately show ?thesis by simp
qed

lemma nat_succ_power: "0 \<le> c \<Longrightarrow> (2::int) ^ nat (c + 1) = 2 * 2 ^ nat c"
  by (simp add: nat_add_distrib)

lemma update_backoff_delay_ok:
  assumes "bt_ok t" "bt_max_count t \<le> 31"
  shows "update_backoff_delay t =
      Inr (of_int (2 ^ nat (next_count t) - 1),
           t\<lparr>bt_count := next_count t, bt_delay := 2 ^ nat (next_count t) - 1\<rparr>) \<and>
    bt_ok (t\<lparr>bt_count := next_count t, bt_delay := 2 ^ nat (next_count t) - 1\<rparr>)"
proof (cases "bt_count t < bt_max_count t")
  case True
  let ?c = "bt_count t"
  have c: "1 \<le> ?c" "?c + 1 \<le> 31" "bt_delay t = 2 ^ nat ?c - 1"
    using assms True by (simp_all add: bt_ok_def)
  have p: "2 \<le> (2::int) ^ nat ?c" "2 * (2::int) ^ nat ?c \<le> 2 ^ 31"
    using two_power_range [of ?c] two_power_range [of "?c + 1"] nat_succ_power [of ?c] c by auto
  show ?thesis
    using True c p
    by (simp add: update_backoff_delay_def int_range_def next_count_def nat_succ_power bt_ok_def)
next
  case False
  then show ?thesis
    using assms by (cases t) (simp add: update_backoff_delay_def next_count_def bt_ok_def)
qed

lemma bt_ok_init: "bt_ok (init_backoff_timer m now s)"
  by (simp add: bt_ok_def init_backoff_timer_def)

lemma backoffs_count:
  assumes "bt_ok t" "bt_max_count t \<le> 31"
  shows "\<exists>t'. backoffs rs ts t = Inr t' \<and> bt_ok t' \<and> bt_max_count t' = bt_max_count t \<and>
    bt_count t' = max (bt_count t) (min (bt_max_count t) (bt_count t + int (length rs)))"
  using assms
proof (induction rs arbitrary: t)
  case Nil
  then show ?case by (auto simp: bt_ok_def)
next
  case (Cons r rs)
  obtain r1 r2 where r: "r = (r1, r2)" by fastforce
  let ?t = "t\<lparr>bt_count := next_count t, bt_delay := 2 ^ nat (next_count t) - 1\<rparr>"
  note u = update_backoff_delay_ok [OF Cons.prems]
  then have "backoffs (r # rs) ts t = backoffs rs ts ?t"
    using r by (simp add: calc_random_expiration_def Let_def)
  moreover obtain t' where "backoffs rs ts ?t = Inr t'" "bt_ok t'" "bt_max_count t' = bt_max_count t"
    "bt_count t' = max (next_count t) (min (bt_max_count t) (next_count t + int (length rs)))"
    using Cons.IH [of ?t] u Cons.prems by auto
  ultimately show ?case by (auto simp: next_count_def)
qed

text \<open>
  C27. With a maximum count of at most 31, after \<open>n\<close> backoffs the delay is \<open>2 ^ c - 1\<close> seconds for
  the count \<open>c\<close>, which grows by one per backoff up to the maximum; there is no signed overflow.
\<close>

theorem backoffs_delay:
  assumes "m \<le> 31"
  shows "\<exists>t. backoffs rs ts (init_backoff_timer m now s) = Inr t \<and>
    bt_count t = max 1 (min m (1 + int (length rs))) \<and>
    bt_delay t = 2 ^ nat (bt_count t) - 1 \<and> bt_delay t \<le> 2 ^ nat (max 1 m) - 1"
proof -
  let ?i = "init_backoff_timer m now s"
  have i: "bt_max_count ?i = m" "bt_count ?i = 1" by (simp_all add: init_backoff_timer_def)
  obtain t where t: "backoffs rs ts ?i = Inr t" "bt_ok t" "bt_max_count t = m"
    "bt_count t = max 1 (min m (1 + int (length rs)))"
    using backoffs_count [OF bt_ok_init, of m now s rs ts] assms i by auto
  moreover have "(2::int) ^ nat (bt_count t) \<le> 2 ^ nat (max 1 m)"
    using t(4) by (intro power_increasing) auto
  moreover have "bt_delay t = 2 ^ nat (bt_count t) - 1" using t(2) by (simp add: bt_ok_def)
  ultimately show ?thesis by (metis diff_right_mono)
qed

theorem backoffs_delay_witness:
  "\<exists>t. backoffs [(0, 0), (0, 0)] \<lparr> tv_sec = 0, tv_nsec = 0 \<rparr>
          (init_backoff_timer 9 \<lparr> tv_sec = 0, tv_nsec = 0 \<rparr> 0) = Inr t \<and> bt_delay t = 7"
  using backoffs_delay [of 9 "[(0, 0), (0, 0)]" "\<lparr> tv_sec = 0, tv_nsec = 0 \<rparr>" "\<lparr> tv_sec = 0, tv_nsec = 0 \<rparr>" 0]
  by auto

lemma update_backoff_overflow:
  assumes "bt_count t = 31" "bt_delay t = 2 ^ 31 - 1" "32 \<le> bt_max_count t"
  shows "update_backoff_delay t = Inl SignedOverflow"
  using assms by (simp add: update_backoff_delay_def int_range_def)

lemma calc_random_secs_bounds:
  assumes "7 \<le> m"
  shows "3 \<le> uint (calc_random_secs r m) \<and> uint (calc_random_secs r m) \<le> uint m"
proof -
  let ?d = "of_int r AND m"
  have m: "7 \<le> uint m" using assms by (simp add: word_le_def)
  have le: "uint ?d \<le> uint m" using word_and_le1 [of "of_int r" m] by (simp add: word_le_def)
  have "uint (?d + 3) = uint ?d + 3" if "?d < 3"
    using that by (simp add: uint_word_ariths word_less_def mod_simps)
  with m le show ?thesis
    by (auto simp: calc_random_secs_def Let_def word_less_def)
qed

lemma calc_random_nsecs_bounds:
  assumes "0 \<le> r" "r < 2 ^ 31"
  shows "uint (calc_random_nsecs r) < 1000000000"
proof -
  let ?n = "drop_bit 1 (of_int r :: u32)"
  have "uint (of_int r :: u32) = r" using assms by (simp add: uint_word_of_int)
  then have n: "uint ?n = r div 2" by (simp add: drop_bit_eq_div uint_div)
  have "uint (?n - 1000000000) = uint ?n - 1000000000" if "\<not> ?n < 1000000000"
    using that by (simp add: uint_sub_if_size word_less_def word_size)
  with n assms show ?thesis
    by (auto simp: calc_random_nsecs_def Let_def word_less_def)
qed

text \<open>
  The end of a backoff wait is a normalised time between three seconds and the current maximum
  delay plus one second from now, whatever the random numbers.
\<close>

lemma backoff_wait_bounds:
  assumes "bt_ok t" "bt_max_count t \<le> 31" "ts_wf ts" "0 \<le> r2" "r2 < 2 ^ 31"
  shows "\<exists>t' ts'. calc_random_expiration r1 r2 t ts = Inr (t', ts') \<and> ts_wf ts' \<and>
    ns_of ts + 3 * 1000000000 \<le> ns_of ts' \<and>
    ns_of ts' < ns_of ts + (max 3 (bt_delay t') + 1) * 1000000000"
proof -
  let ?c = "next_count t"
  let ?t = "t\<lparr>bt_count := ?c, bt_delay := 2 ^ nat ?c - 1\<rparr>"
  let ?m = "of_int (2 ^ nat ?c - 1) :: u32"
  note u = update_backoff_delay_ok [OF assms(1,2)]
  have c: "1 \<le> ?c" "?c \<le> 31" using u by (auto simp: bt_ok_def)
  have m: "uint ?m = 2 ^ nat ?c - 1"
    using two_power_range [OF c] by (simp add: uint_word_of_int del: of_int_diff)
  define d where "d = (if 3 < ?m
     then \<lparr> tv_sec = uint (calc_random_secs r1 ?m), tv_nsec = uint (calc_random_nsecs r2) \<rparr>
     else \<lparr> tv_sec = 3, tv_nsec = 0 \<rparr>)"
  have exp: "calc_random_expiration r1 r2 t ts = Inr (?t, add_timespec d ts)"
    using u by (simp add: calc_random_expiration_def d_def Let_def)
  have d: "ts_wf d \<and> 3 \<le> tv_sec d \<and> tv_sec d \<le> max 3 (bt_delay ?t)"
  proof (cases "3 < ?m")
    case True
    then have "4 < (2::int) ^ nat ?c" using m by (simp add: word_less_def)
    then have "(2::int) ^ 2 < 2 ^ nat ?c" by simp
    then have "2 < nat ?c" by (rule power_less_imp_less_exp [rotated]) simp
    then have "(2::int) ^ 3 \<le> 2 ^ nat ?c" by (intro power_increasing) auto
    then have "7 \<le> ?m" using m by (simp add: word_le_def)
    from calc_random_secs_bounds [OF this, of r1] calc_random_nsecs_bounds [OF assms(4,5)] m True
    show ?thesis by (simp add: d_def ts_wf_def)
  qed (simp add: d_def ts_wf_def)
  have "ns_of d = tv_sec d * 1000000000 + tv_nsec d" by (simp add: ns_of_def)
  then show ?thesis
    using exp d add_timespec_exact [of d ts] assms(3) by (auto simp: ts_wf_def)
qed

lemma backoff_wait_bounds_witness:
  "bt_ok (init_backoff_timer 9 \<lparr> tv_sec = 0, tv_nsec = 0 \<rparr> 0) \<and>
   (\<exists>t' ts'. calc_random_expiration 5 6 (init_backoff_timer 9 \<lparr> tv_sec = 0, tv_nsec = 0 \<rparr> 0)
        \<lparr> tv_sec = 100, tv_nsec = 999999999 \<rparr> = Inr (t', ts') \<and> ts_wf ts')"
  using backoff_wait_bounds [of "init_backoff_timer 9 \<lparr> tv_sec = 0, tv_nsec = 0 \<rparr> 0"
      "\<lparr> tv_sec = 100, tv_nsec = 999999999 \<rparr>" 6 5]
    bt_ok_init [of 9 "\<lparr> tv_sec = 0, tv_nsec = 0 \<rparr>" 0]
  by (fastforce simp: ts_wf_def init_backoff_timer_def)

end
