(* ===== verification/Msg_Queue.thy ===== *)
theory Msg_Queue
  imports Parodus_Prelude
begin

text \<open>
  The message queues between the threads: \<open>ParodusMsgQ\<close> (downstream), \<open>UpStreamMsgQ\<close> (upstream)
  and \<open>crudMsgQ\<close>. Each is a singly linked list with a head pointer, a mutex and a condition
  variable; producers append behind the last cell and signal only when the queue was empty,
  the consumer takes the first cell, waits while the queue is empty, and ends when it finds
  the queue empty after \<open>g_shutdown\<close> was set.

  The list is modelled in an explicit heap: \<open>q_cells\<close> maps addresses to cells, \<open>q_add\<close> walks to
  the last cell as the code does, and \<open>q_pop\<close> takes the first. The locale \<open>fifo\<close> is the contract
  the threads rely on; the heap queue is its interpretation. \<open>pc_step\<close> interleaves producers,
  the consumer, the setting of \<open>g_shutdown\<close> and the signal the main loop sends before it joins
  the threads; one critical section is one step.
\<close>

subsection \<open>Linked queues\<close>

record 'm cell =
  c_msg :: 'm
  c_next :: "nat option"

record 'm msgq =
  q_head :: "nat option"
  q_cells :: "nat \<Rightarrow> 'm cell option"

text \<open>
  \<^verbatim>\<open>while(temp->next) temp = temp->next\<close>. The result is \<open>None\<close> when the walk does not end or
  leaves the heap.
\<close>

partial_function (option) last_cell :: "(nat \<Rightarrow> 'm cell option) \<Rightarrow> nat \<Rightarrow> nat option" where
  "last_cell h temp =
     (case h temp of
        None \<Rightarrow> None
      | Some c \<Rightarrow> (case c_next c of None \<Rightarrow> Some temp | Some nxt \<Rightarrow> last_cell h nxt))"

declare last_cell.simps [simp del]

text \<open>
  A producer's critical section with the new cell at address \<open>a\<close>; the second result says whether
  the condition variable is signalled.
\<close>

definition q_add :: "nat \<Rightarrow> 'm \<Rightarrow> 'm msgq \<Rightarrow> ('m msgq \<times> bool) option" where
  "q_add a m q =
     (let h = (q_cells q)(a \<mapsto> \<lparr> c_msg = m, c_next = None \<rparr>) in
      case q_head q of
        None \<Rightarrow> Some (\<lparr> q_head = Some a, q_cells = h \<rparr>, True)
      | Some temp \<Rightarrow>
          (case last_cell h temp of
             None \<Rightarrow> None
           | Some l \<Rightarrow>
               Some (\<lparr> q_head = Some temp,
                       q_cells = h(l := map_option (\<lambda>c. c\<lparr>c_next := Some a\<rparr>) (h l)) \<rparr>, False)))"

text \<open>The consumer's critical section: the address and message of the first cell.\<close>

definition q_pop :: "'m msgq \<Rightarrow> (nat \<times> 'm \<times> 'm msgq) option" where
  "q_pop q =
     (case q_head q of
        None \<Rightarrow> None
      | Some a \<Rightarrow> (case q_cells q a of
                     None \<Rightarrow> None
                   | Some c \<Rightarrow> Some (a, c_msg c, q\<lparr>q_head := c_next c\<rparr>)))"

text \<open>\<^verbatim>\<open>free(message)\<close> after the message was handled.\<close>

definition q_free :: "nat \<Rightarrow> 'm msgq \<Rightarrow> 'm msgq" where
  "q_free a q = q\<lparr>q_cells := (q_cells q)(a := None)\<rparr>"

definition empty_q :: "'m msgq" where
  "empty_q = \<lparr> q_head = None, q_cells = \<lambda>_. None \<rparr>"

subsection \<open>Producers\<close>

text \<open>\<open>None\<close> as a message is the null pointer, for which nothing is queued.\<close>

definition addCRUDmsgToQueue :: "nat \<Rightarrow> 'm option \<Rightarrow> 'm msgq \<Rightarrow> ('m msgq \<times> bool) option" where
  "addCRUDmsgToQueue a crudMsg q =
     (case crudMsg of None \<Rightarrow> Some (q, False) | Some m \<Rightarrow> q_add a m q)"

text \<open>
  An upstream message: its bytes and its length, a \<^verbatim>\<open>size_t\<close> that is assigned from an \<^verbatim>\<open>int\<close>.
\<close>

record 'b UpStreamMsg =
  us_msg :: "'b option"
  us_len :: "64 word"

definition addCRUDresponseToUpstreamQ ::
  "nat \<Rightarrow> 'b option \<Rightarrow> int \<Rightarrow> 'b UpStreamMsg msgq \<Rightarrow> ('b UpStreamMsg msgq \<times> bool) option" where
  "addCRUDresponseToUpstreamQ a response_bytes response_size q =
     q_add a \<lparr> us_msg = response_bytes, us_len = scast (word_of_int response_size :: u32) \<rparr> q"

text \<open>
  The receive loop of \<open>handle_upstream\<close> over the results of \<^verbatim>\<open>nn_recv\<close>: the number of bytes, the
  buffer, the value of \<open>g_shutdown\<close> after the call, and the address of the next allocation.
\<close>

record 'b nn_recv_result =
  rcv_bytes :: int
  rcv_buf :: 'b
  rcv_shutdown :: bool
  rcv_cell :: nat

fun handle_upstream_loop ::
  "'b nn_recv_result list \<Rightarrow> 'b UpStreamMsg msgq \<Rightarrow> 'b UpStreamMsg msgq option" where
  "handle_upstream_loop [] q = Some q"
| "handle_upstream_loop (r # rs) q =
     (if rcv_shutdown r then Some q
      else if rcv_bytes r < 0 then handle_upstream_loop rs q
      else (case q_add (rcv_cell r) \<lparr> us_msg = Some (rcv_buf r), us_len = word_of_int (rcv_bytes r) \<rparr> q of
              None \<Rightarrow> None
            | Some (q', _) \<Rightarrow> handle_upstream_loop rs q'))"

text \<open>
  Downstream messages of the nopoll library; \<open>np_join None m\<close> is the join with the null pointer.
\<close>

record ('n, 'p) nopoll_msg_api =
  np_is_fragment :: "'n \<Rightarrow> bool"
  np_is_final :: "'n \<Rightarrow> bool"
  np_join :: "'n option \<Rightarrow> 'n \<Rightarrow> 'n option"
  np_payload :: "'n \<Rightarrow> 'p"
  np_size :: "'n \<Rightarrow> nat"

record ('n, 'p) ParodusMsg =
  pm_msg :: 'n
  pm_payload :: 'p
  pm_len :: nat

text \<open>The state is the static \<open>previous_msg\<close> and the queue.\<close>

definition listenerOnMessage_queue ::
  "('n, 'p) nopoll_msg_api \<Rightarrow> nat \<Rightarrow> 'n \<Rightarrow> 'n option \<times> ('n, 'p) ParodusMsg msgq \<Rightarrow>
     ('n option \<times> ('n, 'p) ParodusMsg msgq) option" where
  "listenerOnMessage_queue api a msg s =
     (case s of (previous_msg, q) \<Rightarrow>
        let previous_msg = (if np_is_fragment api msg then np_join api previous_msg msg
                            else previous_msg)
        in if np_is_fragment api msg \<and> \<not> np_is_final api msg then Some (previous_msg, q)
           else let m = (case previous_msg of Some p \<Rightarrow> p | None \<Rightarrow> msg) in
             (case q_add a \<lparr> pm_msg = m, pm_payload = np_payload api m, pm_len = np_size api m \<rparr> q of
                None \<Rightarrow> None
              | Some (q', _) \<Rightarrow> Some (None, q')))"

text \<open>Successive callbacks, each with the address of its allocation.\<close>

fun listener_calls ::
  "('n, 'p) nopoll_msg_api \<Rightarrow> (nat \<times> 'n) list \<Rightarrow> 'n option \<times> ('n, 'p) ParodusMsg msgq \<Rightarrow>
     ('n option \<times> ('n, 'p) ParodusMsg msgq) option" where
  "listener_calls api [] s = Some s"
| "listener_calls api ((a, msg) # ms) s =
     (case listenerOnMessage_queue api a msg s of
        None \<Rightarrow> None | Some s' \<Rightarrow> listener_calls api ms s')"

subsection \<open>Threads\<close>

datatype 'm consumer =
    Ready                   \<comment> \<open>about to lock the mutex\<close>
  | Waiting                 \<comment> \<open>in \<^verbatim>\<open>pthread_cond_wait\<close>\<close>
  | Processing nat 'm       \<comment> \<open>handling the message of the cell at the address\<close>
  | Ended

record 'm pc_state =
  pc_q :: "'m msgq"
  pc_consumer :: "'m consumer"
  pc_shutdown :: bool
  pc_signalled :: bool      \<comment> \<open>the main loop sent its final signal when \<open>g_shutdown\<close> was set\<close>
  pc_produced :: "'m list"
  pc_consumed :: "'m list"

text \<open>
  One turn of the loops of \<open>messageHandlerTask\<close>, \<open>processUpstreamMessage\<close> and \<open>CRUDHandlerTask\<close>;
  the handling of a message lies between \<open>Processing\<close> and the next \<open>Ready\<close>.
\<close>

definition consumer_turn :: "'m pc_state \<Rightarrow> 'm pc_state option" where
  "consumer_turn s =
     (case pc_consumer s of
        Ready \<Rightarrow>
          (case q_pop (pc_q s) of
             Some (a, m, q') \<Rightarrow> Some (s\<lparr>pc_q := q', pc_consumer := Processing a m\<rparr>)
           | None \<Rightarrow> Some (s\<lparr>pc_consumer := (if pc_shutdown s then Ended else Waiting)\<rparr>))
      | Processing a m \<Rightarrow>
          Some (s\<lparr>pc_q := q_free a (pc_q s), pc_consumer := Ready, pc_consumed := pc_consumed s @ [m]\<rparr>)
      | Waiting \<Rightarrow> None
      | Ended \<Rightarrow> None)"

definition wake :: "'m consumer \<Rightarrow> 'm consumer" where
  "wake c = (case c of Waiting \<Rightarrow> Ready | _ \<Rightarrow> c)"

inductive pc_step :: "'m pc_state \<Rightarrow> 'm pc_state \<Rightarrow> bool" where
  produce: "q_cells (pc_q s) a = None \<Longrightarrow> q_add a m (pc_q s) = Some (q', sig) \<Longrightarrow>
    pc_step s (s\<lparr>pc_q := q', pc_consumer := (if sig then wake (pc_consumer s) else pc_consumer s),
                 pc_produced := pc_produced s @ [m]\<rparr>)"
| consume: "consumer_turn s = Some s' \<Longrightarrow> pc_step s s'"
| spurious: "pc_step s (s\<lparr>pc_consumer := wake (pc_consumer s)\<rparr>)"
| shutdown: "pc_step s (s\<lparr>pc_shutdown := True\<rparr>)"
| final_signal: "pc_step s (s\<lparr>pc_consumer := wake (pc_consumer s),
                               pc_signalled := pc_signalled s \<or> pc_shutdown s\<rparr>)"

definition pc_init :: "'m pc_state" where
  "pc_init = \<lparr> pc_q = empty_q, pc_consumer = Ready, pc_shutdown = False, pc_signalled = False,
     pc_produced = [], pc_consumed = [] \<rparr>"

text \<open>The consumer alone, for at most \<open>n\<close> turns.\<close>

fun consumer_turns :: "nat \<Rightarrow> 'm pc_state \<Rightarrow> 'm pc_state" where
  "consumer_turns 0 s = s"
| "consumer_turns (Suc n) s =
     (case consumer_turn s of None \<Rightarrow> s | Some s' \<Rightarrow> consumer_turns n s')"

inductive_cases pc_stepE: "pc_step s s'"

subsection \<open>The list in the heap\<close>

fun path :: "(nat \<Rightarrow> 'm cell option) \<Rightarrow> nat option \<Rightarrow> nat list \<Rightarrow> bool" where
  "path h p [] \<longleftrightarrow> p = None"
| "path h p (a # as) \<longleftrightarrow> p = Some a \<and> (\<exists>c. h a = Some c \<and> path h (c_next c) as)"

definition cell_msgs :: "(nat \<Rightarrow> 'm cell option) \<Rightarrow> nat list \<Rightarrow> 'm list" where
  "cell_msgs h as = map (\<lambda>a. c_msg (the (h a))) as"

definition q_rel :: "'m msgq \<Rightarrow> nat list \<Rightarrow> 'm list \<Rightarrow> bool" where
  "q_rel q as ms \<longleftrightarrow> distinct as \<and> path (q_cells q) (q_head q) as \<and> ms = cell_msgs (q_cells q) as"

definition q_unused :: "nat \<Rightarrow> 'm msgq \<Rightarrow> bool" where
  "q_unused a q \<longleftrightarrow> q_cells q a = None"

lemma path_frame: "a \<notin> set as \<Longrightarrow> path (h(a := x)) p as = path h p as"
  by (induction as arbitrary: p) auto

lemma cell_msgs_frame: "a \<notin> set as \<Longrightarrow> cell_msgs (h(a := x)) as = cell_msgs h as"
  by (auto simp: cell_msgs_def)

lemma path_dom: "path h p as \<Longrightarrow> a \<in> set as \<Longrightarrow> h a \<noteq> None"
proof (induction as arbitrary: p)
  case (Cons b as)
  then obtain c where "h b = Some c" "path h (c_next c) as" by auto
  with Cons.IH Cons.prems(2) show ?case by (cases "a = b") simp_all
qed simp

lemma path_head: "path h p as \<Longrightarrow> p = None \<longleftrightarrow> as = []"
  by (cases as) auto

lemma last_cell_path: "path h (Some t) as \<Longrightarrow> last_cell h t = Some (last as)"
proof (induction as arbitrary: t)
  case (Cons a as)
  have a: "a = t" using Cons.prems by simp
  then obtain c where c: "h t = Some c" "path h (c_next c) as" using Cons.prems by auto
  show ?case
  proof (cases "c_next c")
    case None
    with a c show ?thesis by (cases as) (simp_all add: last_cell.simps [of h t])
  next
    case (Some n)
    moreover from this c have "as \<noteq> []" by (cases as) auto
    ultimately show ?thesis using a c Cons.IH [of n] by (simp add: last_cell.simps [of h t])
  qed
qed simp

lemma path_link:
  assumes "path h p as" "as \<noteq> []" "distinct as" "a \<notin> set as" "h a = Some c" "c_next c = None"
  shows "path (h(last as := map_option (\<lambda>c. c\<lparr>c_next := Some a\<rparr>) (h (last as)))) p (as @ [a])"
  using assms
proof (induction as arbitrary: p)
  case (Cons b as)
  then obtain d where d: "p = Some b" "h b = Some d" "path h (c_next d) as" by auto
  show ?case
  proof (cases "as = []")
    case True
    with Cons.prems d show ?thesis by auto
  next
    case False
    then have "b \<noteq> last as" using Cons.prems(3) last_in_set by auto
    with Cons.IH [of "c_next d"] Cons.prems d False show ?thesis by simp
  qed
qed simp

lemma cell_msgs_link:
  "cell_msgs (h(l := map_option (\<lambda>c. c\<lparr>c_next := n\<rparr>) (h l))) as = cell_msgs h as"
  if "\<forall>a\<in>set as. h a \<noteq> None"
  using that by (auto simp: cell_msgs_def)

lemma q_add_rel:
  assumes rel: "q_rel q as ms" and unused: "q_unused a q"
  shows "\<exists>q'. q_add a m q = Some (q', ms = []) \<and> q_rel q' (as @ [a]) (ms @ [m])"
proof -
  let ?c = "\<lparr> c_msg = m, c_next = None \<rparr>"
  let ?h = "(q_cells q)(a \<mapsto> ?c)"
  have a: "a \<notin> set as" using rel unused path_dom by (fastforce simp: q_rel_def q_unused_def)
  have p: "path ?h (q_head q) as" "cell_msgs ?h as = ms" "distinct as"
    using rel a by (auto simp: q_rel_def path_frame cell_msgs_frame)
  show ?thesis
  proof (cases "as = []")
    case True
    then have "q_head q = None" "ms = []" using p by (auto simp: cell_msgs_def)
    with True show ?thesis by (auto simp: q_add_def q_rel_def cell_msgs_def)
  next
    case False
    then obtain t where t: "q_head q = Some t" using p(1) path_head by blast
    let ?l = "last as"
    let ?h' = "?h(?l := map_option (\<lambda>c. c\<lparr>c_next := Some a\<rparr>) (?h ?l))"
    have "last_cell ?h t = Some ?l" using p(1) t last_cell_path by metis
    moreover have "path ?h' (Some t) (as @ [a])"
      using path_link [OF p(1) False p(3) a, of ?c] t by simp
    moreover have "cell_msgs ?h' (as @ [a]) = ms @ [m]"
      using p path_dom [OF p(1)] by (subst cell_msgs_link) (auto simp: cell_msgs_def)
    moreover have "ms \<noteq> []" using p(2) False by (auto simp: cell_msgs_def)
    ultimately show ?thesis using t p(3) a by (simp add: q_add_def q_rel_def Let_def)
  qed
qed

lemma q_pop_rel:
  assumes "q_rel q as (m # ms)"
  shows "\<exists>q'. q_pop q = Some (hd as, m, q') \<and> q_rel q' (tl as) ms \<and> q_cells q' = q_cells q"
  using assms by (cases as) (auto simp: q_rel_def q_pop_def cell_msgs_def)

lemma q_pop_empty: "q_rel q as [] \<Longrightarrow> q_pop q = None"
  by (auto simp: q_rel_def cell_msgs_def q_pop_def)

lemma q_add_unused:
  "q_add a m q = Some (q', s) \<Longrightarrow> q_unused b q \<Longrightarrow> b \<noteq> a \<Longrightarrow> q_unused b q'"
  by (auto simp: q_add_def q_unused_def Let_def split: option.splits)

lemma q_free_rel:
  "q_rel q as ms \<Longrightarrow> a \<notin> set as \<Longrightarrow> q_rel (q_free a q) as ms"
  by (simp add: q_rel_def q_free_def path_frame cell_msgs_frame)

lemma q_rel_empty: "q_rel empty_q [] []"
  by (simp add: q_rel_def empty_q_def cell_msgs_def)

lemma q_rel_length: "q_rel q as ms \<Longrightarrow> length as = length ms"
  by (simp add: q_rel_def cell_msgs_def)

subsection \<open>The contract of a queue\<close>

text \<open>Clients of a queue: a sequence of insertions and a sequence of removals.\<close>

fun add_all :: "(nat \<Rightarrow> 'm \<Rightarrow> 'q \<Rightarrow> ('q \<times> bool) option) \<Rightarrow> (nat \<times> 'm) list \<Rightarrow> 'q \<Rightarrow> 'q option" where
  "add_all add [] q = Some q"
| "add_all add ((a, m) # ams) q =
     (case add a m q of None \<Rightarrow> None | Some (q', _) \<Rightarrow> add_all add ams q')"

fun pop_all :: "('q \<Rightarrow> (nat \<times> 'm \<times> 'q) option) \<Rightarrow> nat \<Rightarrow> 'q \<Rightarrow> 'm list" where
  "pop_all pop 0 q = []"
| "pop_all pop (Suc n) q =
     (case pop q of None \<Rightarrow> [] | Some (_, m, q') \<Rightarrow> m # pop_all pop n q')"

locale fifo =
  fixes rel :: "'q \<Rightarrow> nat list \<Rightarrow> 'm list \<Rightarrow> bool"
    and unused :: "nat \<Rightarrow> 'q \<Rightarrow> bool"
    and add :: "nat \<Rightarrow> 'm \<Rightarrow> 'q \<Rightarrow> ('q \<times> bool) option"
    and pop :: "'q \<Rightarrow> (nat \<times> 'm \<times> 'q) option"
  assumes add_rel: "rel q as ms \<Longrightarrow> unused a q \<Longrightarrow>
      \<exists>q'. add a m q = Some (q', ms = []) \<and> rel q' (as @ [a]) (ms @ [m])"
    and add_unused: "add a m q = Some (q', s) \<Longrightarrow> unused b q \<Longrightarrow> b \<noteq> a \<Longrightarrow> unused b q'"
    and pop_empty: "rel q as [] \<Longrightarrow> pop q = None"
    and pop_rel: "rel q as (m # ms) \<Longrightarrow> \<exists>q'. pop q = Some (hd as, m, q') \<and> rel q' (tl as) ms"
begin

lemma add_all_rel:
  "rel q as ms \<Longrightarrow> distinct (map fst ams) \<Longrightarrow> \<forall>a\<in>fst ` set ams. unused a q \<Longrightarrow>
     \<exists>q'. add_all add ams q = Some q' \<and> rel q' (as @ map fst ams) (ms @ map snd ams)"
proof (induction ams arbitrary: q as ms)
  case (Cons am ams)
  obtain a m where am: "am = (a, m)" by fastforce
  obtain q1 where q1: "add a m q = Some (q1, ms = [])" "rel q1 (as @ [a]) (ms @ [m])"
    using add_rel [OF Cons.prems(1), of a m] Cons.prems(3) am by auto
  have "\<forall>b\<in>fst ` set ams. unused b q1"
    using add_unused [OF q1(1)] Cons.prems am by fastforce
  with Cons.IH [OF q1(2)] Cons.prems(2) q1 am show ?case by auto
qed simp

lemma pop_all_rel: "rel q as ms \<Longrightarrow> pop_all pop n q = take n ms"
proof (induction n arbitrary: q as ms)
  case (Suc n)
  show ?case
  proof (cases ms)
    case Nil
    with Suc.prems pop_empty show ?thesis by auto
  next
    case (Cons m ms')
    with Suc.prems obtain q' where "pop q = Some (hd as, m, q')" "rel q' (tl as) ms'"
      using pop_rel by blast
    with Suc.IH Cons show ?thesis by simp
  qed
qed simp

lemma pop_all_add_all:
  assumes "rel q as ms" "distinct (map fst ams)" "\<forall>a\<in>fst ` set ams. unused a q"
  shows "\<exists>q'. add_all add ams q = Some q' \<and> pop_all pop n q' = take n (ms @ map snd ams)"
  using add_all_rel [OF assms] pop_all_rel by blast

end

interpretation hq: fifo q_rel q_unused q_add q_pop
  by unfold_locales (fact q_add_rel, fact q_add_unused, fact q_pop_empty, blast dest: q_pop_rel)

lemma queue_fifo:
  assumes "distinct (map fst ams)"
  shows "\<exists>q. add_all q_add ams empty_q = Some q \<and> pop_all q_pop n q = take n (map snd ams)"
  using hq.pop_all_add_all [OF q_rel_empty assms, of n]
  by (simp add: q_unused_def empty_q_def)

subsection \<open>Producers and the consumer\<close>

definition in_flight :: "'m consumer \<Rightarrow> 'm list" where
  "in_flight c = (case c of Processing a m \<Rightarrow> [m] | _ \<Rightarrow> [])"

definition owns :: "'m consumer \<Rightarrow> nat set" where
  "owns c = (case c of Processing a m \<Rightarrow> {a} | _ \<Rightarrow> {})"

lemma consumer_simps [simp]:
  "in_flight Ready = []" "in_flight Waiting = []" "in_flight Ended = []" "in_flight (Processing a m) = [m]"
  "owns Ready = {}" "owns Waiting = {}" "owns Ended = {}" "owns (Processing a m) = {a}"
  "wake Waiting = Ready" "wake Ready = Ready" "wake Ended = Ended" "wake (Processing a m) = Processing a m"
  by (simp_all add: in_flight_def owns_def wake_def)

lemma wake_simps [simp]:
  "in_flight (wake c) = in_flight c" "owns (wake c) = owns c" "wake c \<noteq> Waiting"
  by (cases c; simp)+

definition pc_rel :: "'m pc_state \<Rightarrow> nat list \<Rightarrow> 'm list \<Rightarrow> bool" where
  "pc_rel s as ms \<longleftrightarrow>
     q_rel (pc_q s) as ms \<and>
     owns (pc_consumer s) \<inter> set as = {} \<and> (\<forall>a\<in>owns (pc_consumer s). \<not> q_unused a (pc_q s)) \<and>
     pc_produced s = pc_consumed s @ in_flight (pc_consumer s) @ ms \<and>
     (pc_consumer s = Waiting \<longrightarrow> ms = []) \<and>
     (pc_signalled s \<longrightarrow> pc_shutdown s \<and> pc_consumer s \<noteq> Waiting)"

lemma q_add_used: "q_add a m q = Some (q', sg) \<Longrightarrow> \<not> q_unused b q \<Longrightarrow> \<not> q_unused b q'"
  by (auto simp: q_add_def q_unused_def Let_def split: option.splits if_splits)

lemma pc_rel_produce:
  assumes "pc_rel s as ms" "q_unused a (pc_q s)" "q_add a m (pc_q s) = Some (q', sg)"
  shows "pc_rel (s\<lparr>pc_q := q', pc_consumer := (if sg then wake (pc_consumer s) else pc_consumer s),
                 pc_produced := pc_produced s @ [m]\<rparr>) (as @ [a]) (ms @ [m])"
proof -
  have sg: "sg = (ms = [])" and rel: "q_rel q' (as @ [a]) (ms @ [m])"
    using q_add_rel [of "pc_q s" as ms a m] assms by (auto simp: pc_rel_def)
  have "a \<notin> owns (pc_consumer s)" using assms(1,2) by (auto simp: pc_rel_def)
  then show ?thesis
    using assms(1) sg rel q_add_used [OF assms(3)] by (auto simp: pc_rel_def)
qed

text \<open>The number of turns the consumer needs to empty the queue and end.\<close>

definition turns_left :: "'m pc_state \<Rightarrow> 'm list \<Rightarrow> nat" where
  "turns_left s ms = 2 * length ms + length (in_flight (pc_consumer s)) + 1"

definition turn_ok :: "'m pc_state \<Rightarrow> 'm list \<Rightarrow> 'm pc_state \<Rightarrow> 'm list \<Rightarrow> bool" where
  "turn_ok s ms s' ms' \<longleftrightarrow> pc_produced s' = pc_produced s \<and> pc_signalled s' = pc_signalled s \<and>
     (ms' = [] \<and> pc_consumer s' = (if pc_shutdown s then Ended else Waiting) \<or>
      turns_left s' ms' < turns_left s ms \<and> pc_consumer s' \<noteq> Ended)"

lemma pc_rel_take:
  assumes rel: "pc_rel s as ms" and "pc_consumer s = Ready"
  shows "\<exists>s' as' ms'. consumer_turn s = Some s' \<and> pc_rel s' as' ms' \<and> turn_ok s ms s' ms'"
proof (cases ms)
  case Nil
  let ?s = "s\<lparr>pc_consumer := (if pc_shutdown s then Ended else Waiting)\<rparr>"
  have "q_pop (pc_q s) = None" using rel Nil q_pop_empty by (auto simp: pc_rel_def)
  then have "consumer_turn s = Some ?s" "pc_rel ?s as ms" "turn_ok s ms ?s ms" using assms Nil
    by (auto simp: consumer_turn_def pc_rel_def turn_ok_def)
  then show ?thesis by blast
next
  case (Cons m ms')
  then obtain q' where q': "q_pop (pc_q s) = Some (hd as, m, q')" "q_rel q' (tl as) ms'"
    "q_cells q' = q_cells (pc_q s)"
    using rel q_pop_rel by (fastforce simp: pc_rel_def)
  let ?s = "s\<lparr>pc_q := q', pc_consumer := Processing (hd as) m\<rparr>"
  have "as \<noteq> []" using rel Cons q_rel_length by (fastforce simp: pc_rel_def)
  then have hd: "hd as \<notin> set (tl as)" "\<not> q_unused (hd as) q'"
    using rel q'(3) path_dom [of "q_cells (pc_q s)" _ as "hd as"]
    by (auto simp: pc_rel_def q_rel_def q_unused_def neq_Nil_conv)
  then have "consumer_turn s = Some ?s" "pc_rel ?s (tl as) ms'" "turn_ok s ms ?s ms'"
    using assms Cons q' by (auto simp: consumer_turn_def pc_rel_def turn_ok_def turns_left_def)
  then show ?thesis by blast
qed

lemma pc_rel_finish:
  assumes rel: "pc_rel s as ms" and c: "pc_consumer s = Processing a m"
  shows "\<exists>s'. consumer_turn s = Some s' \<and> pc_rel s' as ms \<and> turn_ok s ms s' ms"
  using assms q_free_rel [of "pc_q s" as ms a]
  by (auto simp: consumer_turn_def pc_rel_def turn_ok_def turns_left_def)

lemma pc_rel_consume:
  "pc_rel s as ms \<Longrightarrow> pc_consumer s \<notin> {Waiting, Ended} \<Longrightarrow>
     \<exists>s' as' ms'. consumer_turn s = Some s' \<and> pc_rel s' as' ms' \<and> turn_ok s ms s' ms'"
  using pc_rel_take [of s as ms] pc_rel_finish [of s as ms] by (cases "pc_consumer s") (fastforce | simp)+

lemma pc_rel_flags:
  assumes "pc_rel s as ms"
  shows "pc_rel (s\<lparr>pc_consumer := wake (pc_consumer s)\<rparr>) as ms" "pc_rel (s\<lparr>pc_shutdown := True\<rparr>) as ms"
    "pc_rel (s\<lparr>pc_consumer := wake (pc_consumer s),
               pc_signalled := pc_signalled s \<or> pc_shutdown s\<rparr>) as ms"
  using assms by (auto simp: pc_rel_def)

lemma pc_rel_step: "pc_step s s' \<Longrightarrow> pc_rel s as ms \<Longrightarrow> \<exists>as' ms'. pc_rel s' as' ms'"
proof (induction arbitrary: as ms rule: pc_step.induct)
  case produce
  then show ?case
    by (intro exI) (rule pc_rel_produce [OF produce.prems _ produce.hyps(2)], simp add: q_unused_def)
next
  case (consume s s')
  then have "pc_consumer s \<notin> {Waiting, Ended}" by (auto simp: consumer_turn_def)
  with pc_rel_consume [OF consume.prems] consume.hyps show ?case by auto
qed (use pc_rel_flags in blast)+

lemma pc_reachable_rel: "pc_step\<^sup>*\<^sup>* pc_init s \<Longrightarrow> \<exists>as ms. pc_rel s as ms"
proof (induction rule: rtranclp_induct)
  case base
  have "pc_rel pc_init [] []" by (simp add: pc_rel_def pc_init_def q_rel_empty)
  then show ?case by blast
qed (use pc_rel_step in blast)

text \<open>A run used for concrete states: one message is queued.\<close>

definition one_queued :: "string pc_state" where
  "one_queued = pc_init\<lparr>pc_q := \<lparr> q_head = Some 7,
     q_cells = (\<lambda>_. None)(7 \<mapsto> \<lparr> c_msg = ''m'', c_next = None \<rparr>) \<rparr>, pc_produced := [''m'']\<rparr>"

lemma one_queued_reachable: "pc_step\<^sup>*\<^sup>* pc_init one_queued"
proof -
  have "pc_step pc_init one_queued"
    using pc_step.produce [of pc_init 7 "''m''" "pc_q one_queued" True]
    by (simp add: one_queued_def pc_init_def empty_q_def q_add_def)
  then show ?thesis by simp
qed

text \<open>
  C8. In every interleaving of producers, consumer, spurious wake-ups and shutdown, the list stays
  intact, every message queued is handled exactly once and in order (handled, in hand or still
  queued), and the consumer never sleeps while a message is queued nor after the final signal.
\<close>

theorem queue_threads_safe:
  assumes "pc_step\<^sup>*\<^sup>* pc_init s"
  shows "\<exists>as ms. q_rel (pc_q s) as ms \<and>
    pc_produced s = pc_consumed s @ in_flight (pc_consumer s) @ ms \<and>
    (pc_consumer s = Waiting \<longrightarrow> q_pop (pc_q s) = None \<and> \<not> pc_signalled s)"
  using pc_reachable_rel [OF assms] q_pop_empty by (fastforce simp: pc_rel_def)

theorem queue_threads_safe_witness:
  "pc_step\<^sup>*\<^sup>* pc_init one_queued \<and> (\<exists>as ms. q_rel (pc_q one_queued) as ms \<and> ms = [''m''])"
  using queue_threads_safe [OF one_queued_reachable] one_queued_reachable
  by (auto simp: one_queued_def pc_init_def)

lemma consumer_turns_ended: "pc_consumer s = Ended \<Longrightarrow> consumer_turns n s = s"
  by (cases n) (simp_all add: consumer_turn_def)

lemma consumer_drains:
  assumes "pc_rel s as ms" "pc_signalled s" "pc_consumer s \<noteq> Ended" "turns_left s ms \<le> n"
  shows "pc_consumer (consumer_turns n s) = Ended \<and> pc_consumed (consumer_turns n s) = pc_produced s"
  using assms
proof (induction n arbitrary: s as ms)
  case 0
  then show ?case by (simp add: turns_left_def)
next
  case (Suc n)
  have nw: "pc_consumer s \<notin> {Waiting, Ended}" "pc_shutdown s"
    using Suc.prems by (auto simp: pc_rel_def)
  obtain s' as' ms' where s': "consumer_turn s = Some s'" "pc_rel s' as' ms'" "turn_ok s ms s' ms'"
    using pc_rel_consume [OF Suc.prems(1) nw(1)] by blast
  show ?case
  proof (cases "pc_consumer s' = Ended")
    case True
    then have "ms' = []" using s'(3) by (auto simp: turn_ok_def)
    with True s' consumer_turns_ended [OF True] show ?thesis
      by (auto simp: pc_rel_def turn_ok_def)
  next
    case False
    then have "turns_left s' ms' \<le> n" "pc_signalled s'" "pc_produced s' = pc_produced s"
      using s'(3) Suc.prems nw(2) by (auto simp: turn_ok_def)
    with Suc.IH [OF s'(2) _ False] s'(1) show ?thesis by simp
  qed
qed

text \<open>
  C14. After the main loop's final signal, sent with \<open>g_shutdown\<close> set, a consumer that has not ended handles everything that was
  queued and ends, within a number of turns that depends on the queue only.
\<close>

theorem consumer_ends_after_draining:
  assumes "pc_step\<^sup>*\<^sup>* pc_init s" "pc_signalled s" "pc_consumer s \<noteq> Ended"
  shows "\<exists>n. pc_consumer (consumer_turns n s) = Ended \<and>
    pc_consumed (consumer_turns n s) = pc_produced s"
  using pc_reachable_rel [OF assms(1)] consumer_drains [OF _ assms(2,3)] by blast

theorem consumer_ends_after_draining_witness:
  "\<exists>n. pc_consumer (consumer_turns n (one_queued\<lparr>pc_shutdown := True, pc_signalled := True\<rparr>)) = Ended \<and>
     pc_consumed (consumer_turns n (one_queued\<lparr>pc_shutdown := True, pc_signalled := True\<rparr>)) = [''m'']"
proof -
  let ?s = "one_queued\<lparr>pc_shutdown := True, pc_signalled := True\<rparr>"
  have "pc_step one_queued (one_queued\<lparr>pc_shutdown := True\<rparr>)" by (rule pc_step.shutdown)
  moreover have "pc_step (one_queued\<lparr>pc_shutdown := True\<rparr>) ?s"
    using pc_step.final_signal [of "one_queued\<lparr>pc_shutdown := True\<rparr>"]
    by (simp add: one_queued_def pc_init_def)
  ultimately have "pc_step\<^sup>*\<^sup>* pc_init ?s"
    using one_queued_reachable by (meson rtranclp.rtrancl_into_rtrancl)
  from consumer_ends_after_draining [OF this] show ?thesis
    by (simp add: one_queued_def pc_init_def)
qed

subsection \<open>What the producers queue\<close>

fun received :: "'b nn_recv_result list \<Rightarrow> (nat \<times> 'b UpStreamMsg) list" where
  "received [] = []"
| "received (r # rs) =
     (if rcv_shutdown r then []
      else if rcv_bytes r < 0 then received rs
      else (rcv_cell r, \<lparr> us_msg = Some (rcv_buf r), us_len = word_of_int (rcv_bytes r) \<rparr>) # received rs)"

lemma handle_upstream_add_all: "handle_upstream_loop rs q = add_all q_add (received rs) q"
  by (induction rs q rule: handle_upstream_loop.induct) (auto split: option.splits)

text \<open>
  The receive loop of \<open>handle_upstream\<close> appends exactly the messages received before shutdown, in
  order; failed receives leave the queue as it is. The consumer takes them out in that order.
\<close>

lemma handle_upstream_queues:
  assumes "q_rel q as ms" "distinct (map fst (received rs))"
    "\<forall>a\<in>fst ` set (received rs). q_unused a q"
  shows "\<exists>q'. handle_upstream_loop rs q = Some q' \<and>
    pop_all q_pop n q' = take n (ms @ map snd (received rs))"
  unfolding handle_upstream_add_all by (rule hq.pop_all_add_all [OF assms])

lemma handle_upstream_queues_witness:
  "\<exists>q'. handle_upstream_loop
      [\<lparr> rcv_bytes = - 1, rcv_buf = ''?'', rcv_shutdown = False, rcv_cell = 0 \<rparr>,
       \<lparr> rcv_bytes = 2, rcv_buf = ''hi'', rcv_shutdown = False, rcv_cell = 1 \<rparr>] empty_q = Some q' \<and>
     pop_all q_pop 5 q' = [\<lparr> us_msg = Some ''hi'', us_len = 2 \<rparr>]"
  using handle_upstream_queues [OF q_rel_empty, of
      "[\<lparr> rcv_bytes = - 1, rcv_buf = ''?'', rcv_shutdown = False, rcv_cell = 0 \<rparr>,
       \<lparr> rcv_bytes = 2, rcv_buf = ''hi'', rcv_shutdown = False, rcv_cell = 1 \<rparr>]" 5]
  by (simp add: q_unused_def empty_q_def)

text \<open>The message a sequence of fragments is joined to.\<close>

definition joined :: "('n, 'p) nopoll_msg_api \<Rightarrow> 'n list \<Rightarrow> 'n option \<Rightarrow> 'n option" where
  "joined api frags p = fold (\<lambda>m p. np_join api p m) frags p"

lemma listener_fragments:
  assumes "list_all (\<lambda>(a, m). np_is_fragment api m \<and> \<not> np_is_final api m) frags"
  shows "listener_calls api (frags @ rest) (p, q) =
     listener_calls api rest (joined api (map snd frags) p, q)"
  using assms
  by (induction frags arbitrary: p) (auto simp: listenerOnMessage_queue_def joined_def)

text \<open>
  C39. A fragmented message is queued once, when its final fragment arrives, as the join of all its
  fragments, and the join buffer is empty afterwards.
\<close>

theorem fragments_queued_once:
  assumes rel: "q_rel q as ms" and unused: "q_unused a q"
    and frags: "list_all (\<lambda>(a, m). np_is_fragment api m \<and> \<not> np_is_final api m) frags"
    and final: "np_is_fragment api msg" "np_is_final api msg"
    and join: "joined api (map snd frags @ [msg]) None = Some whole"
  shows "\<exists>q'. listener_calls api (frags @ [(a, msg)]) (None, q) = Some (None, q') \<and>
    q_rel q' (as @ [a])
      (ms @ [\<lparr> pm_msg = whole, pm_payload = np_payload api whole, pm_len = np_size api whole \<rparr>])"
proof -
  let ?m = "\<lparr> pm_msg = whole, pm_payload = np_payload api whole, pm_len = np_size api whole \<rparr>"
  obtain q' where "q_add a ?m q = Some (q', ms = [])" "q_rel q' (as @ [a]) (ms @ [?m])"
    using q_add_rel [OF rel unused] by blast
  moreover have "np_join api (joined api (map snd frags) None) msg = Some whole"
    using join by (simp add: joined_def)
  ultimately show ?thesis
    unfolding listener_fragments [OF frags] using final
    by (simp add: listenerOnMessage_queue_def)
qed

definition sample_nopoll :: "(string \<times> bool, string) nopoll_msg_api" where
  "sample_nopoll = \<lparr> np_is_fragment = (\<lambda>_. True), np_is_final = snd,
     np_join = (\<lambda>p m. case p of None \<Rightarrow> Some m | Some l \<Rightarrow> Some (fst l @ fst m, snd m)),
     np_payload = fst, np_size = length \<circ> fst \<rparr>"

theorem fragments_queued_once_witness:
  "\<exists>q'. listener_calls sample_nopoll [(0, ''ab'', False), (1, ''cd'', True)] (None, empty_q) = Some (None, q') \<and>
     q_rel q' [1] [\<lparr> pm_msg = (''abcd'', True), pm_payload = ''abcd'', pm_len = 4 \<rparr>]"
proof -
  have api: "np_payload sample_nopoll = fst" "np_size sample_nopoll (''abcd'', True) = 4"
    "joined sample_nopoll [(''ab'', False), (''cd'', True)] None = Some (''abcd'', True)"
    "np_is_fragment sample_nopoll m" "np_is_final sample_nopoll m = snd m" for m
    by (simp_all add: sample_nopoll_def joined_def)
  show ?thesis
    using fragments_queued_once [OF q_rel_empty, of 1 sample_nopoll "[(0, ''ab'', False)]"
        "(''cd'', True)" "(''abcd'', True)"]
    by (simp add: api q_unused_def empty_q_def del: listener_calls.simps)
qed

end
