(* ===== verification/Client_List.thy ===== *)
theory Client_List
  imports Parodus_Prelude
begin

text \<open>
  \<^verbatim>\<open>client_list.c\<close>, the list of registered clients, and \<^verbatim>\<open>service_alive.c\<close>, which sends keep-alive
  messages to them and removes the ones that do not answer.

  The chain of nodes from \<open>g_head\<close> is a list. The nanomsg library is a record of functions over a
  state \<open>'e\<close> of its own; \<open>wrp_struct_to\<close> is given by its return value and, if it assigned one,
  the encoded message. Every operation runs with the list's mutex held.
\<close>

record reg_list_item_t =
  reg_sock :: int
  reg_endpoint :: int
  service_name :: string
  reg_url :: string

record clients =
  reg_list :: "reg_list_item_t list"
  numOfClients :: int

record 'e nn_api =
  nn_socket :: "'e \<Rightarrow> int \<times> 'e"
  nn_setsockopt :: "int \<Rightarrow> 'e \<Rightarrow> int \<times> 'e"
  nn_connect :: "int \<Rightarrow> string \<Rightarrow> 'e \<Rightarrow> int \<times> 'e"
  nn_send :: "int \<Rightarrow> string \<Rightarrow> nat \<Rightarrow> 'e \<Rightarrow> int \<times> 'e"
  nn_shutdown :: "int \<Rightarrow> int \<Rightarrow> 'e \<Rightarrow> int \<times> 'e"
  nn_close :: "int \<Rightarrow> 'e \<Rightarrow> int \<times> 'e"

text \<open>The result of encoding a message: \<open>wrp_struct_to\<close>'s value and the buffer, if assigned.\<close>

type_synonym encoded = "int \<times> string option"

definition get_numOfClients :: "clients \<Rightarrow> int" where
  "get_numOfClients cl = numOfClients cl"

subsection \<open>Registration\<close>

text \<open>
  The acknowledgement to a new client. On a failed encoding the code frees a buffer that nothing
  assigned unless the encoder did.
\<close>

definition sendAuthStatus :: "'e nn_api \<Rightarrow> encoded \<Rightarrow> reg_list_item_t \<Rightarrow> 'e \<Rightarrow> fault + int \<times> 'e" where
  "sendAuthStatus api auth new_node e =
     (case auth of (nbytes, auth_bytes) \<Rightarrow>
        case auth_bytes of
          None \<Rightarrow> Inl UninitRead
        | Some bytes \<Rightarrow>
            if nbytes < 0 then Inr (- 1, e)
            else (case nn_send api (reg_sock new_node) bytes (nat nbytes) e of
                    (byte, e') \<Rightarrow> Inr (if 0 \<le> byte then 0 else - 1, e')))"

definition new_client :: "int \<Rightarrow> int \<Rightarrow> string \<Rightarrow> string \<Rightarrow> reg_list_item_t" where
  "new_client sock rc name url =
     \<lparr> reg_sock = sock, reg_endpoint = rc, service_name = parStrncpy name 32,
       reg_url = parStrncpy url 100 \<rparr>"

text \<open>\<open>addToList\<close> for a registration message with the given service name and url.\<close>

definition addToList ::
  "'e nn_api \<Rightarrow> encoded \<Rightarrow> string \<Rightarrow> string \<Rightarrow> clients \<times> 'e \<Rightarrow> fault + int \<times> clients \<times> 'e" where
  "addToList api auth name url s =
     (case s of (cl, e) \<Rightarrow>
      case nn_socket api e of (sock, e) \<Rightarrow>
        if 0 \<le> sock then
          (case nn_setsockopt api sock e of (_, e) \<Rightarrow>
           case nn_connect api sock url e of (rc, e) \<Rightarrow>
             if rc < 0 then Inr (- 1, cl, snd (nn_close api sock e))
             else let node = new_client sock rc name url;
                      cl = cl\<lparr>reg_list := reg_list cl @ [node]\<rparr>
                  in if service_name node = name \<and> reg_url node = url then
                       then_run (sendAuthStatus api auth node e)
                         (\<lambda>(ret, e). Inr (ret, cl\<lparr>numOfClients := numOfClients cl + 1\<rparr>, e))
                     else Inr (- 1, cl, e))
        else Inr (- 1, cl, e))"

text \<open>The traversal of \<open>deleteFromList\<close>: the node found and the list without it.\<close>

fun unlink_client ::
  "string \<Rightarrow> reg_list_item_t list \<Rightarrow> (reg_list_item_t \<times> reg_list_item_t list) option" where
  "unlink_client name [] = None"
| "unlink_client name (node # nodes) =
     (if service_name node = name then Some (node, nodes)
      else (case unlink_client name nodes of
              None \<Rightarrow> None
            | Some (found, rest) \<Rightarrow> Some (found, node # rest)))"

definition deleteFromList :: "'e nn_api \<Rightarrow> string option \<Rightarrow> clients \<times> 'e \<Rightarrow> int \<times> clients \<times> 'e" where
  "deleteFromList api name s =
     (case s of (cl, e) \<Rightarrow>
      case name of
        None \<Rightarrow> (- 1, cl, e)
      | Some name \<Rightarrow>
          (case unlink_client name (reg_list cl) of
             None \<Rightarrow> (- 1, cl, e)
           | Some (node, rest) \<Rightarrow>
               let e = snd (nn_shutdown api (reg_sock node) (reg_endpoint node) e);
                   e = snd (nn_close api (reg_sock node) e)
               in (0, cl\<lparr>reg_list := rest, numOfClients := numOfClients cl - 1\<rparr>, e)))"

definition deleteAllClients :: "clients \<Rightarrow> clients" where
  "deleteAllClients cl =
     cl\<lparr>reg_list := [], numOfClients := (if 0 < numOfClients cl then 0 else numOfClients cl)\<rparr>"

subsection \<open>Lookup\<close>

fun find_client :: "string \<Rightarrow> reg_list_item_t list \<Rightarrow> reg_list_item_t option" where
  "find_client name [] = None"
| "find_client name (node # nodes) =
     (if name = service_name node then Some node else find_client name nodes)"

definition sendMsgtoRegisteredClients ::
  "'e nn_api \<Rightarrow> string \<Rightarrow> string \<Rightarrow> nat \<Rightarrow> clients \<times> 'e \<Rightarrow> int \<times> 'e" where
  "sendMsgtoRegisteredClients api dest Msg msgSize s =
     (case s of (cl, e) \<Rightarrow>
      case find_client dest (reg_list cl) of
        None \<Rightarrow> (0, e)
      | Some node \<Rightarrow> (1, snd (nn_send api (reg_sock node) Msg msgSize e)))"

definition checkClientStatus :: "string \<Rightarrow> clients \<Rightarrow> int" where
  "checkClientStatus serviceName cl =
     (case find_client serviceName (reg_list cl) of None \<Rightarrow> 0 | Some _ \<Rightarrow> 1)"

subsection \<open>Keep-alive\<close>

lemma unlink_client_length:
  "unlink_client name nodes = Some (node, rest) \<Longrightarrow> length nodes = Suc (length rest)"
  by (induction nodes arbitrary: rest) (auto split: if_splits option.splits)

lemma deleteFromList_length:
  "deleteFromList api name s = (0, cl', e') \<Longrightarrow> length (reg_list (fst s)) = Suc (length (reg_list cl'))"
  by (auto simp: deleteFromList_def Let_def split: prod.splits option.splits dest: unlink_client_length)

text \<open>
  The inner loop of \<open>serviceAliveTask\<close>; \<open>i\<close> is the position of \<open>temp\<close> in the list. After a deletion
  the walk starts again at the head.
\<close>

function keepalive_walk :: "'e nn_api \<Rightarrow> string \<Rightarrow> int \<Rightarrow> nat \<Rightarrow> clients \<times> 'e \<Rightarrow> clients \<times> 'e" where
  "keepalive_walk api svc_bytes nbytes i (cl, e) =
     (if i < length (reg_list cl) then
        let temp = reg_list cl ! i in
        case nn_send api (reg_sock temp) svc_bytes (nat nbytes) e of (byte, e') \<Rightarrow>
          if byte = nbytes then keepalive_walk api svc_bytes nbytes (Suc i) (cl, e')
          else (case deleteFromList api (Some (service_name temp)) (cl, e') of (ret, cl', e'') \<Rightarrow>
                  if ret = 0 then keepalive_walk api svc_bytes nbytes 0 (cl', e'')
                  else keepalive_walk api svc_bytes nbytes (Suc i) (cl, e''))
      else (cl, e))"
  by pat_completeness auto
termination
  by (relation "measures [\<lambda>(api, b, n, i, cl, e). length (reg_list cl),
                          \<lambda>(api, b, n, i, cl, e). length (reg_list cl) - i]")
     (auto dest: deleteFromList_length [OF sym])

declare keepalive_walk.simps [simp del]

definition KEEPALIVE_INTERVAL_SEC :: int where "KEEPALIVE_INTERVAL_SEC = 30"

text \<open>One turn of the outer loop: the state and the number of seconds it then waits.\<close>

definition serviceAlive_turn :: "'e nn_api \<Rightarrow> string \<Rightarrow> int \<Rightarrow> clients \<times> 'e \<Rightarrow> (clients \<times> 'e) \<times> int" where
  "serviceAlive_turn api svc_bytes nbytes s =
     (if 0 < get_numOfClients (fst s)
      then (keepalive_walk api svc_bytes nbytes 0 s, KEEPALIVE_INTERVAL_SEC)
      else (s, 50))"

text \<open>The task, over the results of its waits (the value of \<open>g_shutdown\<close>).\<close>

fun serviceAlive_loop :: "'e nn_api \<Rightarrow> string \<Rightarrow> int \<Rightarrow> bool list \<Rightarrow> clients \<times> 'e \<Rightarrow> clients \<times> 'e" where
  "serviceAlive_loop api b n [] s = fst (serviceAlive_turn api b n s)"
| "serviceAlive_loop api b n (shutdown_flag # ws) s =
     (let s' = fst (serviceAlive_turn api b n s)
      in if shutdown_flag then s' else serviceAlive_loop api b n ws s')"

definition serviceAliveTask :: "'e nn_api \<Rightarrow> encoded \<Rightarrow> bool list \<Rightarrow> clients \<times> 'e \<Rightarrow> fault + clients \<times> 'e" where
  "serviceAliveTask api svc ws s =
     (case svc of (nbytes, svc_bytes) \<Rightarrow>
        if nbytes < 0 then Inr s
        else (case svc_bytes of
                None \<Rightarrow> Inl UninitRead
              | Some b \<Rightarrow> Inr (serviceAlive_loop api b nbytes ws s)))"

subsection \<open>The contract of the registry\<close>

definition entries :: "clients \<Rightarrow> string \<Rightarrow> nat" where
  "entries cl name = length (filter (\<lambda>node. service_name node = name) (reg_list cl))"

text \<open>\<open>numOfClients\<close> counts the nodes, and names and urls fit their arrays.\<close>

definition clients_wf :: "clients \<Rightarrow> bool" where
  "clients_wf cl \<longleftrightarrow> numOfClients cl = int (length (reg_list cl)) \<and>
     list_all (\<lambda>node. length (service_name node) < 32 \<and> length (reg_url node) < 100) (reg_list cl)"

text \<open>
  The same for any registrations: the count never exceeds the number of nodes, and is equal to it where \<open>fit\<close> says
  that all registrations fitted.
\<close>

definition clients_counted :: "bool \<Rightarrow> clients \<Rightarrow> bool" where
  "clients_counted fit cl \<longleftrightarrow> numOfClients cl \<le> int (length (reg_list cl)) \<and>
     (fit \<longrightarrow> numOfClients cl = int (length (reg_list cl))) \<and>
     list_all (\<lambda>node. length (service_name node) < 32 \<and> length (reg_url node) < 100) (reg_list cl)"

lemma counted_wf: "clients_counted True = clients_wf"
  by (auto simp: clients_counted_def clients_wf_def fun_eq_iff)

text \<open>The operations on the list, with registrations that fit.\<close>

inductive client_op :: "clients \<times> 'e \<Rightarrow> clients \<times> 'e \<Rightarrow> bool" where
  register: "addToList api auth name url (cl, e) = Inr (rv, cl', e') \<Longrightarrow> length name < 32 \<Longrightarrow>
    length url < 100 \<Longrightarrow> client_op (cl, e) (cl', e')"
| remove: "deleteFromList api (Some name) (cl, e) = (rv, cl', e') \<Longrightarrow> client_op (cl, e) (cl', e')"
| keepalive: "client_op (cl, e) (fst (serviceAlive_turn api b n (cl, e)))"
| clear: "client_op (cl, e) (deleteAllClients cl, e)"

lemma find_client_None: "find_client name nodes = None \<longleftrightarrow> name \<notin> service_name ` set nodes"
  by (induction nodes) auto

lemma find_client_SomeD:
  "find_client name nodes = Some node \<Longrightarrow> service_name node = name \<and> node \<in> set nodes"
  by (induction nodes) (auto split: if_splits)

lemma entries_pos: "0 < entries cl name \<longleftrightarrow> name \<in> service_name ` set (reg_list cl)"
  by (auto simp: entries_def filter_empty_conv image_iff)

lemma unlink_client_None: "unlink_client name nodes = None \<longleftrightarrow> name \<notin> service_name ` set nodes"
  by (induction nodes) (auto split: option.splits)

lemma unlink_client_Some:
  "unlink_client name nodes = Some (node, rest) \<Longrightarrow>
     \<exists>us vs. nodes = us @ node # vs \<and> rest = us @ vs \<and> service_name node = name \<and>
       name \<notin> service_name ` set us"
proof (induction nodes arbitrary: rest)
  case (Cons n nodes)
  show ?case
  proof (cases "service_name n = name")
    case True
    with Cons.prems show ?thesis by (intro exI [of _ "[]"] exI [of _ rest]) auto
  next
    case False
    with Cons.prems obtain r where r: "unlink_client name nodes = Some (node, r)" "rest = n # r"
      by (auto split: option.splits)
    from Cons.IH [OF r(1)] obtain us vs where "nodes = us @ node # vs" "r = us @ vs"
      "service_name node = name" "name \<notin> service_name ` set us" by blast
    with False r show ?thesis by (intro exI [of _ "n # us"] exI [of _ vs]) auto
  qed
qed simp

lemma unlink_client_last:
  "name \<notin> service_name ` set nodes \<Longrightarrow> service_name node = name \<Longrightarrow>
     unlink_client name (nodes @ [node]) = Some (node, nodes)"
  by (induction nodes) auto

lemma deleteFromList_cases:
  "(\<exists>us node vs e'. reg_list cl = us @ node # vs \<and> service_name node = name \<and>
      name \<notin> service_name ` set us \<and>
      deleteFromList api (Some name) (cl, e) =
        (0, cl\<lparr>reg_list := us @ vs, numOfClients := numOfClients cl - 1\<rparr>, e')) \<or>
   name \<notin> service_name ` set (reg_list cl) \<and> deleteFromList api (Some name) (cl, e) = (- 1, cl, e)"
proof (cases "unlink_client name (reg_list cl)")
  case None
  with unlink_client_None [of name "reg_list cl"] show ?thesis by (simp add: deleteFromList_def)
next
  case (Some p)
  obtain node rest where p: "p = (node, rest)" by fastforce
  with Some unlink_client_Some [of name "reg_list cl" node rest] show ?thesis
    by (auto simp: deleteFromList_def Let_def)
qed

lemma checkClientStatus_iff: "checkClientStatus name cl = (if 0 < entries cl name then 1 else 0)"
proof (cases "find_client name (reg_list cl)")
  case None
  with find_client_None [of name "reg_list cl"] show ?thesis
    by (simp add: checkClientStatus_def entries_pos)
next
  case (Some n)
  then have "name \<in> service_name ` set (reg_list cl)" by (metis find_client_None option.distinct(1))
  with Some show ?thesis by (simp add: checkClientStatus_def entries_pos)
qed

lemma deleteFromList_entries:
  assumes "deleteFromList api (Some name) (cl, e) = (rv, cl', e')"
  shows "if 0 < entries cl name then rv = 0 \<and> entries cl' = (entries cl)(name := entries cl name - 1)
         else rv = - 1 \<and> cl' = cl"
  using deleteFromList_cases [of cl name api e]
proof (elim disjE exE conjE)
  fix us node vs e1
  assume "reg_list cl = us @ node # vs" "service_name node = name"
    "deleteFromList api (Some name) (cl, e) =
       (0, cl\<lparr>reg_list := us @ vs, numOfClients := numOfClients cl - 1\<rparr>, e1)"
  with assms show ?thesis by (auto simp: entries_def fun_eq_iff)
next
  assume "name \<notin> service_name ` set (reg_list cl)"
    and "deleteFromList api (Some name) (cl, e) = (- 1, cl, e)"
  with assms entries_pos [of cl name] show ?thesis by auto
qed

text \<open>
  What the clients of the registry rely on: a lookup finds a name exactly when it has an entry,
  and a deletion removes one entry of the name and nothing else.
\<close>

locale registry =
  fixes entries_in :: "'s \<Rightarrow> string \<Rightarrow> nat"
    and lookup :: "string \<Rightarrow> 's \<Rightarrow> int"
    and remove :: "string \<Rightarrow> 's \<Rightarrow> int \<times> 's"
  assumes lookup_iff: "lookup n s = (if 0 < entries_in s n then 1 else 0)"
    and remove_found: "0 < entries_in s n \<Longrightarrow> remove n s = (rv, s') \<Longrightarrow>
      rv = 0 \<and> entries_in s' = (entries_in s)(n := entries_in s n - 1)"
    and remove_missing: "entries_in s n = 0 \<Longrightarrow> fst (remove n s) = - 1"
begin

lemma lookup_after_remove:
  assumes "0 < entries_in s n" "remove n s = (rv, s')"
  shows "lookup n s' = (if 1 < entries_in s n then 1 else 0)" "m \<noteq> n \<Longrightarrow> lookup m s' = lookup m s"
  using remove_found [OF assms] by (simp_all add: lookup_iff)

text \<open>A name registered \<open>k\<close> times is gone after \<open>k\<close> deletions and not before.\<close>

lemma lookup_after_removes:
  "k \<le> entries_in s n \<Longrightarrow> lookup n (((\<lambda>s. snd (remove n s)) ^^ k) s) = (if k < entries_in s n then 1 else 0)"
proof (induction k arbitrary: s)
  case (Suc k)
  obtain rv s' where r: "remove n s = (rv, s')" by fastforce
  have "entries_in s' n = entries_in s n - 1"
    using remove_found [OF _ r] Suc.prems by simp
  then show ?case using Suc.IH [of s'] Suc.prems r
    by (simp add: funpow_Suc_right less_diff_conv del: funpow.simps)
qed (simp add: lookup_iff)

end

interpretation reg: registry "\<lambda>s. entries (fst s)" "\<lambda>n s. checkClientStatus n (fst s)"
  "\<lambda>n. deleteFromList api (Some n)" for api :: "'e nn_api"
proof
  show "0 < entries (fst s) n \<Longrightarrow> deleteFromList api (Some n) s = (rv, s') \<Longrightarrow>
      rv = 0 \<and> entries (fst s') = (entries (fst s))(n := entries (fst s) n - 1)"
    for s :: "clients \<times> 'e" and n rv s'
    using deleteFromList_entries [of api n "fst s" "snd s" rv "fst s'" "snd s'"] by simp
  show "entries (fst s) n = 0 \<Longrightarrow> fst (deleteFromList api (Some n) s) = - 1"
    for s :: "clients \<times> 'e" and n
    using deleteFromList_cases [of "fst s" n api "snd s"] entries_pos [of "fst s" n] by auto
qed (rule checkClientStatus_iff)

subsection \<open>The invariant\<close>

lemma addToList_cases:
  assumes "addToList api auth name url (cl, e) = Inr (rv, cl', e')"
  shows "cl' = cl \<and> rv = - 1 \<or>
    (\<exists>sock rc. cl' = (if length name < 32 \<and> length url < 100
              then cl\<lparr>reg_list := reg_list cl @ [new_client sock rc name url],
                      numOfClients := numOfClients cl + 1\<rparr>
              else cl\<lparr>reg_list := reg_list cl @ [new_client sock rc name url]\<rparr>) \<and>
       (length name < 32 \<and> length url < 100 \<or> rv = - 1))"
proof -
  have fits: "service_name (new_client sock rc name url) = name \<and>
      reg_url (new_client sock rc name url) = url \<longleftrightarrow> length name < 32 \<and> length url < 100" for sock rc
    by (simp add: new_client_def parStrncpy_eq_iff)
  show ?thesis using assms unfolding addToList_def Let_def fits
    by (auto simp: then_run_Inr_iff split: prod.splits if_split_asm)
qed

lemma new_client_fits:
  "length (service_name (new_client sock rc name url)) < 32"
  "length (reg_url (new_client sock rc name url)) < 100"
  by (simp_all add: new_client_def)

lemma addToList_counted:
  assumes "addToList api auth name url (cl, e) = Inr (rv, cl', e')" "clients_counted fit cl"
    "fit \<Longrightarrow> length name < 32 \<and> length url < 100"
  shows "clients_counted fit cl'"
  using addToList_cases [OF assms(1)] assms(2,3) new_client_fits
  by (auto simp: clients_counted_def split: if_splits)

lemma deleteFromList_counted:
  assumes "deleteFromList api (Some name) (cl, e) = (rv, cl', e')" "clients_counted fit cl"
  shows "clients_counted fit cl'"
  using deleteFromList_cases [of cl name api e] assms by (auto simp: clients_counted_def)

subsection \<open>Keep-alive removes the dead\<close>

lemma deleteFromList_nth:
  assumes i: "i < length (reg_list cl)" and dist: "distinct (map service_name (reg_list cl))"
  shows "\<exists>e'. deleteFromList api (Some (service_name (reg_list cl ! i))) (cl, e) =
    (0, cl\<lparr>reg_list := delete_at i (reg_list cl), numOfClients := numOfClients cl - 1\<rparr>, e')"
proof -
  let ?name = "service_name (reg_list cl ! i)"
  have "?name \<in> service_name ` set (reg_list cl)" using i by auto
  then obtain us node vs e' where us: "reg_list cl = us @ node # vs" "service_name node = ?name"
    and d: "deleteFromList api (Some ?name) (cl, e) =
        (0, cl\<lparr>reg_list := us @ vs, numOfClients := numOfClients cl - 1\<rparr>, e')"
    using deleteFromList_cases [of cl ?name api e] by blast
  have k: "length us < length (reg_list cl)" "reg_list cl ! length us = node" using us(1) by simp_all
  then have "map service_name (reg_list cl) ! length us = map service_name (reg_list cl) ! i"
    using us(2) i by simp
  then have "i = length us"
    using dist i k(1) nth_eq_iff_index_eq [of "map service_name (reg_list cl)" "length us" i]
    by (simp only: length_map)
  with us have "delete_at i (reg_list cl) = us @ vs" by (simp add: delete_at_def)
  with d show ?thesis by auto
qed

lemma keepalive_walk_filter:
  assumes "\<And>sock e. fst (nn_send api sock b (nat n) e) = n \<longleftrightarrow> alive sock"
    and "distinct (map service_name (reg_list cl))" "\<forall>j<i. j < length (reg_list cl) \<longrightarrow> alive (reg_sock (reg_list cl ! j))"
  shows "reg_list (fst (keepalive_walk api b n i (cl, e))) =
     filter (\<lambda>node. alive (reg_sock node)) (reg_list cl)"
  using assms
proof (induction api b n i "(cl, e)" arbitrary: cl e rule: keepalive_walk.induct)
  case (1 api b n i cl e)
  let ?temp = "reg_list cl ! i"
  obtain byte e' where s: "nn_send api (reg_sock ?temp) b (nat n) e = (byte, e')" by fastforce
  have alive: "byte = n \<longleftrightarrow> alive (reg_sock ?temp)" using "1.prems"(1) [of "reg_sock ?temp" e] s by simp
  consider "\<not> i < length (reg_list cl)" | "i < length (reg_list cl)" "byte = n"
    | "i < length (reg_list cl)" "byte \<noteq> n" by blast
  then show ?case
  proof cases
    case 1
    then have "\<forall>node\<in>set (reg_list cl). alive (reg_sock node)"
      using "1.prems"(3) by (metis in_set_conv_nth less_le_trans not_le)
    with 1 show ?thesis by (simp add: keepalive_walk.simps)
  next
    case 2
    with "1.hyps"(1) [OF 2(1) refl s [symmetric] 2(2)] "1.prems" alive s show ?thesis
      by (auto simp: keepalive_walk.simps [of _ _ _ i] less_Suc_eq)
  next
    case 3
    from deleteFromList_nth [OF 3(1) "1.prems"(2), of api e'] obtain e'' where
      d: "deleteFromList api (Some (service_name ?temp)) (cl, e') =
        (0, cl\<lparr>reg_list := delete_at i (reg_list cl), numOfClients := numOfClients cl - 1\<rparr>, e'')" by blast
    from "1.hyps"(2) [OF 3(1) refl s [symmetric] 3(2) d [symmetric] refl refl] "1.prems" 
    show ?thesis using 3 s d alive
      by (simp add: keepalive_walk.simps [of _ _ _ i] filter_delete_at distinct_map_delete_at)
  qed
qed

lemma keepalive_walk_counted: "clients_counted fit cl \<Longrightarrow> clients_counted fit (fst (keepalive_walk api b n i (cl, e)))"
proof (induction api b n i "(cl, e)" arbitrary: cl e rule: keepalive_walk.induct)
  case (1 api b n i cl e)
  let ?temp = "reg_list cl ! i"
  obtain byte e' where s: "nn_send api (reg_sock ?temp) b (nat n) e = (byte, e')" by fastforce
  obtain rv cl' e'' where d: "deleteFromList api (Some (service_name ?temp)) (cl, e') = (rv, cl', e'')"
    by (metis prod_cases3)
  note hyps = "1.hyps"(1) [OF _ refl s [symmetric] _ "1.prems"]
    "1.hyps"(2) [OF _ refl s [symmetric] _ d [symmetric] refl _ deleteFromList_counted [OF d "1.prems"]]
    "1.hyps"(3) [OF _ refl s [symmetric] _ d [symmetric] refl _ "1.prems"]
  show ?case
    using hyps "1.prems" s d by (auto simp: keepalive_walk.simps [of _ _ _ i])
qed

lemmas addToList_wf = addToList_counted [where fit = True, unfolded counted_wf]

lemmas deleteFromList_wf = deleteFromList_counted [where fit = True, unfolded counted_wf]

lemmas keepalive_walk_wf = keepalive_walk_counted [where fit = True, unfolded counted_wf]

lemma client_op_wf: "client_op s s' \<Longrightarrow> clients_wf (fst s) \<Longrightarrow> clients_wf (fst s')"
proof (induction rule: client_op.induct)
  case (register api auth name url cl e rv cl' e')
  then show ?case using addToList_wf [of api auth name url cl e rv cl' e'] by simp
next
  case (remove api name cl e rv cl' e')
  then show ?case using deleteFromList_wf by simp
next
  case keepalive
  then show ?case by (auto simp: serviceAlive_turn_def intro: keepalive_walk_wf)
qed (simp add: clients_wf_def deleteAllClients_def)

subsection \<open>Properties\<close>

text \<open>
  In every state reached by registrations of names and urls that fit their arrays, deletions,
  keep-alive turns and the final clean-up, \<open>numOfClients\<close> is the length of the list and a name is
  reported as registered exactly when a node has it.
\<close>

lemma clients_invariant:
  assumes "client_op\<^sup>*\<^sup>* (\<lparr> reg_list = [], numOfClients = 0 \<rparr>, e) (cl, e')"
  shows "clients_wf cl \<and>
    checkClientStatus name cl = (if name \<in> service_name ` set (reg_list cl) then 1 else 0)"
proof -
  have "clients_wf (fst s)" if "client_op\<^sup>*\<^sup>* (\<lparr> reg_list = [], numOfClients = 0 \<rparr>, e) s" for s
    using that
  proof (induction rule: rtranclp_induct)
    case base
    then show ?case by (simp add: clients_wf_def)
  next
    case (step s s')
    from step(2) show ?case using step(3) by (rule client_op_wf)
  qed
  from this [OF assms] show ?thesis by (simp add: checkClientStatus_iff entries_pos)
qed

text \<open>A nanomsg instance in which every call succeeds and sockets above 5 are dead.\<close>

definition sample_nn :: "unit nn_api" where
  "sample_nn = \<lparr> nn_socket = (\<lambda>e. (4, e)), nn_setsockopt = (\<lambda>_ e. (0, e)), nn_connect = (\<lambda>_ _ e. (1, e)),
     nn_send = (\<lambda>sock _ n e. (if sock \<le> 5 then int n else - 1, e)),
     nn_shutdown = (\<lambda>_ _ e. (0, e)), nn_close = (\<lambda>_ e. (0, e)) \<rparr>"

definition one_client :: clients where
  "one_client = \<lparr> reg_list = [new_client 4 1 ''iot'' ''tcp://127.0.0.1:6667''], numOfClients = 1 \<rparr>"

lemma one_client_added:
  "addToList sample_nn (3, Some ''ack'') ''iot'' ''tcp://127.0.0.1:6667''
     (\<lparr> reg_list = [], numOfClients = 0 \<rparr>, ()) = Inr (0, one_client, ())"
  by (simp add: addToList_def sample_nn_def one_client_def new_client_def sendAuthStatus_def parStrncpy_def)

lemma clients_invariant_witness:
  "client_op\<^sup>*\<^sup>* (\<lparr> reg_list = [], numOfClients = 0 \<rparr>, ()) (one_client, ()) \<and> clients_wf one_client"
proof -
  have "client_op (\<lparr> reg_list = [], numOfClients = 0 \<rparr>, ()) (one_client, ())"
    using client_op.register [OF one_client_added] by simp
  then have "client_op\<^sup>*\<^sup>* (\<lparr> reg_list = [], numOfClients = 0 \<rparr>, ()) (one_client, ())" by simp
  with clients_invariant [OF this] show ?thesis by simp
qed

text \<open>
  A client that registers successfully under a new name is found by the lookups, and deleting
  the name gives back the list and the count from before.
\<close>

lemma register_then_delete:
  assumes "addToList api auth name url (cl, e) = Inr (0, cl', e')" "checkClientStatus name cl = 0"
  shows "checkClientStatus name cl' = 1 \<and>
    (\<exists>e''. deleteFromList api (Some name) (cl', e') = (0, cl, e''))"
proof -
  have new: "name \<notin> service_name ` set (reg_list cl)"
    using assms(2) by (auto simp: checkClientStatus_iff entries_pos split: if_splits)
  obtain sock rc where cl': "cl' = cl\<lparr>reg_list := reg_list cl @ [new_client sock rc name url],
      numOfClients := numOfClients cl + 1\<rparr>" and name: "service_name (new_client sock rc name url) = name"
    using addToList_cases [OF assms(1)] by (auto simp: new_client_def parStrncpy_id)
  have "0 < entries cl' name" by (simp add: entries_pos cl' name)
  then have found: "checkClientStatus name cl' = 1" by (simp add: checkClientStatus_iff)
  from new name have "unlink_client name (reg_list cl @ [new_client sock rc name url]) =
      Some (new_client sock rc name url, reg_list cl)"
    by (rule unlink_client_last)
  with found cl' show ?thesis by (auto simp: deleteFromList_def Let_def)
qed

lemma register_then_delete_witness:
  "checkClientStatus ''iot'' one_client = 1 \<and>
   (\<exists>e''. deleteFromList sample_nn (Some ''iot'') (one_client, ()) =
            (0, \<lparr> reg_list = [], numOfClients = 0 \<rparr>, e''))"
  using register_then_delete [OF one_client_added] by (simp add: checkClientStatus_def)

text \<open>
  C40. A keep-alive walk over clients with distinct names keeps exactly the clients that can be
  sent to, in their order, and the count stays right. (The walk ends: it is a total function.)
\<close>

theorem keepalive_removes_dead:
  assumes "\<And>sock e. fst (nn_send api sock b (nat n) e) = n \<longleftrightarrow> alive sock"
    and "distinct (map service_name (reg_list cl))" and "clients_wf cl"
  shows "reg_list (fst (keepalive_walk api b n 0 (cl, e))) =
      filter (\<lambda>node. alive (reg_sock node)) (reg_list cl) \<and>
    clients_wf (fst (keepalive_walk api b n 0 (cl, e)))"
  using keepalive_walk_filter [of api b n alive cl 0 e] keepalive_walk_wf [OF assms(3)] assms(1,2)
  by simp

theorem keepalive_removes_dead_witness:
  "reg_list (fst (keepalive_walk sample_nn ''alive'' 5 0
      (\<lparr> reg_list = [new_client 9 1 ''a'' ''u'', new_client 4 1 ''b'' ''u''], numOfClients = 2 \<rparr>, ()))) =
     [new_client 4 1 ''b'' ''u'']"
  using keepalive_removes_dead [of sample_nn "''alive''" 5 "\<lambda>sock. sock \<le> 5"
      "\<lparr> reg_list = [new_client 9 1 ''a'' ''u'', new_client 4 1 ''b'' ''u''], numOfClients = 2 \<rparr>" "()"]
  by (simp add: sample_nn_def new_client_def parStrncpy_def clients_wf_def)

text \<open>
  A service name of 32 characters or more is stored truncated: the node is added to the list
  but not counted, the registration fails, and the name is not found afterwards.
\<close>

lemma addToList_long_name:
  assumes "addToList api auth name url (cl, e) = Inr (rv, cl', e')" "cl' \<noteq> cl" "clients_wf cl"
    "32 \<le> length name"
  shows "rv = - 1 \<and> length (reg_list cl') = Suc (length (reg_list cl)) \<and>
    numOfClients cl' = numOfClients cl \<and> \<not> clients_wf cl' \<and> checkClientStatus name cl' = 0"
proof -
  obtain sock rc where cl': "cl' = cl\<lparr>reg_list := reg_list cl @ [new_client sock rc name url]\<rparr>" "rv = - 1"
    using addToList_cases [OF assms(1)] assms(2,4) by auto
  have "name \<notin> service_name ` set (reg_list cl')"
    using assms(3,4) new_client_fits(1) [of sock rc name url] cl'(1)
    by (force simp: clients_wf_def list_all_iff)
  then have "entries cl' name = 0" using entries_pos [of cl' name] by auto
  with assms(3) cl' show ?thesis by (simp add: clients_wf_def checkClientStatus_iff)
qed

lemma addToList_long_name_witness:
  "\<exists>cl'. addToList sample_nn (3, Some ''ack'') (replicate 40 CHR ''a'') ''u'' (one_client, ()) = Inr (- 1, cl', ()) \<and>
     numOfClients cl' = 1 \<and> length (reg_list cl') = 2"
proof -
  let ?n = "replicate 40 CHR ''a''"
  let ?cl = "one_client\<lparr>reg_list := reg_list one_client @ [new_client 4 1 ?n ''u'']\<rparr>"
  have add: "addToList sample_nn (3, Some ''ack'') ?n ''u'' (one_client, ()) = Inr (- 1, ?cl, ())"
    by (simp add: addToList_def sample_nn_def new_client_def parStrncpy_def)
  have "?cl \<noteq> one_client" "clients_wf one_client"
    by (simp_all add: one_client_def clients_wf_def new_client_def parStrncpy_def)
  from addToList_long_name [OF add this] add show ?thesis by (simp add: one_client_def)
qed

end
