(* ===== verification/Partners.thy ===== *)
theory Partners
  imports Parodus_Prelude
begin

text \<open>
  \<^verbatim>\<open>partners_check.c\<close>: the partner ids of the command line are checked against those of a request,
  and added to those of an event.

  A \<^verbatim>\<open>partners_t\<close> is the list of its ids. The caller's \<open>partnerIds\<close> argument is described by
  whether it is a null pointer (\<open>out_null\<close>); the result is the return value and what was stored
  through it.
\<close>

text \<open>The messages \<open>validate_partner_id\<close> tells apart, with their \<open>partner_ids\<close> pointer.\<close>

datatype partner_msg =
    EventMsg "string list option"
  | ReqMsg "string list option"
  | OtherMsg

text \<open>The tokens of \<^verbatim>\<open>strsep(&partnerId, ",")\<close>.\<close>

fun strsep_tokens :: "char \<Rightarrow> string \<Rightarrow> string \<Rightarrow> string list" where
  "strsep_tokens d tok [] = [tok]"
| "strsep_tokens d tok (c # s) =
     (if c = d then tok # strsep_tokens d [] s else strsep_tokens d (tok @ [c]) s)"

text \<open>The list has room for one id per comma and one more; the second result is that number.\<close>

definition parse_partner_id :: "string \<Rightarrow> string list \<times> nat" where
  "parse_partner_id partnerId =
     (strsep_tokens (CHR '','') [] partnerId, length (filter (\<lambda>c. c = CHR '','') partnerId) + 1)"

text \<open>The search loops: is an id of the message one of the configured ones?\<close>

fun id_listed :: "string \<Rightarrow> string list \<Rightarrow> bool" where
  "id_listed p [] = False"
| "id_listed p (q # qs) = (if strcasecmp_eq q p then True else id_listed p qs)"

fun partner_match :: "string list \<Rightarrow> string list \<Rightarrow> bool" where
  "partner_match [] partnersList = False"
| "partner_match (p # ps) partnersList =
     (if id_listed p partnersList then True else partner_match ps partnersList)"

text \<open>The return value and the list stored in \<open>*partnerIds\<close>, if any.\<close>

definition store_partners :: "bool \<Rightarrow> string list \<Rightarrow> fault + int \<times> string list option" where
  "store_partners out_null ids = (if out_null then Inl NullDeref else Inr (1, Some ids))"

definition validate_partner_id ::
  "string \<Rightarrow> bool \<Rightarrow> partner_msg \<Rightarrow> fault + int \<times> string list option" where
  "validate_partner_id cfg_partner_id out_null msg =
     (if cfg_partner_id \<noteq> [] then
        let partnersList = fst (parse_partner_id cfg_partner_id) in
        (case msg of
           EventMsg (Some ids) \<Rightarrow>
             if partner_match ids partnersList then Inr (1, None)
             else store_partners out_null (ids @ map (\<lambda>p. parStrncpy p 64) partnersList)
         | EventMsg None \<Rightarrow>
             store_partners out_null (map (\<lambda>p. parStrncpy p 64) partnersList)
         | ReqMsg (Some ids) \<Rightarrow>
             if partner_match ids partnersList then Inr (1, None) else Inr (- 1, None)
         | ReqMsg None \<Rightarrow> Inr (1, None)
         | OtherMsg \<Rightarrow> Inr (1, None))
      else Inr (0, None))"

subsection \<open>Lemmas\<close>

lemma strsep_tokens_length:
  "length (strsep_tokens d tok s) = length (filter (\<lambda>c. c = d) s) + 1"
  by (induction d tok s rule: strsep_tokens.induct) auto

lemma strsep_tokens_no_sep: "d \<notin> set tok \<Longrightarrow> t \<in> set (strsep_tokens d tok s) \<Longrightarrow> d \<notin> set t"
  by (induction d tok s rule: strsep_tokens.induct) (auto split: if_splits)

text \<open>Printing the tokens with the separator between them gives the text back.\<close>

fun join_with :: "char \<Rightarrow> string list \<Rightarrow> string" where
  "join_with d [] = []"
| "join_with d [t] = t"
| "join_with d (t # ts) = t @ d # join_with d ts"

lemma strsep_tokens_not_Nil: "strsep_tokens d tok s \<noteq> []"
  by (induction d tok s rule: strsep_tokens.induct) auto

lemma join_with_Cons: "ts \<noteq> [] \<Longrightarrow> join_with d (t # ts) = t @ d # join_with d ts"
  by (cases ts) auto

lemma join_strsep_tokens: "join_with d (strsep_tokens d tok s) = tok @ s"
  by (induction d tok s rule: strsep_tokens.induct)
     (auto simp: join_with_Cons strsep_tokens_not_Nil)

lemma strsep_tokens_short: "t \<in> set (strsep_tokens d tok s) \<Longrightarrow> length t \<le> length tok + length s"
  by (induction d tok s arbitrary: t rule: strsep_tokens.induct) (fastforce split: if_splits)+

lemma id_listed_iff: "id_listed p qs \<longleftrightarrow> (\<exists>q\<in>set qs. strcasecmp_eq q p)"
  by (induction qs) auto

lemma partner_match_iff: "partner_match ps qs \<longleftrightarrow> (\<exists>p\<in>set ps. \<exists>q\<in>set qs. strcasecmp_eq q p)"
  by (induction ps) (auto simp: id_listed_iff)

lemma partner_match_append: "partner_match (ps @ rs) qs \<longleftrightarrow> partner_match ps qs \<or> partner_match rs qs"
  by (auto simp: partner_match_iff)

lemma partner_match_self: "qs \<noteq> [] \<Longrightarrow> partner_match qs qs"
  using strcasecmp_eq_refl by (cases qs) (auto simp: partner_match_iff)

lemma map_truncate_id: "list_all (\<lambda>t. length t < n) ts \<Longrightarrow> map (\<lambda>p. parStrncpy p n) ts = ts"
  by (induction ts) (auto simp: parStrncpy_id)

lemma parse_partner_id_short:
  "length s < 64 \<Longrightarrow> map (\<lambda>p. parStrncpy p 64) (fst (parse_partner_id s)) = fst (parse_partner_id s)"
  by (intro map_truncate_id)
     (auto simp: parse_partner_id_def list_all_iff dest: strsep_tokens_short)

lemma validate_event:
  assumes "cfg_id \<noteq> []" "length cfg_id < 64"
  shows "\<exists>stored. validate_partner_id cfg_id False (EventMsg ids) = Inr (1, stored) \<and>
    (stored = None \<longleftrightarrow> (\<exists>ps. ids = Some ps \<and> partner_match ps (fst (parse_partner_id cfg_id)))) \<and>
    (\<forall>l. stored = Some l \<longrightarrow> (\<forall>ps. ids = Some ps \<longrightarrow> set ps \<subseteq> set l) \<and>
       set (fst (parse_partner_id cfg_id)) \<subseteq> set l)"
  using assms parse_partner_id_short [OF assms(2)]
  by (cases ids) (auto simp: validate_partner_id_def Let_def store_partners_def)

subsection \<open>Properties\<close>

text \<open>
  The configured partner ids are split at commas without loss: the number of ids is the number
  the list was allocated for, no id has a comma, and joining them gives the text back.
\<close>

lemma parse_partner_id_tokens:
  "case parse_partner_id s of (ids, room) \<Rightarrow>
     length ids = room \<and> (\<forall>t. t \<in> set ids \<longrightarrow> CHR '','' \<notin> set t) \<and> join_with (CHR '','') ids = s"
  by (auto simp: parse_partner_id_def strsep_tokens_length join_strsep_tokens
      dest: strsep_tokens_no_sep [rotated])

lemma parse_partner_id_tokens_witness:
  "fst (parse_partner_id ''a,b'') = [''a'', ''b''] \<and> CHR '','' \<notin> set ''a''"
proof -
  have "fst (parse_partner_id ''a,b'') = [''a'', ''b'']" by (simp add: parse_partner_id_def)
  with parse_partner_id_tokens [of "''a,b''"] show ?thesis by (simp add: case_prod_beta)
qed

text \<open>
  With partner ids configured, a request passes exactly when it names no partner ids or one of
  them is a configured one up to case; otherwise it is refused with \<open>-1\<close>.
\<close>

lemma validate_partner_id_request:
  assumes "cfg_id \<noteq> []"
  shows "validate_partner_id cfg_id out_null (ReqMsg ids) =
    Inr (if (\<exists>ps. ids = Some ps \<and>
            \<not> (\<exists>p\<in>set ps. \<exists>q\<in>set (fst (parse_partner_id cfg_id)). strcasecmp_eq q p))
         then - 1 else 1, None)"
  using assms by (cases ids) (simp_all add: validate_partner_id_def Let_def partner_match_iff)

lemma validate_partner_id_request_witness:
  "validate_partner_id ''comcast,sky'' True (ReqMsg (Some [''SKY''])) = Inr (1, None)"
proof -
  have "strcasecmp_eq ''sky'' ''SKY''" "fst (parse_partner_id ''comcast,sky'') = [''comcast'', ''sky'']"
    by code_simp+
  with validate_partner_id_request [of "''comcast,sky''" True "Some [''SKY'']"] show ?thesis by simp
qed

text \<open>
  With a null output pointer, as the downstream handler passes it, an event with partner ids
  of which none is configured, or without partner ids, makes the code write through the null
  pointer.
\<close>

lemma validate_partner_id_null_out:
  assumes "cfg_id \<noteq> []"
    and "case ids of None \<Rightarrow> True | Some ps \<Rightarrow> \<not> partner_match ps (fst (parse_partner_id cfg_id))"
  shows "validate_partner_id cfg_id True (EventMsg ids) = Inl NullDeref"
  using assms by (cases ids) (simp_all add: validate_partner_id_def Let_def store_partners_def)

lemma validate_partner_id_null_out_witness:
  "validate_partner_id ''sky'' True (EventMsg None) = Inl NullDeref"
  using validate_partner_id_null_out [of "''sky''" None] by simp

end
