(* ===== verification/Cjson.thy ===== *)
theory Cjson
  imports Parodus_Prelude
begin

text \<open>
  The JSON library the program calls. The structure of a node is data (the sources read its fields
  directly); the functions of the library are the fields of the record \<open>cjson_api\<close>, an argument of
  every definition that calls them. An in-place modification is a function from the old node to
  the new one; \<open>store_item\<close> is the effect of a modification through a pointer that
  \<open>cJSON_GetObjectItem\<close> returned.

  \<open>cjson_documented\<close> states the documented behaviour the theorems rely on: order of items, lookup
  by case-insensitive key, appending and deleting items. What is parsed and printed stays open;
  a theorem that needs the two to fit together says so for the one document it is about.
\<close>

datatype cj_type = cJSON_False | cJSON_True | cJSON_NULL | cJSON_Number | cJSON_String | cJSON_Array
  | cJSON_Object | cJSON_Raw

datatype cjson = CJSON
  (cj_type: cj_type)
  (cj_string: "string option")
  (cj_valuestring: "string option")
  (cj_valueint: int)
  (cj_child: "cjson list")

text \<open>A null pointer is \<open>None\<close>, for texts, for keys and for nodes.\<close>

record cjson_api =
  cJSON_Parse :: "string option \<Rightarrow> cjson option"
  cJSON_PrintUnformatted :: "cjson option \<Rightarrow> string option"
  cJSON_GetArraySize :: "cjson \<Rightarrow> int"
  cJSON_GetArrayItem :: "cjson \<Rightarrow> int \<Rightarrow> cjson option"
  cJSON_GetObjectItem :: "cjson option \<Rightarrow> string \<Rightarrow> cjson option"
  cJSON_CreateObject :: cjson
  cJSON_CreateString :: "string option \<Rightarrow> cjson"
  cJSON_CreateNumber :: "int \<Rightarrow> cjson"
  cJSON_AddItemToObject :: "cjson \<Rightarrow> string option \<Rightarrow> cjson \<Rightarrow> cjson"
  cJSON_DeleteItemFromArray :: "cjson \<Rightarrow> int \<Rightarrow> cjson"

definition cJSON_AddNumberToObject :: "cjson_api \<Rightarrow> cjson \<Rightarrow> string option \<Rightarrow> int \<Rightarrow> cjson" where
  "cJSON_AddNumberToObject J obj key n = cJSON_AddItemToObject J obj key (cJSON_CreateNumber J n)"

definition cJSON_AddStringToObject :: "cjson_api \<Rightarrow> cjson \<Rightarrow> string option \<Rightarrow> string option \<Rightarrow> cjson" where
  "cJSON_AddStringToObject J obj key s = cJSON_AddItemToObject J obj key (cJSON_CreateString J s)"

definition with_child :: "cjson \<Rightarrow> cjson list \<Rightarrow> cjson" where
  "with_child j cs = CJSON (cj_type j) (cj_string j) (cj_valuestring j) (cj_valueint j) cs"

definition with_key :: "cjson \<Rightarrow> string \<Rightarrow> cjson" where
  "with_key j k = CJSON (cj_type j) (Some k) (cj_valuestring j) (cj_valueint j) (cj_child j)"

text \<open>The item \<open>cJSON_GetObjectItem\<close> finds under \<open>key\<close> becomes \<open>item\<close>.\<close>

definition store_item :: "cjson_api \<Rightarrow> cjson \<Rightarrow> string \<Rightarrow> cjson \<Rightarrow> cjson" where
  "store_item J j key item =
     (case find_index (\<lambda>c. cJSON_GetObjectItem J (Some j) key = Some c) (cj_child j) of
        None \<Rightarrow> j
      | Some i \<Rightarrow> with_child j ((cj_child j)[i := item]))"

subsection \<open>Documented behaviour\<close>

definition has_key :: "string \<Rightarrow> cjson \<Rightarrow> bool" where
  "has_key k c \<longleftrightarrow> (case cj_string c of None \<Rightarrow> False | Some s \<Rightarrow> strcasecmp_eq s k)"

definition cjson_documented :: "cjson_api \<Rightarrow> bool" where
  "cjson_documented J \<longleftrightarrow>
     cJSON_Parse J None = None \<and>
     (\<forall>j. cJSON_GetArraySize J j = int (length (cj_child j))) \<and>
     (\<forall>j i. cJSON_GetArrayItem J j i =
        (if 0 \<le> i \<and> i < int (length (cj_child j)) then Some (cj_child j ! nat i) else None)) \<and>
     (\<forall>k. cJSON_GetObjectItem J None k = None) \<and>
     (\<forall>j k. cJSON_GetObjectItem J (Some j) k = find (has_key k) (cj_child j)) \<and>
     cJSON_CreateObject J = CJSON cJSON_Object None None 0 [] \<and>
     (\<forall>s. cJSON_CreateString J s = CJSON cJSON_String None s 0 []) \<and>
     (\<forall>n. cJSON_CreateNumber J n = CJSON cJSON_Number None None n []) \<and>
     (\<forall>obj k item. cJSON_AddItemToObject J obj (Some k) item =
        with_child obj (cj_child obj @ [with_key item k])) \<and>
     (\<forall>j i. 0 \<le> i \<and> i < int (length (cj_child j)) \<longrightarrow>
        cJSON_DeleteItemFromArray J j i = with_child j (delete_at (nat i) (cj_child j)))"

text \<open>A library that behaves as documented, given a parser and a printer.\<close>

definition ref_cjson :: "(string \<Rightarrow> cjson option) \<Rightarrow> (cjson \<Rightarrow> string option) \<Rightarrow> cjson_api" where
  "ref_cjson parse print = \<lparr>
     cJSON_Parse = (\<lambda>s. Option.bind s parse), cJSON_PrintUnformatted = (\<lambda>j. Option.bind j print),
     cJSON_GetArraySize = (\<lambda>j. int (length (cj_child j))),
     cJSON_GetArrayItem = (\<lambda>j i. if 0 \<le> i \<and> i < int (length (cj_child j))
                                 then Some (cj_child j ! nat i) else None),
     cJSON_GetObjectItem = (\<lambda>j k. case j of None \<Rightarrow> None | Some j \<Rightarrow> find (has_key k) (cj_child j)),
     cJSON_CreateObject = CJSON cJSON_Object None None 0 [],
     cJSON_CreateString = (\<lambda>s. CJSON cJSON_String None s 0 []),
     cJSON_CreateNumber = (\<lambda>n. CJSON cJSON_Number None None n []),
     cJSON_AddItemToObject = (\<lambda>obj k item. case k of None \<Rightarrow> obj
        | Some k \<Rightarrow> with_child obj (cj_child obj @ [with_key item k])),
     cJSON_DeleteItemFromArray = (\<lambda>j i. if 0 \<le> i then with_child j (delete_at (nat i) (cj_child j)) else j) \<rparr>"

lemma with_child_simps [simp]:
  "cj_child (with_child j cs) = cs" "cj_type (with_child j cs) = cj_type j"
  "cj_string (with_child j cs) = cj_string j" "with_child (with_child j cs) ds = with_child j ds"
  "cj_child (with_key j k) = cj_child j" "cj_string (with_key j k) = Some k"
  "cj_type (with_key j k) = cj_type j" "cj_valueint (with_key j k) = cj_valueint j"
  "cj_valuestring (with_key j k) = cj_valuestring j"
  "with_key (with_key j k) k' = with_key j k'"
  by (simp_all add: with_child_def with_key_def)

lemma ref_cjson_documented: "cjson_documented (ref_cjson parse print)"
  by (simp add: cjson_documented_def ref_cjson_def)

lemma documented_simps:
  assumes "cjson_documented J"
  shows "cJSON_Parse J None = None"
    "cJSON_GetArraySize J j = int (length (cj_child j))"
    "n < length (cj_child j) \<Longrightarrow> cJSON_GetArrayItem J j (int n) = Some (cj_child j ! n)"
    "cJSON_GetObjectItem J None k = None"
    "cJSON_GetObjectItem J (Some j) k = find (has_key k) (cj_child j)"
    "cJSON_CreateObject J = CJSON cJSON_Object None None 0 []"
    "cJSON_CreateString J s = CJSON cJSON_String None s 0 []"
    "cJSON_CreateNumber J m = CJSON cJSON_Number None None m []"
    "cJSON_AddItemToObject J j (Some k) item = with_child j (cj_child j @ [with_key item k])"
    "n < length (cj_child j) \<Longrightarrow>
       cJSON_DeleteItemFromArray J j (int n) = with_child j (delete_at n (cj_child j))"
  using assms by (simp_all add: cjson_documented_def)

lemma has_key_refl [simp]: "cj_string c = Some k \<Longrightarrow> has_key k c"
  by (simp add: has_key_def)

end
