(* ===== verification/Crud.thy ===== *)
theory Crud
  imports Config Timers Client_List Cjson
begin

text \<open>
  The CRUD requests: \<^verbatim>\<open>crud_internal.c\<close> and \<^verbatim>\<open>crud_tasks.c\<close>. Requests create, retrieve, update and
  delete the named tag objects kept in the JSON file \<open>crud_config_file\<close>, read the in-memory
  configuration and the registration status of a client, and disconnect from the cloud.

  The state is the configuration, the content of the file (\<open>None\<close> when it cannot be opened), whether
  it can be opened for writing, the flags, the reconnect reason and the client list. The fields of a
  CRUD message are those of \<^verbatim>\<open>wrp_msg_t\<close> the sources use. \<open>wrp_get_msg_element\<close> and the index of the
  application element belong to the wrp library and are the record \<open>wrp_api\<close>. The elements of the
  destination are kept in an array of five pointers of which some stay uninitialised, so a slot
  is \<open>Uninit\<close>, \<open>Null\<close> or a string, and reading an uninitialised one is a fault.
\<close>

datatype msg_type = WRP_MSG_TYPE__AUTH | WRP_MSG_TYPE__REQ | WRP_MSG_TYPE__EVENT
  | WRP_MSG_TYPE__CREATE | WRP_MSG_TYPE__RETREIVE | WRP_MSG_TYPE__UPDATE | WRP_MSG_TYPE__DELETE
  | WRP_MSG_TYPE__SVC_REGISTRATION | WRP_MSG_TYPE__SVC_ALIVE | WRP_MSG_TYPE__UNKNOWN

record crud_msg =
  msg_type :: msg_type
  transaction_uuid :: "string option"
  crud_source :: "string option"
  crud_dest :: "string option"
  crud_payload :: "string option"
  crud_payload_size :: nat
  crud_status :: int

record wrp_api =
  wrp_get_msg_element :: "nat \<Rightarrow> string \<Rightarrow> string option"
  WRP_ID_ELEMENT__APPLICATION :: nat

record crud_state =
  st_cfg :: ParodusCfg
  st_file :: "string option"
  st_writable :: bool
  st_flags :: flags
  reconnect_reason :: string
  reconnect_status :: bool
  st_clients :: clients

type_synonym crud_result = "fault + int \<times> crud_msg \<times> crud_state"

text \<open>The paths that set a status and return \<open>-1\<close>.\<close>

definition crud_fail :: "int \<Rightarrow> crud_msg \<Rightarrow> crud_state \<Rightarrow> crud_result" where
  "crud_fail code resp st = Inr (- 1, resp\<lparr>crud_status := code\<rparr>, st)"

definition with_payload :: "int \<Rightarrow> string \<Rightarrow> crud_msg \<Rightarrow> crud_msg" where
  "with_payload code text resp =
     resp\<lparr>crud_status := code, crud_payload := Some text, crud_payload_size := length text\<rparr>"

subsection \<open>The file\<close>

definition readFromJSON :: "crud_state \<Rightarrow> int \<times> string option" where
  "readFromJSON st = (case st_file st of None \<Rightarrow> (0, None) | Some d \<Rightarrow> (1, Some d))"

text \<open>The file is truncated when it is opened, also when there is nothing to write.\<close>

definition writeToJSON :: "string option \<Rightarrow> crud_state \<Rightarrow> int \<times> crud_state" where
  "writeToJSON data st =
     (if \<not> st_writable st then (0, st)
      else (case data of
              Some d \<Rightarrow> (1, st\<lparr>st_file := Some d\<rparr>)
            | None \<Rightarrow> (0, st\<lparr>st_file := Some []\<rparr>)))"

definition writeIntoCrudJson ::
  "cjson_api \<Rightarrow> cjson \<Rightarrow> string \<Rightarrow> cjson \<Rightarrow> crud_state \<Rightarrow> int \<times> crud_state" where
  "writeIntoCrudJson J res_obj object objValue st =
     writeToJSON (cJSON_PrintUnformatted J (Some (cJSON_AddItemToObject J res_obj (Some object) objValue))) st"

text \<open>
  The first lines of \<open>createObject\<close> and \<open>updateObject\<close>: the parsed file, a null pointer where there
  is none, or \<open>None\<close> where the content does not parse (status 500).
\<close>

definition load_json :: "cjson_api \<Rightarrow> crud_state \<Rightarrow> cjson option option" where
  "load_json J st =
     (case readFromJSON st of (status, jsonData) \<Rightarrow>
        if status = 0 then Some (cJSON_Parse J jsonData)
        else (case jsonData of
                Some d \<Rightarrow>
                  if d \<noteq> [] then
                    (case cJSON_Parse J jsonData of None \<Rightarrow> None | Some j \<Rightarrow> Some (Some j))
                  else Some (cJSON_Parse J jsonData)
              | None \<Rightarrow> Some (cJSON_Parse J jsonData)))"

subsection \<open>The destination\<close>

datatype slot = Uninit | Null | Str string

definition slot_of :: "string option \<Rightarrow> slot" where
  "slot_of p = (case p of None \<Rightarrow> Null | Some s \<Rightarrow> Str s)"

definition obj_at :: "slot list \<Rightarrow> nat \<Rightarrow> fault + string option" where
  "obj_at obj i =
     (if i < length obj then
        (case obj ! i of Uninit \<Rightarrow> Inl UninitRead | Null \<Rightarrow> Inr None | Str s \<Rightarrow> Inr (Some s))
      else Inl OutOfBounds)"

definition strdupptr :: "string \<Rightarrow> string option" where
  "strdupptr s = (if s = [] then None else Some s)"

text \<open>The loop that fills the array with the elements of the destination: \<open>rv\<close> and the array.\<close>

fun dest_elements :: "wrp_api \<Rightarrow> string \<Rightarrow> nat list \<Rightarrow> int \<Rightarrow> slot list \<Rightarrow> int \<times> slot list" where
  "dest_elements W dest [] rv obj = (rv, obj)"
| "dest_elements W dest (i # is) rv obj =
     (let e = wrp_get_msg_element W i dest; obj = obj[i := slot_of e] in
      case e of None \<Rightarrow> (rv, obj) | Some _ \<Rightarrow> dest_elements W dest is (int i) obj)"

definition parse_dest_elements_to_string :: "wrp_api \<Rightarrow> string \<Rightarrow> fault + int \<times> slot list" where
  "parse_dest_elements_to_string W dest =
     (case dest_elements W dest [0 ..< Suc (WRP_ID_ELEMENT__APPLICATION W)] (- 1) (replicate 5 Uninit) of
        (rv, obj) \<Rightarrow>
          if rv < 0 then Inl OutOfBounds
          else then_run (obj_at obj (nat rv)) (\<lambda>p.
               then_run (deref p) (\<lambda>start.
               case strchr start (CHR ''/'') of
                 None \<Rightarrow> Inr (rv, obj)
               | Some end \<Rightarrow>
                   let tagElem = strdupptr (cut_at (CHR ''/'') start) in
                   if strchr (tl end) (CHR ''/'') = None then
                     if Suc (nat rv) < 5 then
                       Inr (rv + 1, obj[nat rv := slot_of tagElem, Suc (nat rv) := Str (tl end)])
                     else Inl OutOfBounds
                   else Inr (- 1, obj))))"

text \<open>The test for a destination \<open>.../parodus/tag/name\<close>; a conjunct is read only when needed.\<close>

definition slot_is :: "slot list \<Rightarrow> nat \<Rightarrow> string \<Rightarrow> fault + bool" where
  "slot_is obj i s = then_run (obj_at obj i) (\<lambda>p. Inr (p = Some s))"

definition is_tag_dest :: "int \<Rightarrow> slot list \<Rightarrow> fault + bool" where
  "is_tag_dest objlevel obj =
     (if objlevel = 4 then
        then_run (slot_is obj 2 ''parodus'') (\<lambda>b. if b then slot_is obj 3 ''tag'' else Inr False)
      else Inr False)"

text \<open>A string that must not be null when it is used as an element of the path.\<close>

definition obj_str :: "slot list \<Rightarrow> int \<Rightarrow> fault + string" where
  "obj_str obj i = then_run (obj_at obj (nat i)) deref"

subsection \<open>The payload\<close>

text \<open>Is there a numeric \<open>expires\<close> that is not zero? The first one decides.\<close>

fun expires_loop :: "cjson_api \<Rightarrow> cjson \<Rightarrow> nat list \<Rightarrow> fault + bool" where
  "expires_loop J p [] = Inr False"
| "expires_loop J p (i # is) =
     then_run (deref (cJSON_GetArrayItem J p (int i))) (\<lambda>item.
       if cj_string item \<noteq> None \<and> cj_type item = cJSON_Number \<and> cj_string item = Some ''expires''
       then Inr (cj_valueint item \<noteq> 0)
       else expires_loop J p is)"

text \<open>No key and no string value may be empty.\<close>

fun strings_loop :: "cjson_api \<Rightarrow> cjson \<Rightarrow> nat list \<Rightarrow> fault + bool" where
  "strings_loop J p [] = Inr True"
| "strings_loop J p (i # is) =
     then_run (deref (cJSON_GetArrayItem J p (int i))) (\<lambda>item.
       if cj_string item = Some [] then Inr False
       else if cj_type item = cJSON_String \<and> cj_valuestring item = Some [] then Inr False
       else strings_loop J p is)"

text \<open>The items are copied into an object; \<open>None\<close> is an item that is neither number nor string.\<close>

fun copy_loop :: "cjson_api \<Rightarrow> cjson \<Rightarrow> nat list \<Rightarrow> cjson \<Rightarrow> fault + cjson option" where
  "copy_loop J p [] obj = Inr (Some obj)"
| "copy_loop J p (i # is) obj =
     then_run (deref (cJSON_GetArrayItem J p (int i))) (\<lambda>item.
       if cj_type item = cJSON_Number then
         copy_loop J p is (cJSON_AddNumberToObject J obj (cj_string item) (cj_valueint item))
       else if cj_type item = cJSON_String then
         copy_loop J p is (cJSON_AddStringToObject J obj (cj_string item) (cj_valuestring item))
       else Inr None)"

text \<open>The copy into a response, where everything but a number is copied as a string.\<close>

fun copy_resp_loop :: "cjson_api \<Rightarrow> cjson \<Rightarrow> nat list \<Rightarrow> cjson \<Rightarrow> fault + cjson" where
  "copy_resp_loop J p [] obj = Inr obj"
| "copy_resp_loop J p (i # is) obj =
     then_run (deref (cJSON_GetArrayItem J p (int i))) (\<lambda>item.
       copy_resp_loop J p is
         (if cj_type item = cJSON_Number
          then cJSON_AddItemToObject J obj (cj_string item) (cJSON_CreateNumber J (cj_valueint item))
          else cJSON_AddItemToObject J obj (cj_string item) (cJSON_CreateString J (cj_valuestring item))))"

text \<open>The index of the item whose key is exactly \<open>name\<close>.\<close>

fun key_loop :: "cjson_api \<Rightarrow> cjson \<Rightarrow> string \<Rightarrow> nat list \<Rightarrow> fault + nat option" where
  "key_loop J p name [] = Inr None"
| "key_loop J p name (i # is) =
     then_run (deref (cJSON_GetArrayItem J p (int i))) (\<lambda>item.
     then_run (deref (cj_string item)) (\<lambda>testkey.
       if testkey = name then Inr (Some i) else key_loop J p name is))"

definition indices :: "cjson_api \<Rightarrow> cjson \<Rightarrow> nat list" where
  "indices J p = [0 ..< nat (cJSON_GetArraySize J p)]"

text \<open>
  The checks of a payload before anything is changed: the payload, or \<open>None\<close> where the code answers
  400 (no payload, not JSON, no items, no valid \<open>expires\<close>, an empty key or string value).
\<close>

definition check_payload :: "cjson_api \<Rightarrow> string option \<Rightarrow> fault + cjson option" where
  "check_payload J payload =
     (case payload of
        None \<Rightarrow> Inr None
      | Some _ \<Rightarrow>
          (case cJSON_Parse J payload of
             None \<Rightarrow> Inr None
           | Some jsonPayload \<Rightarrow>
               if cJSON_GetArraySize J jsonPayload = 0 then Inr None
               else then_run (expires_loop J jsonPayload (indices J jsonPayload)) (\<lambda>expireFlag.
                    if \<not> expireFlag then Inr None
                    else then_run (strings_loop J jsonPayload (indices J jsonPayload)) (\<lambda>ok.
                         if ok then Inr (Some jsonPayload) else Inr None))))"

subsection \<open>Create\<close>

text \<open>The last lines of \<open>createObject\<close> and \<open>updateObject\<close>, after the file was written.\<close>

definition finish_write :: "int \<times> crud_state \<Rightarrow> crud_msg \<Rightarrow> crud_result" where
  "finish_write w resp = (case w of (status, st) \<Rightarrow>
     if status = 1 then Inr (0, resp, st) else crud_fail 500 resp st)"

text \<open>A new object under existing tags.\<close>

definition create_in_tags ::
  "cjson_api \<Rightarrow> cjson \<Rightarrow> string \<Rightarrow> cjson \<Rightarrow> crud_msg \<Rightarrow> crud_state \<Rightarrow> crud_result" where
  "create_in_tags J jsonPayload name tagObj resp st =
     then_run (copy_loop J jsonPayload (indices J jsonPayload) (cJSON_CreateObject J)) (\<lambda>testObj1.
     case testObj1 of
       None \<Rightarrow> crud_fail 400 resp st
     | Some testObj1 \<Rightarrow>
         let tagObj = cJSON_AddItemToObject J tagObj (Some name) testObj1 in
         then_run (copy_resp_loop J jsonPayload (indices J jsonPayload) (cJSON_CreateObject J)) (\<lambda>tmpObj.
         then_run (deref (cJSON_PrintUnformatted J
             (Some (cJSON_AddItemToObject J (cJSON_CreateObject J) (Some name) tmpObj)))) (\<lambda>resPayload.
         finish_write (writeIntoCrudJson J (cJSON_CreateObject J) ''tags'' tagObj st)
           (with_payload 201 resPayload resp))))"

text \<open>The tags object itself is new.\<close>

definition create_tags ::
  "cjson_api \<Rightarrow> cjson \<Rightarrow> string \<Rightarrow> crud_msg \<Rightarrow> crud_state \<Rightarrow> crud_result" where
  "create_tags J jsonPayload name resp st =
     then_run (copy_loop J jsonPayload (indices J jsonPayload) (cJSON_CreateObject J)) (\<lambda>testObj1.
     case testObj1 of
       None \<Rightarrow> crud_fail 400 resp st
     | Some testObj1 \<Rightarrow>
         let tagObj = cJSON_AddItemToObject J (cJSON_CreateObject J) (Some name) testObj1 in
         then_run (deref (cJSON_PrintUnformatted J (Some tagObj))) (\<lambda>resPayload.
         finish_write (writeIntoCrudJson J (cJSON_CreateObject J) ''tags'' tagObj st)
           (with_payload 201 resPayload resp)))"

definition create_checked ::
  "cjson_api \<Rightarrow> cjson option \<Rightarrow> cjson \<Rightarrow> string \<Rightarrow> crud_msg \<Rightarrow> crud_state \<Rightarrow> crud_result" where
  "create_checked J json jsonPayload name resp st =
     (case cJSON_GetObjectItem J json ''tags'' of
        Some tagObj \<Rightarrow>
          (case cJSON_GetObjectItem J (Some tagObj) name of
             Some testObj \<Rightarrow>
               then_run (key_loop J tagObj name (indices J tagObj)) (\<lambda>found.
                 case found of
                   Some j \<Rightarrow> crud_fail 409 resp st
                 | None \<Rightarrow> crud_fail 500 resp st)
           | None \<Rightarrow> create_in_tags J jsonPayload name tagObj resp st)
      | None \<Rightarrow> create_tags J jsonPayload name resp st)"

definition createObject ::
  "cjson_api \<Rightarrow> wrp_api \<Rightarrow> crud_msg \<Rightarrow> crud_msg \<Rightarrow> crud_state \<Rightarrow> crud_result" where
  "createObject J W req resp st =
     (case load_json J st of
        None \<Rightarrow> crud_fail 500 resp st
      | Some json \<Rightarrow>
          (case crud_dest req of
             None \<Rightarrow> crud_fail 400 resp st
           | Some dest \<Rightarrow>
               then_run (parse_dest_elements_to_string W dest) (\<lambda>(objlevel, obj).
               if objlevel < 0 then crud_fail 400 resp st
               else then_run (is_tag_dest objlevel obj) (\<lambda>b.
                 if \<not> b then crud_fail 400 resp st
                 else then_run (check_payload J (crud_payload req)) (\<lambda>p.
                   case p of
                     None \<Rightarrow> crud_fail 400 resp st
                   | Some jsonPayload \<Rightarrow>
                       then_run (obj_str obj objlevel) (\<lambda>name.
                         create_checked J json jsonPayload name resp st))))))"

subsection \<open>Retrieve\<close>

definition HW_MODELNAME :: string where "HW_MODELNAME = ''hw-model''"
definition HW_SERIALNUMBER :: string where "HW_SERIALNUMBER = ''hw-serial-number''"
definition HW_MANUFACTURER :: string where "HW_MANUFACTURER = ''hw-manufacturer''"
definition HW_DEVICEMAC :: string where "HW_DEVICEMAC = ''hw-mac''"
definition HW_LAST_REBOOT_REASON :: string where "HW_LAST_REBOOT_REASON = ''hw-last-reboot-reason''"
definition FIRMWARE_NAME :: string where "FIRMWARE_NAME = ''fw-name''"
definition BOOT_TIME :: string where "BOOT_TIME = ''boot-time''"
definition WEBPA_PROTOCOL :: string where "WEBPA_PROTOCOL = ''webpa-protocol''"
definition WEBPA_INTERFACE :: string where "WEBPA_INTERFACE = ''webpa-interface-used''"
definition LAST_RECONNECT_REASON :: string where
  "LAST_RECONNECT_REASON = ''webpa-last-reconnect-reason''"
definition BOOT_RETRY_WAIT :: string where "BOOT_RETRY_WAIT = ''boot-time-retry-wait''"
definition WEBPA_UUID :: string where "WEBPA_UUID = ''webpa-uuid''"
definition WEBPA_URL :: string where "WEBPA_URL = ''webpa-url''"
definition WEBPA_PING_TIMEOUT :: string where "WEBPA_PING_TIMEOUT = ''webpa-ping-timeout''"
definition WEBPA_BACKOFF_MAX :: string where "WEBPA_BACKOFF_MAX = ''webpa-backoff-max''"
definition CLOUD_STATUS :: string where "CLOUD_STATUS = ''cloud-status''"
definition CLOUD_DISCONNECT :: string where "CLOUD_DISCONNECT = ''cloud-disconnect''"
definition CLOUD_DISCONNECT_REASON :: string where "CLOUD_DISCONNECT_REASON = ''disconnection-reason''"

text \<open>An entry whose value is a string: \<open>tested\<close> is the string the code checks for being empty.\<close>

definition mem_text :: "cjson_api \<Rightarrow> string \<Rightarrow> string \<Rightarrow> string \<Rightarrow> int \<times> cjson" where
  "mem_text J key tested val =
     (if tested = [] then (- 1, cJSON_CreateObject J)
      else (0, cJSON_AddItemToObject J (cJSON_CreateObject J) (Some key) (cJSON_CreateString J (Some val))))"

definition mem_num :: "cjson_api \<Rightarrow> string \<Rightarrow> u32 \<Rightarrow> int \<times> cjson" where
  "mem_num J key val =
     (0, cJSON_AddItemToObject J (cJSON_CreateObject J) (Some key) (cJSON_CreateNumber J (uint val)))"

definition retrieveFromMemory :: "cjson_api \<Rightarrow> ParodusCfg \<Rightarrow> string \<Rightarrow> int \<times> cjson" where
  "retrieveFromMemory J cfg keyName =
     (if HW_MODELNAME = keyName then mem_text J HW_MODELNAME (hw_model cfg) (hw_model cfg)
      else if HW_SERIALNUMBER = keyName then
        mem_text J HW_SERIALNUMBER (hw_serial_number cfg) (hw_serial_number cfg)
      else if HW_MANUFACTURER = keyName then
        mem_text J HW_MANUFACTURER (hw_manufacturer cfg) (hw_manufacturer cfg)
      else if HW_DEVICEMAC = keyName then mem_text J HW_DEVICEMAC (hw_mac cfg) (hw_mac cfg)
      else if HW_LAST_REBOOT_REASON = keyName then
        mem_text J HW_LAST_REBOOT_REASON (hw_last_reboot_reason cfg) (hw_last_reboot_reason cfg)
      else if FIRMWARE_NAME = keyName then mem_text J FIRMWARE_NAME (fw_name cfg) (fw_name cfg)
      else if WEBPA_INTERFACE = keyName then
        mem_text J WEBPA_INTERFACE (fw_name cfg) (webpa_interface_used cfg)
      else if WEBPA_URL = keyName then mem_text J WEBPA_URL (webpa_url cfg) (webpa_url cfg)
      else if WEBPA_PROTOCOL = keyName then
        mem_text J WEBPA_PROTOCOL (webpa_protocol cfg) (webpa_protocol cfg)
      else if WEBPA_UUID = keyName then mem_text J WEBPA_UUID (webpa_uuid cfg) (webpa_uuid cfg)
      else if CLOUD_STATUS = keyName then
        (case cloud_status cfg of
           None \<Rightarrow> (- 1, cJSON_CreateObject J)
         | Some s \<Rightarrow> mem_text J CLOUD_STATUS s s)
      else if BOOT_TIME = keyName then mem_num J BOOT_TIME (boot_time cfg)
      else if WEBPA_PING_TIMEOUT = keyName then mem_num J WEBPA_PING_TIMEOUT (webpa_ping_timeout cfg)
      else if WEBPA_BACKOFF_MAX = keyName then mem_num J WEBPA_BACKOFF_MAX (webpa_backoff_max cfg)
      else (- 1, cJSON_CreateObject J))"

definition SERVICE_STATUS :: string where "SERVICE_STATUS = ''service-status''"

definition getClientStatus :: "cjson_api \<Rightarrow> clients \<Rightarrow> string option \<Rightarrow> int \<times> cjson" where
  "getClientStatus J cl service =
     (case service of
        None \<Rightarrow> (- 1, cJSON_CreateObject J)
      | Some service \<Rightarrow>
          let regstatus = (if checkClientStatus service cl \<noteq> 0 then ''online'' else ''offline'')
          in (0, cJSON_AddItemToObject J (cJSON_CreateObject J) (Some SERVICE_STATUS)
                   (cJSON_CreateString J (Some regstatus))))"

text \<open>The answer from memory: \<open>inMem\<close> is the result of one of the two functions above.\<close>

definition retrieve_inmem :: "cjson_api \<Rightarrow> int \<times> cjson \<Rightarrow> crud_msg \<Rightarrow> crud_state \<Rightarrow> crud_result" where
  "retrieve_inmem J inMem resp st =
     (case inMem of (inMemStatus, inMemResponse) \<Rightarrow>
        if inMemStatus = 0 then
          then_run (deref (cJSON_PrintUnformatted J (Some inMemResponse))) (\<lambda>inmem_str.
            Inr (0, with_payload 200 inmem_str resp, st))
        else crud_fail 400 resp st)"

text \<open>All tags: every test object and its items are copied.\<close>

fun copy_tags_loop :: "cjson_api \<Rightarrow> cjson \<Rightarrow> nat list \<Rightarrow> cjson \<Rightarrow> fault + cjson" where
  "copy_tags_loop J tags [] obj = Inr obj"
| "copy_tags_loop J tags (i # is) obj =
     then_run (deref (cJSON_GetArrayItem J tags (int i))) (\<lambda>subitem.
     then_run (copy_resp_loop J subitem (indices J subitem) (cJSON_CreateObject J)) (\<lambda>subitemObj.
     copy_tags_loop J tags is (cJSON_AddItemToObject J obj (cj_string subitem) subitemObj)))"

definition retrieve_all ::
  "cjson_api \<Rightarrow> cjson \<Rightarrow> string \<Rightarrow> crud_msg \<Rightarrow> crud_state \<Rightarrow> crud_result" where
  "retrieve_all J paramArray name resp st =
     then_run (copy_tags_loop J paramArray (indices J paramArray) (cJSON_CreateObject J)) (\<lambda>childObj.
     let jsonresponse = cJSON_AddItemToObject J (cJSON_CreateObject J) (Some name) childObj in
     then_run (deref (cJSON_PrintUnformatted J (cJSON_GetObjectItem J (Some jsonresponse) ''tags''))) (\<lambda>str1.
     Inr (0, with_payload 200 str1 resp, st)))"

text \<open>One test object, found by its exact key.\<close>

definition retrieve_one ::
  "cjson_api \<Rightarrow> cjson \<Rightarrow> string \<Rightarrow> crud_msg \<Rightarrow> crud_state \<Rightarrow> crud_result" where
  "retrieve_one J paramArray name resp st =
     then_run (key_loop J paramArray name (indices J paramArray)) (\<lambda>found.
     case found of
       None \<Rightarrow> crud_fail 400 resp st
     | Some i \<Rightarrow>
         then_run (deref (cJSON_GetArrayItem J paramArray (int i))) (\<lambda>subitem.
         then_run (copy_resp_loop J subitem (indices J subitem) (cJSON_CreateObject J)) (\<lambda>jsonresponse.
         then_run (deref (cJSON_PrintUnformatted J (Some jsonresponse))) (\<lambda>str1.
         Inr (0, with_payload 200 str1 resp, st)))))"

definition retrieve_tags ::
  "cjson_api \<Rightarrow> cjson \<Rightarrow> int \<Rightarrow> slot list \<Rightarrow> crud_msg \<Rightarrow> crud_state \<Rightarrow> crud_result" where
  "retrieve_tags J json objlevel obj resp st =
     (case cJSON_GetObjectItem J (Some json) ''tags'' of
        None \<Rightarrow> crud_fail 400 resp st
      | Some paramArray \<Rightarrow>
          if cJSON_GetArraySize J paramArray = 0 then crud_fail 400 resp st
          else then_run (deref (cj_string paramArray)) (\<lambda>key.
               then_run (obj_str obj objlevel) (\<lambda>name.
               if key = name then retrieve_all J paramArray name resp st
               else then_run (slot_is obj 3 ''tag'') (\<lambda>b.
                 if b then retrieve_one J paramArray name resp st
                 else crud_fail 400 resp st))))"

text \<open>Whether the destination asks for something kept in memory.\<close>

definition is_inmem_dest :: "int \<Rightarrow> slot list \<Rightarrow> fault + bool" where
  "is_inmem_dest objlevel obj =
     (if objlevel = 3 then
        then_run (obj_at obj 3) (\<lambda>p. Inr (case p of None \<Rightarrow> False | Some s \<Rightarrow> \<not> strstr s ''tags''))
      else if objlevel = 4 then
        then_run (obj_at obj 3) (\<lambda>p. Inr (case p of None \<Rightarrow> False | Some s \<Rightarrow> strstr s ''service-status''))
      else Inr False)"

definition retrieveObject ::
  "cjson_api \<Rightarrow> wrp_api \<Rightarrow> crud_msg \<Rightarrow> crud_msg \<Rightarrow> crud_state \<Rightarrow> crud_result" where
  "retrieveObject J W req resp st =
     (case crud_dest req of
        None \<Rightarrow> crud_fail 400 resp st
      | Some dest \<Rightarrow>
          then_run (parse_dest_elements_to_string W dest) (\<lambda>(objlevel, obj).
          if objlevel < 0 then crud_fail 400 resp st
          else then_run (is_inmem_dest objlevel obj) (\<lambda>inmem.
            if inmem then
              then_run (obj_str obj 3) (\<lambda>key.
                if strstr key ''service-status'' then
                  then_run (obj_at obj 4) (\<lambda>service.
                    retrieve_inmem J (getClientStatus J (st_clients st) service) resp st)
                else retrieve_inmem J (retrieveFromMemory J (st_cfg st) key) resp st)
            else
              (case readFromJSON st of (status, jsonData) \<Rightarrow>
                 if status \<noteq> 0 then
                   if jsonData \<noteq> None \<and> jsonData \<noteq> Some [] then
                     (case cJSON_Parse J jsonData of
                        None \<Rightarrow> crud_fail 500 resp st
                      | Some json \<Rightarrow> retrieve_tags J json objlevel obj resp st)
                   else crud_fail 500 resp st
                 else crud_fail 500 resp st))))"

subsection \<open>Update\<close>

text \<open>
  The payload's items become the object \<open>name\<close> of the tags, which are then written; \<open>code\<close> is 200
  for a replacement and 201 for a new object.
\<close>

definition update_write ::
  "cjson_api \<Rightarrow> cjson \<Rightarrow> string \<Rightarrow> cjson \<Rightarrow> int \<Rightarrow> crud_msg \<Rightarrow> crud_state \<Rightarrow> crud_result" where
  "update_write J jsonPayload name tagObj code resp st =
     then_run (copy_loop J jsonPayload (indices J jsonPayload) (cJSON_CreateObject J)) (\<lambda>testObj.
     case testObj of
       None \<Rightarrow> crud_fail 400 resp st
     | Some testObj \<Rightarrow>
         finish_write (writeIntoCrudJson J (cJSON_CreateObject J) ''tags''
             (cJSON_AddItemToObject J tagObj (Some name) testObj) st)
           (resp\<lparr>crud_status := code\<rparr>))"

definition update_checked ::
  "cjson_api \<Rightarrow> cjson option \<Rightarrow> cjson \<Rightarrow> string \<Rightarrow> crud_msg \<Rightarrow> crud_state \<Rightarrow> crud_result" where
  "update_checked J json jsonPayload name resp st =
     (case cJSON_GetObjectItem J json ''tags'' of
        Some tagObj \<Rightarrow>
          (case cJSON_GetObjectItem J (Some tagObj) name of
             Some testObj \<Rightarrow>
               then_run (key_loop J tagObj name (indices J tagObj)) (\<lambda>found.
                 case found of
                   Some j \<Rightarrow>
                     update_write J jsonPayload name (cJSON_DeleteItemFromArray J tagObj (int j)) 200 resp st
                 | None \<Rightarrow> crud_fail 500 resp st)
           | None \<Rightarrow> update_write J jsonPayload name tagObj 201 resp st)
      | None \<Rightarrow> update_write J jsonPayload name (cJSON_CreateObject J) 201 resp st)"

text \<open>Letters and digits only (in the C locale).\<close>

fun all_alnum :: "string \<Rightarrow> bool" where
  "all_alnum [] = True"
| "all_alnum (c # s) = (if is_alpha_c c \<or> is_digit_c c then all_alnum s else False)"

definition validateDisconnectString :: "string option \<Rightarrow> int" where
  "validateDisconnectString reason =
     (case reason of
        None \<Rightarrow> - 1
      | Some s \<Rightarrow> if s \<noteq> [] then (if all_alnum s then 1 else - 1) else - 1)"

definition ConnDisconnectFromCloud :: "string \<Rightarrow> crud_state \<Rightarrow> int \<times> crud_state" where
  "ConnDisconnectFromCloud disconn_reason st =
     (if \<not> get_close_retry (st_flags st)
      then (1, st\<lparr>reconnect_reason := disconn_reason, reconnect_status := True,
                  st_flags := set_close_retry (st_flags st)\<rparr>)
      else (- 1, st))"

text \<open>The request \<open>.../parodus/cloud-disconnect\<close>.\<close>

definition cloud_disconnect_request ::
  "cjson_api \<Rightarrow> string option \<Rightarrow> crud_msg \<Rightarrow> crud_state \<Rightarrow> crud_result" where
  "cloud_disconnect_request J payload resp st =
     (case payload of
        None \<Rightarrow> crud_fail 400 resp st
      | Some _ \<Rightarrow>
          (case cJSON_Parse J payload of
             None \<Rightarrow> crud_fail 400 resp st
           | Some jsonPayload \<Rightarrow>
               (case cJSON_GetObjectItem J (Some jsonPayload) CLOUD_DISCONNECT_REASON of
                  None \<Rightarrow> crud_fail 400 resp st
                | Some item \<Rightarrow>
                    if cj_type item = cJSON_String then
                      if cj_valuestring item = Some [] then crud_fail 400 resp st
                      else if 0 < validateDisconnectString (cj_valuestring item) then
                        then_run (deref (cj_valuestring item)) (\<lambda>disconn_str.
                        let st = st\<lparr>st_cfg := set_cloud_disconnect_reason (st_cfg st) disconn_str\<rparr> in
                        (case ConnDisconnectFromCloud disconn_str st of (disconnStatus, st) \<Rightarrow>
                           if 0 < disconnStatus then Inr (0, resp\<lparr>crud_status := 200\<rparr>, st)
                           else crud_fail 500 resp st))
                      else crud_fail 400 resp st
                    else crud_fail 400 resp st)))"

definition updateObject ::
  "cjson_api \<Rightarrow> wrp_api \<Rightarrow> crud_msg \<Rightarrow> crud_msg \<Rightarrow> crud_state \<Rightarrow> crud_result" where
  "updateObject J W req resp st =
     (case load_json J st of
        None \<Rightarrow> crud_fail 500 resp st
      | Some json \<Rightarrow>
          (case crud_dest req of
             None \<Rightarrow> crud_fail 400 resp st
           | Some dest \<Rightarrow>
               then_run (parse_dest_elements_to_string W dest) (\<lambda>(objlevel, obj).
               if objlevel < 0 then crud_fail 400 resp st
               else then_run (is_tag_dest objlevel obj) (\<lambda>b.
                 if b then
                   then_run (check_payload J (crud_payload req)) (\<lambda>p.
                     case p of
                       None \<Rightarrow> crud_fail 400 resp st
                     | Some jsonPayload \<Rightarrow>
                         then_run (obj_str obj objlevel) (\<lambda>name.
                           update_checked J json jsonPayload name resp st))
                 else if objlevel = 3 then
                   then_run (slot_is obj 3 ''cloud-disconnect'') (\<lambda>disc.
                     if disc then cloud_disconnect_request J (crud_payload req) resp st
                     else crud_fail 400 resp st)
                 else crud_fail 400 resp st))))"

subsection \<open>Delete\<close>

text \<open>The file is rewritten; the result does not depend on whether that succeeds.\<close>

definition delete_write :: "cjson_api \<Rightarrow> cjson \<Rightarrow> crud_msg \<Rightarrow> crud_state \<Rightarrow> crud_result" where
  "delete_write J json resp st =
     Inr (0, resp, snd (writeToJSON (cJSON_PrintUnformatted J (Some json)) st))"

definition delete_tag ::
  "cjson_api \<Rightarrow> cjson \<Rightarrow> string \<Rightarrow> crud_msg \<Rightarrow> crud_state \<Rightarrow> crud_result" where
  "delete_tag J json name resp st =
     (case cJSON_GetObjectItem J (Some json) ''tags'' of
        None \<Rightarrow> crud_fail 400 resp st
      | Some paramArray \<Rightarrow>
          if cJSON_GetArraySize J paramArray = 0 then crud_fail 400 resp st
          else then_run (deref (cj_string paramArray)) (\<lambda>key.
               if key = name then crud_fail 400 resp st
               else then_run (key_loop J paramArray name (indices J paramArray)) (\<lambda>found.
                 case found of
                   None \<Rightarrow> crud_fail 400 resp st
                 | Some i \<Rightarrow>
                     delete_write J
                       (store_item J json ''tags'' (cJSON_DeleteItemFromArray J paramArray (int i)))
                       (resp\<lparr>crud_status := 200\<rparr>) st)))"

definition deleteObject ::
  "cjson_api \<Rightarrow> wrp_api \<Rightarrow> crud_msg \<Rightarrow> crud_msg \<Rightarrow> crud_state \<Rightarrow> crud_result" where
  "deleteObject J W req resp st =
     (case readFromJSON st of (status, jsonData) \<Rightarrow>
        if status \<noteq> 0 then
          if jsonData \<noteq> None \<and> jsonData \<noteq> Some [] then
            (case cJSON_Parse J jsonData of
               None \<Rightarrow> crud_fail 500 resp st
             | Some json \<Rightarrow>
                 (case crud_dest req of
                    None \<Rightarrow> crud_fail 400 resp st
                  | Some dest \<Rightarrow>
                      then_run (parse_dest_elements_to_string W dest) (\<lambda>(objlevel, obj).
                      if objlevel < 0 then crud_fail 400 resp st
                      else then_run (is_tag_dest objlevel obj) (\<lambda>b.
                        if \<not> b then crud_fail 400 resp st
                        else then_run (obj_str obj objlevel) (\<lambda>name.
                          delete_tag J json name resp st)))))
          else crud_fail 500 resp st
        else crud_fail 500 resp st)"

subsection \<open>Requests\<close>

definition no_payload :: "crud_msg \<Rightarrow> crud_msg" where
  "no_payload resp = resp\<lparr>crud_payload := None, crud_payload_size := 0\<rparr>"

text \<open>The response before the request is handled; \<^verbatim>\<open>strdup\<close> of a null pointer is a fault.\<close>

definition response_for :: "crud_msg \<Rightarrow> fault + crud_msg" where
  "response_for req =
     then_run (deref (transaction_uuid req)) (\<lambda>uuid.
     then_run (deref (crud_dest req)) (\<lambda>dest.
     then_run (deref (crud_source req)) (\<lambda>source.
     Inr \<lparr> msg_type = msg_type req, transaction_uuid = Some uuid, crud_source = Some dest,
           crud_dest = Some source, crud_payload = None, crud_payload_size = 0, crud_status = 0 \<rparr>)))"

definition processCrudRequest ::
  "cjson_api \<Rightarrow> wrp_api \<Rightarrow> crud_msg \<Rightarrow> crud_state \<Rightarrow> crud_result" where
  "processCrudRequest J W req st =
     then_run (response_for req) (\<lambda>resp.
     case msg_type req of
       WRP_MSG_TYPE__CREATE \<Rightarrow>
         then_run (createObject J W req resp st) (\<lambda>(ret, resp, st).
           if ret \<noteq> 0 then Inr (- 1, no_payload resp, st) else Inr (0, resp, st))
     | WRP_MSG_TYPE__RETREIVE \<Rightarrow>
         then_run (retrieveObject J W req resp st) (\<lambda>(ret, resp, st).
           if ret \<noteq> 0 then Inr (- 1, no_payload resp, st) else Inr (0, resp, st))
     | WRP_MSG_TYPE__UPDATE \<Rightarrow>
         then_run (updateObject J W req resp st) (\<lambda>(ret, resp, st).
           if ret = 0 then Inr (0, no_payload resp, st) else Inr (- 1, resp, st))
     | WRP_MSG_TYPE__DELETE \<Rightarrow>
         then_run (deleteObject J W req resp st) (\<lambda>(ret, resp, st).
           if ret = 0 then Inr (0, no_payload resp, st) else Inr (- 1, resp, st))
     | _ \<Rightarrow> Inr (0, resp, st))"

end
