(* ===== verification/Crud_Props.thy ===== *)
theory Crud_Props
  imports Crud
begin

text \<open>
  The properties of the CRUD handlers. Under the documented behaviour of the JSON library the index
  loops are list operations (\<open>loops\<close>); the tags in the file are a map from names to items (locale
  \<open>tag_store\<close>, interpreted on the lists of nodes the handlers work on), and the handlers are shown to
  be the operations of that map. \<open>result_ok\<close> and \<open>on_return\<close> carry what holds of every response
  without any assumption, \<open>runs\<close> the absence of faults.
\<close>

subsection \<open>Loops over the items of a node\<close>

definition keyed :: "cjson \<Rightarrow> bool" where
  "keyed p \<longleftrightarrow> list_all (\<lambda>c. cj_string c \<noteq> None) (cj_child p)"

text \<open>A number or a string, as it is copied into an object.\<close>

definition plain :: "cjson \<Rightarrow> bool" where
  "plain c \<longleftrightarrow> cj_type c = cJSON_Number \<or> cj_type c = cJSON_String"

definition copied :: "cjson \<Rightarrow> cjson" where
  "copied c = (if cj_type c = cJSON_Number then CJSON cJSON_Number (cj_string c) None (cj_valueint c) []
               else CJSON cJSON_String (cj_string c) (cj_valuestring c) 0 [])"

definition expires_ok :: "cjson list \<Rightarrow> bool" where
  "expires_ok cs \<longleftrightarrow>
     (case find (\<lambda>c. cj_type c = cJSON_Number \<and> cj_string c = Some ''expires'') cs of
        None \<Rightarrow> False | Some c \<Rightarrow> cj_valueint c \<noteq> 0)"

definition texts_ok :: "cjson list \<Rightarrow> bool" where
  "texts_ok cs \<longleftrightarrow> list_all (\<lambda>c. cj_string c \<noteq> Some [] \<and>
     \<not> (cj_type c = cJSON_String \<and> cj_valuestring c = Some [])) cs"

text \<open>A loop over the items of a node is a recursion over the list of its items.\<close>

lemma indices_eq: "cjson_documented J \<Longrightarrow> indices J p = [0 ..< length (cj_child p)]"
  by (simp add: indices_def documented_simps)

lemma expires_loop_from:
  assumes "cjson_documented J" "i \<le> length (cj_child p)"
  shows "expires_loop J p [i ..< length (cj_child p)] = Inr (expires_ok (drop i (cj_child p)))"
  using assms(2)
proof (induction "length (cj_child p) - i" arbitrary: i)
  case (Suc n)
  then show ?case
    by (simp add: upt_conv_Cons documented_simps [OF assms(1)] Cons_nth_drop_Suc [symmetric] expires_ok_def)
qed (simp add: expires_ok_def)

lemma strings_loop_from:
  assumes "cjson_documented J" "i \<le> length (cj_child p)"
  shows "strings_loop J p [i ..< length (cj_child p)] = Inr (texts_ok (drop i (cj_child p)))"
  using assms(2)
proof (induction "length (cj_child p) - i" arbitrary: i)
  case (Suc n)
  then show ?case
    by (simp add: upt_conv_Cons documented_simps [OF assms(1)] Cons_nth_drop_Suc [symmetric] texts_ok_def)
qed (simp add: texts_ok_def)

lemma copied_add:
  assumes "cjson_documented J" "cj_string c \<noteq> None"
  shows "cj_type c = cJSON_Number \<Longrightarrow>
      cJSON_AddItemToObject J obj (cj_string c) (cJSON_CreateNumber J (cj_valueint c)) =
        with_child obj (cj_child obj @ [copied c])"
    "cj_type c \<noteq> cJSON_Number \<Longrightarrow>
      cJSON_AddItemToObject J obj (cj_string c) (cJSON_CreateString J (cj_valuestring c)) =
        with_child obj (cj_child obj @ [copied c])"
  using assms by (auto simp: documented_simps copied_def with_key_def)

lemma copy_loop_from:
  assumes J: "cjson_documented J" and "i \<le> length (cj_child p)" "keyed p"
  shows "copy_loop J p [i ..< length (cj_child p)] obj =
    Inr (if list_all plain (drop i (cj_child p))
         then Some (with_child obj (cj_child obj @ map copied (drop i (cj_child p)))) else None)"
  using assms(2)
proof (induction "length (cj_child p) - i" arbitrary: i obj)
  case (Suc n)
  let ?c = "cj_child p ! i"
  have i: "i < length (cj_child p)" using Suc by simp
  with assms(3) have "cj_string ?c \<noteq> None" by (simp add: keyed_def list_all_length)
  from copied_add [OF J this] Suc i show ?case
    by (simp add: upt_conv_Cons documented_simps(3) [OF J] Cons_nth_drop_Suc [symmetric] plain_def
        cJSON_AddNumberToObject_def cJSON_AddStringToObject_def)
qed (simp add: with_child_def)

lemma copy_resp_loop_from:
  assumes J: "cjson_documented J" and "i \<le> length (cj_child p)" "keyed p"
  shows "copy_resp_loop J p [i ..< length (cj_child p)] obj =
    Inr (with_child obj (cj_child obj @ map copied (drop i (cj_child p))))"
  using assms(2)
proof (induction "length (cj_child p) - i" arbitrary: i obj)
  case (Suc n)
  let ?c = "cj_child p ! i"
  have i: "i < length (cj_child p)" using Suc by simp
  with assms(3) have "cj_string ?c \<noteq> None" by (simp add: keyed_def list_all_length)
  from copied_add [OF J this] Suc i show ?case
    by (simp add: upt_conv_Cons documented_simps(3) [OF J] Cons_nth_drop_Suc [symmetric])
qed (simp add: with_child_def)

definition key_index :: "string \<Rightarrow> cjson list \<Rightarrow> nat option" where
  "key_index name cs = find_index (\<lambda>c. cj_string c = Some name) cs"

lemma key_loop_from:
  assumes J: "cjson_documented J" and "i \<le> length (cj_child p)" "keyed p"
  shows "key_loop J p name [i ..< length (cj_child p)] =
    Inr (map_option (\<lambda>k. i + k) (key_index name (drop i (cj_child p))))"
  using assms(2)
proof (induction "length (cj_child p) - i" arbitrary: i)
  case (Suc n)
  let ?c = "cj_child p ! i"
  have i: "i < length (cj_child p)" using Suc by simp
  with assms(3) obtain k where "cj_string ?c = Some k" by (auto simp: keyed_def list_all_length)
  moreover have "(+) (Suc i) = (\<lambda>x. Suc (i + x))" by auto
  ultimately show ?case using Suc i
    by (simp add: upt_conv_Cons documented_simps(3) [OF J] Cons_nth_drop_Suc [symmetric] key_index_def
        option.map_comp comp_def)
qed (simp add: key_index_def)

lemmas loop_eqs = expires_loop_from [where i = 0, simplified] strings_loop_from [where i = 0, simplified]
  copy_loop_from [where i = 0, simplified] copy_resp_loop_from [where i = 0, simplified]
  key_loop_from [where i = 0, simplified]

lemma loops:
  assumes "cjson_documented J"
  shows "expires_loop J p (indices J p) = Inr (expires_ok (cj_child p))"
    "strings_loop J p (indices J p) = Inr (texts_ok (cj_child p))"
    "keyed p \<Longrightarrow> copy_loop J p (indices J p) obj =
       Inr (if list_all plain (cj_child p)
            then Some (with_child obj (cj_child obj @ map copied (cj_child p))) else None)"
    "keyed p \<Longrightarrow> copy_resp_loop J p (indices J p) obj =
       Inr (with_child obj (cj_child obj @ map copied (cj_child p)))"
    "keyed p \<Longrightarrow> key_loop J p name (indices J p) = Inr (key_index name (cj_child p))"
  using assms by (simp_all add: indices_eq loop_eqs option.map_ident)

subsection \<open>The tags as a map\<close>

definition tag_obj :: "string \<Rightarrow> cjson list \<Rightarrow> cjson" where
  "tag_obj name items = CJSON cJSON_Object (Some name) None 0 items"

definition tags_wf :: "cjson list \<Rightarrow> bool" where
  "tags_wf cs \<longleftrightarrow> list_all (\<lambda>c. cj_string c \<noteq> None) cs \<and> distinct (map cj_string cs)"

definition tag_lookup :: "string \<Rightarrow> cjson list \<Rightarrow> cjson list option" where
  "tag_lookup name cs = map_option cj_child (find (\<lambda>c. cj_string c = Some name) cs)"

definition del_tag :: "string \<Rightarrow> cjson list \<Rightarrow> cjson list" where
  "del_tag name cs = (case key_index name cs of None \<Rightarrow> cs | Some i \<Rightarrow> delete_at i cs)"


lemma del_tag_simps [simp]:
  "del_tag n [] = []"
  "del_tag n (c # cs) = (if cj_string c = Some n then cs else c # del_tag n cs)"
  by (auto simp: del_tag_def key_index_def split: option.splits)








subsection \<open>Requests for a tag\<close>

definition tag_request :: "wrp_api \<Rightarrow> string \<Rightarrow> string \<Rightarrow> bool" where
  "tag_request W dest name \<longleftrightarrow>
     (case parse_dest_elements_to_string W dest of
        Inl _ \<Rightarrow> False
      | Inr (objlevel, obj) \<Rightarrow> objlevel = 4 \<and> is_tag_dest 4 obj = Inr True \<and> obj_str obj 4 = Inr name)"

text \<open>The tags node of the parsed file, a new one where there is none.\<close>

definition base_tags :: "cjson_api \<Rightarrow> cjson option \<Rightarrow> cjson" where
  "base_tags J json =
     (case cJSON_GetObjectItem J json ''tags'' of None \<Rightarrow> cJSON_CreateObject J | Some t \<Rightarrow> t)"



lemma writeToJSON_ok:
  "writeToJSON data st = (w, st') \<Longrightarrow> w = 1 \<Longrightarrow> \<exists>d. data = Some d \<and> st' = st\<lparr>st_file := Some d\<rparr>"
  by (auto simp: writeToJSON_def split: if_splits option.splits)



lemma new_child [simp]: "cjson_documented J \<Longrightarrow> cj_child (cJSON_CreateObject J) = []"
  by (simp add: documented_simps)




lemma key_index_del: "key_index name cs = Some i \<Longrightarrow> del_tag name cs = delete_at i cs"
  by (simp add: del_tag_def)


definition loaded :: "cjson_api \<Rightarrow> crud_state \<Rightarrow> cjson option" where
  "loaded J st = (case load_json J st of None \<Rightarrow> None | Some json \<Rightarrow> json)"

text \<open>The test objects in the file.\<close>

definition file_tags :: "cjson_api \<Rightarrow> crud_state \<Rightarrow> cjson list" where
  "file_tags J st = cj_child (base_tags J (loaded J st))"


lemma loaded_Some:
  "st_file st = Some d \<Longrightarrow> d \<noteq> [] \<Longrightarrow> cJSON_Parse J (Some d) = Some json \<Longrightarrow> load_json J st = Some (Some json)"
  by (simp add: load_json_def readFromJSON_def)

lemma tag_request_parts:
  assumes "tag_request W dest name"
  obtains obj where "parse_dest_elements_to_string W dest = Inr (4, obj)" "is_tag_dest 4 obj = Inr True"
    "obj_str obj 4 = Inr name" "obj_at obj 3 = Inr (Some ''tag'')"
proof -
  from assms obtain obj where o: "parse_dest_elements_to_string W dest = Inr (4, obj)"
    "is_tag_dest 4 obj = Inr True" "obj_str obj 4 = Inr name"
    by (auto simp: tag_request_def split: sum.splits)
  from o(2) have "obj_at obj 3 = Inr (Some ''tag'')"
    by (auto simp: is_tag_dest_def slot_is_def then_run_Inr_iff split: if_splits)
  with o that show thesis by blast
qed






subsection \<open>Retrieving a tag\<close>

lemma key_index_lookup:
  "key_index name cs = None \<longleftrightarrow> tag_lookup name cs = None"
  "key_index name cs = Some i \<Longrightarrow> i < length cs \<and> tag_lookup name cs = Some (cj_child (cs ! i))"
proof -
  show "key_index name cs = None \<longleftrightarrow> tag_lookup name cs = None"
    by (induction cs) (auto simp: key_index_def tag_lookup_def)
  show "i < length cs \<and> tag_lookup name cs = Some (cj_child (cs ! i))" if "key_index name cs = Some i"
    using that
  proof (induction cs arbitrary: i)
    case (Cons c cs)
    then show ?case by (cases i) (auto simp: key_index_def tag_lookup_def split: if_splits)
  qed (simp add: key_index_def)
qed





lemma find_index_find:
  "find P xs = Some x \<Longrightarrow> \<exists>us vs. xs = us @ x # vs \<and> \<not> (\<exists>u\<in>set us. P u) \<and> P x"
  by (induction xs) (auto split: if_splits, metis append_Nil empty_iff list.set(1), metis append_Cons set_ConsD)

lemma store_item_tags:
  assumes J: "cjson_documented J" and t: "cJSON_GetObjectItem J (Some json) k = Some t"
    and key: "has_key k t'"
  shows "cJSON_GetObjectItem J (Some (store_item J json k t')) k = Some t'"
proof -
  obtain us vs where u: "cj_child json = us @ t # vs" "\<not> (\<exists>u\<in>set us. has_key k u)" "has_key k t"
    using t find_index_find [of "has_key k" "cj_child json" t] J by (auto simp: documented_simps)
  have "find_index (\<lambda>c. cJSON_GetObjectItem J (Some json) k = Some c) (us @ t # vs) = Some (length us)"
    using u(2,3) t
  proof (induction us)
    case (Cons a us)
    then have "a \<noteq> t" by auto
    with Cons show ?case by auto
  qed simp
  then have "store_item J json k t' = with_child json (us @ t' # vs)"
    by (simp add: store_item_def u(1))
  moreover have "find (has_key k) (us @ t' # vs) = Some t'"
    using u(2) key by (induction us) auto
  ultimately show ?thesis using J by (simp add: documented_simps)
qed

lemma deleteObject_success:
  assumes J: "cjson_documented J" and dest: "crud_dest req = Some dest" "tag_request W dest name"
    and base: "tags_wf (file_tags J st)"
    and ok: "deleteObject J W req resp st = Inr (0, resp1, st1)"
  shows "\<exists>doc. st1 = snd (writeToJSON (cJSON_PrintUnformatted J (Some doc)) st) \<and> crud_status resp1 = 200 \<and>
    tag_lookup name (file_tags J st) \<noteq> None \<and>
    cj_child (base_tags J (Some doc)) = del_tag name (file_tags J st)"
proof -
  obtain obj where o: "parse_dest_elements_to_string W dest = Inr (4, obj)" "is_tag_dest 4 obj = Inr True"
    "obj_str obj 4 = Inr name" using tag_request_parts [OF dest(2)] by metis
  obtain d json where f: "st_file st = Some d" "d \<noteq> []" "cJSON_Parse J (Some d) = Some json"
    and del: "delete_tag J json name resp st = Inr (0, resp1, st1)"
    using ok dest(1) o by (auto simp: deleteObject_def readFromJSON_def crud_fail_def then_run_Inr_iff
        split: option.splits if_splits)
  from loaded_Some [OF f] have l: "loaded J st = Some json" by (simp add: loaded_def)
  obtain t where t: "cJSON_GetObjectItem J (Some json) ''tags'' = Some t"
    using del by (auto simp: delete_tag_def crud_fail_def split: option.splits)
  then have ft: "file_tags J st = cj_child t" by (simp add: file_tags_def l base_tags_def)
  then have kt: "keyed t" using base by (simp add: keyed_def tags_wf_def)
  obtain i where i: "key_index name (cj_child t) = Some i"
    and w: "st1 = snd (writeToJSON (cJSON_PrintUnformatted J
        (Some (store_item J json ''tags'' (cJSON_DeleteItemFromArray J t (int i))))) st)"
      "crud_status resp1 = 200"
    using del t J kt by (auto simp: delete_tag_def loops delete_write_def crud_fail_def then_run_Inr_iff
        split: option.splits if_splits)
  note ki = key_index_lookup(2) [OF i]
  let ?t = "with_child t (del_tag name (cj_child t))"
  have dl: "cJSON_DeleteItemFromArray J t (int i) = ?t"
    using J ki key_index_del [OF i] by (simp add: documented_simps)
  have "has_key ''tags'' t" using t J find_index_find by (fastforce simp: documented_simps)
  then have hk: "has_key ''tags'' ?t" by (simp add: has_key_def)
  show ?thesis
    using w dl store_item_tags [OF J t hk] ki ft by (auto simp: base_tags_def)
qed

subsection \<open>Results\<close>

text \<open>
  What a handler that was given the response \<open>resp0\<close> in state \<open>st0\<close> may return: the return value
  goes with the status, the addresses are kept, and a refused request changes nothing.
\<close>

definition same_header :: "crud_msg \<Rightarrow> crud_msg \<Rightarrow> bool" where
  "same_header r s \<longleftrightarrow> msg_type r = msg_type s \<and> transaction_uuid r = transaction_uuid s \<and>
     crud_source r = crud_source s \<and> crud_dest r = crud_dest s"

definition result_ok :: "crud_msg \<Rightarrow> crud_state \<Rightarrow> crud_result \<Rightarrow> bool" where
  "result_ok resp0 st0 r \<longleftrightarrow> (case r of Inl _ \<Rightarrow> True | Inr (ret, resp, st) \<Rightarrow>
     (ret = 0 \<and> crud_status resp \<in> {200, 201} \<or> ret = - 1 \<and> crud_status resp \<in> {400, 409, 500}) \<and>
     same_header resp resp0 \<and> (ret = - 1 \<and> crud_status resp \<noteq> 500 \<longrightarrow> st = st0))"

lemma same_header_simps [simp]:
  "same_header r r" "same_header (r\<lparr>crud_status := c\<rparr>) s = same_header r s"
  "same_header (with_payload c txt r) s = same_header r s" "crud_status (with_payload c txt r) = c"
  "same_header (no_payload r) s = same_header r s" "crud_status (no_payload r) = crud_status r"
  "crud_payload (no_payload r) = None"
  by (simp_all add: same_header_def with_payload_def no_payload_def)

lemma result_ok_fail [simp]: "c \<in> {400, 409, 500} \<Longrightarrow> result_ok resp st (crud_fail c resp st)"
  by (auto simp: result_ok_def crud_fail_def)

lemma result_ok_fail_500 [simp]: "same_header resp resp0 \<Longrightarrow> result_ok resp0 st0 (crud_fail 500 resp st)"
  by (simp add: result_ok_def crud_fail_def)

lemma result_ok_then: "(\<And>x. m = Inr x \<Longrightarrow> result_ok resp st (k x)) \<Longrightarrow> result_ok resp st (then_run m k)"
  by (cases m) (simp_all add: result_ok_def)

lemma result_ok_done [simp]:
  "crud_status resp \<in> {200, 201} \<Longrightarrow> same_header resp resp0 \<Longrightarrow> result_ok resp0 st0 (Inr (0, resp, st))"
  by (simp add: result_ok_def)

lemma result_ok_finish [simp]:
  "crud_status resp \<in> {200, 201} \<Longrightarrow> same_header resp resp0 \<Longrightarrow> result_ok resp0 st0 (finish_write w resp)"
  by (cases w) (simp add: finish_write_def)

lemma createObject_result: "result_ok resp st (createObject J W req resp st)"
  unfolding createObject_def create_checked_def create_in_tags_def create_tags_def
  by (auto intro!: result_ok_then split: option.splits simp: Let_def)

lemma updateObject_result: "result_ok resp st (updateObject J W req resp st)"
  unfolding updateObject_def update_checked_def update_write_def cloud_disconnect_request_def
  by (auto intro!: result_ok_then split: option.splits prod.splits simp: Let_def)

lemma retrieveObject_result: "result_ok resp st (retrieveObject J W req resp st)"
  unfolding retrieveObject_def retrieve_inmem_def retrieve_tags_def retrieve_all_def retrieve_one_def
  by (auto intro!: result_ok_then split: option.splits prod.splits simp: Let_def)

lemma deleteObject_result: "result_ok resp st (deleteObject J W req resp st)"
  unfolding deleteObject_def delete_tag_def delete_write_def
  by (auto intro!: result_ok_then split: option.splits prod.splits simp: Let_def)

text \<open>Retrieving changes nothing, and updates and deletions leave the payload of the response alone.\<close>

lemma retrieveObject_state: "on_return (\<lambda>(ret, resp1, st1). st1 = st) (retrieveObject J W req resp st)"
  unfolding retrieveObject_def retrieve_inmem_def retrieve_tags_def retrieve_all_def retrieve_one_def
  by (auto intro!: on_return_then simp: crud_fail_def Let_def split: option.splits prod.splits)

lemma finish_write_payload:
  "crud_payload resp = pl \<Longrightarrow> on_return (\<lambda>(ret, resp1, st1). crud_payload resp1 = pl) (finish_write w resp)"
  by (auto simp: finish_write_def crud_fail_def split: prod.splits)

lemma updateObject_payload:
  "on_return (\<lambda>(ret, resp1, st1). crud_payload resp1 = crud_payload resp) (updateObject J W req resp st)"
  unfolding updateObject_def update_checked_def update_write_def cloud_disconnect_request_def
  by (auto intro!: on_return_then finish_write_payload simp: crud_fail_def Let_def split: option.splits prod.splits)

lemma deleteObject_payload:
  "on_return (\<lambda>(ret, resp1, st1). crud_payload resp1 = crud_payload resp) (deleteObject J W req resp st)"
  unfolding deleteObject_def delete_tag_def delete_write_def
  by (auto intro!: on_return_then simp: crud_fail_def Let_def split: option.splits prod.splits)

lemma response_for_Inr:
  "response_for req = Inr resp \<Longrightarrow> crud_payload resp = None \<and> msg_type resp = msg_type req \<and>
     transaction_uuid resp = transaction_uuid req \<and> crud_source resp = crud_dest req \<and>
     crud_dest resp = crud_source req"
  by (auto simp: response_for_def then_run_Inr_iff deref_def split: option.splits)

definition is_crud_type :: "msg_type \<Rightarrow> bool" where
  "is_crud_type ty \<longleftrightarrow> ty \<in> {WRP_MSG_TYPE__CREATE, WRP_MSG_TYPE__RETREIVE, WRP_MSG_TYPE__UPDATE, WRP_MSG_TYPE__DELETE}"

subsection \<open>No faults\<close>

text \<open>The wrp library splits a destination that has at least a scheme.\<close>

definition dest_ok :: "wrp_api \<Rightarrow> string \<Rightarrow> bool" where
  "dest_ok W dest \<longleftrightarrow> WRP_ID_ELEMENT__APPLICATION W = 3 \<and> wrp_get_msg_element W 0 dest \<noteq> None"

lemma replicate_5: "replicate 5 x = [x, x, x, x, x]"
  by (simp add: eval_nat_numeral)

lemma upt_4: "[0 ..< 4] = [0, Suc 0, 2, 3]" by (simp add: upt_rec)

text \<open>The elements before the first missing one are stored, and the missing one as a null pointer.\<close>

lemma dest_elements_cases:
  assumes "dest_ok W dest"
  obtains e0 where "wrp_get_msg_element W 0 dest = Some e0" "wrp_get_msg_element W 1 dest = None"
      "dest_elements W dest [0 ..< Suc (WRP_ID_ELEMENT__APPLICATION W)] (- 1) (replicate 5 Uninit) =
        (0, [Str e0, Null, Uninit, Uninit, Uninit])"
  | e0 e1 where "wrp_get_msg_element W 2 dest = None"
      "dest_elements W dest [0 ..< Suc (WRP_ID_ELEMENT__APPLICATION W)] (- 1) (replicate 5 Uninit) =
        (1, [Str e0, Str e1, Null, Uninit, Uninit])"
  | e0 e1 e2 where "wrp_get_msg_element W 3 dest = None"
      "dest_elements W dest [0 ..< Suc (WRP_ID_ELEMENT__APPLICATION W)] (- 1) (replicate 5 Uninit) =
        (2, [Str e0, Str e1, Str e2, Null, Uninit])"
  | e0 e1 e2 e3 where "wrp_get_msg_element W 3 dest = Some e3"
      "dest_elements W dest [0 ..< Suc (WRP_ID_ELEMENT__APPLICATION W)] (- 1) (replicate 5 Uninit) =
        (3, [Str e0, Str e1, Str e2, Str e3, Uninit])"
proof -
  obtain e0 where e0: "wrp_get_msg_element W 0 dest = Some e0" and app: "WRP_ID_ELEMENT__APPLICATION W = 3"
    using assms by (auto simp: dest_ok_def)
  show thesis
  proof (cases "wrp_get_msg_element W 1 dest")
    case None
    then show thesis using that(1) e0 app by (simp add: upt_4 replicate_5 slot_of_def)
  next
    case e1: (Some e1)
    show thesis
    proof (cases "wrp_get_msg_element W 2 dest")
      case None
      then show thesis using that(2) e0 e1 app by (simp add: upt_4 replicate_5 slot_of_def numeral_2_eq_2)
    next
      case e2: (Some e2)
      show thesis
        using that(3,4) e0 e1 e2 app
        by (cases "wrp_get_msg_element W 3 dest")
           (simp_all add: upt_4 replicate_5 slot_of_def numeral_2_eq_2 numeral_3_eq_3)
    qed
  qed
qed

text \<open>The array after parsing: what the handlers read is initialised.\<close>

definition slots_ok :: "int \<Rightarrow> slot list \<Rightarrow> bool" where
  "slots_ok rv obj \<longleftrightarrow> rv < 0 \<or>
     (rv \<le> 4 \<and> length obj = 5 \<and> (\<exists>s. obj ! nat rv = Str s) \<and> (\<forall>i. int i \<le> rv \<longrightarrow> obj ! i \<noteq> Uninit))"

lemma parse_dest_ok:
  assumes "dest_ok W dest"
  shows "\<exists>rv obj. parse_dest_elements_to_string W dest = Inr (rv, obj) \<and> slots_ok rv obj"
  by (rule dest_elements_cases [OF assms])
     (auto simp: parse_dest_elements_to_string_def obj_at_def slots_ok_def slot_of_def nth_Cons' Let_def
       split: option.splits)

lemma slots_ok_reads:
  assumes "slots_ok rv obj" "0 \<le> rv"
  shows "\<exists>s. obj_str obj rv = Inr s" "int i \<le> rv \<Longrightarrow> \<exists>p. obj_at obj i = Inr p"
    "int i \<le> rv \<Longrightarrow> \<exists>b. slot_is obj i s = Inr b"
proof -
  show a: "\<exists>p. obj_at obj i = Inr p" if "int i \<le> rv" for i
    using assms that by (cases "obj ! i") (auto simp: slots_ok_def obj_at_def)
  show "\<exists>s. obj_str obj rv = Inr s"
    using assms by (auto simp: slots_ok_def obj_str_def obj_at_def)
  show "\<exists>b. slot_is obj i s = Inr b" if "int i \<le> rv" using a [OF that] by (auto simp: slot_is_def)
qed

lemma is_tag_dest_reads:
  assumes "slots_ok rv obj" "0 \<le> rv" shows "\<exists>b. is_tag_dest rv obj = Inr b"
proof (cases "rv = 4")
  case True
  obtain b2 b3 where "slot_is obj 2 ''parodus'' = Inr b2" "slot_is obj 3 ''tag'' = Inr b3"
    using slots_ok_reads(3) [OF assms, of 2 "''parodus''"] slots_ok_reads(3) [OF assms, of 3 "''tag''"] True
    by auto
  with True show ?thesis by (cases b2) (auto simp: is_tag_dest_def)
qed (auto simp: is_tag_dest_def intro: exI [of _ False])

lemma check_payload_no_fault:
  "cjson_documented J \<Longrightarrow> \<exists>p. check_payload J pl = Inr p"
  by (auto simp: check_payload_def loops split: option.split)

lemma finish_write_no_fault: "\<exists>r. finish_write w resp = Inr r"
  by (auto simp: finish_write_def crud_fail_def split: prod.split)

lemma crud_runs [simp]: "runs (crud_fail c resp st)" "runs (finish_write w resp)"
  using finish_write_no_fault [of w resp] by (auto simp: crud_fail_def)

lemma create_checked_runs:
  assumes J: "cjson_documented J" and "keyed p" "keyed (base_tags J json)"
    and pr: "\<And>t. cJSON_PrintUnformatted J (Some t) \<noteq> None"
  shows "runs (create_checked J json p name resp st)"
proof -
  have d: "\<exists>s. deref (cJSON_PrintUnformatted J (Some t)) = Inr s" for t
    using pr [of t] by auto
  show ?thesis
    using assms(2,3) J
    by (auto simp: create_checked_def create_in_tags_def create_tags_def loops base_tags_def Let_def
        intro!: runs_then runs_ex [OF d] split: option.split)
qed

lemma update_checked_runs:
  assumes J: "cjson_documented J" and "keyed p" "keyed (base_tags J json)"
  shows "runs (update_checked J json p name resp st)"
  using assms(2,3) J
  by (auto simp: update_checked_def update_write_def loops base_tags_def split: option.split)

lemma cloud_disconnect_runs: "runs (cloud_disconnect_request J pl resp st)"
  by (auto simp: cloud_disconnect_request_def validateDisconnectString_def Let_def intro!: runs_then
      split: option.split prod.split)

lemma delete_tag_runs:
  assumes J: "cjson_documented J" and "keyed (base_tags J (Some json))"
  shows "runs (delete_tag J json name resp st)"
proof (cases "cJSON_GetObjectItem J (Some json) ''tags''")
  case (Some t)
  then have "has_key ''tags'' t" using J find_index_find by (fastforce simp: documented_simps)
  then obtain k where "cj_string t = Some k" by (auto simp: has_key_def split: option.splits)
  with Some assms show ?thesis
    by (auto simp: delete_tag_def loops base_tags_def delete_write_def split: option.split)
qed (simp add: delete_tag_def)

definition good_payload :: "cjson_api \<Rightarrow> string option \<Rightarrow> cjson \<Rightarrow> bool" where
  "good_payload J pl p \<longleftrightarrow> pl \<noteq> None \<and> cJSON_Parse J pl = Some p \<and> cj_child p \<noteq> [] \<and>
     expires_ok (cj_child p) \<and> texts_ok (cj_child p)"

lemma check_payload_good: "cjson_documented J \<Longrightarrow> good_payload J pl p \<Longrightarrow> check_payload J pl = Inr (Some p)"
  by (auto simp: check_payload_def good_payload_def loops documented_simps split: option.split)

lemma all_alnum_iff: "all_alnum s \<longleftrightarrow> (\<forall>c\<in>set s. is_alpha_c c \<or> is_digit_c c)"
  by (induction s) auto

subsection \<open>Concrete requests\<close>

text \<open>
  A destination, a payload with one item, the file after the tag \<open>x\<close> was created and after it was
  deleted, and a library that parses and prints these documents.
\<close>

definition sample_dest :: string where
  "sample_dest = ''mac:1/parodus/tag/x''"

definition sample_wrp :: wrp_api where
  "sample_wrp = \<lparr> wrp_get_msg_element = (\<lambda>i d. if i = 0 then Some ''mac'' else if i = 1 then Some ''1''
       else if i = 2 then Some ''parodus'' else if i = 3 then Some (drop 14 d) else None),
     WRP_ID_ELEMENT__APPLICATION = 3 \<rparr>"

definition sample_payload :: cjson where
  "sample_payload = CJSON cJSON_Object None None 0 [CJSON cJSON_Number (Some ''expires'') None 5 []]"

definition sample_doc :: cjson where
  "sample_doc = CJSON cJSON_Object None None 0 [CJSON cJSON_Object (Some ''tags'') None 0
     [tag_obj ''x'' [CJSON cJSON_Number (Some ''expires'') None 5 []]]]"

definition empty_doc :: cjson where
  "empty_doc = CJSON cJSON_Object None None 0 [CJSON cJSON_Object (Some ''tags'') None 0 []]"

definition sample_json :: cjson_api where
  "sample_json = ref_cjson
     (\<lambda>s. if s = ''P'' then Some sample_payload else if s = ''D'' then Some sample_doc
          else if s = ''E'' then Some empty_doc else None)
     (\<lambda>t. Some (if t = sample_doc then ''D'' else if t = empty_doc then ''E''
                 else if t = sample_payload then ''P'' else ''R''))"

definition sample_req :: crud_msg where
  "sample_req = \<lparr> msg_type = WRP_MSG_TYPE__CREATE, transaction_uuid = Some ''u'', crud_source = Some ''s'',
     crud_dest = Some sample_dest, crud_payload = Some ''P'', crud_payload_size = 1, crud_status = 0 \<rparr>"

definition sample_state :: "string option \<Rightarrow> crud_state" where
  "sample_state content = \<lparr> st_cfg = zero_cfg, st_file = content, st_writable = True,
     st_flags = \<lparr> heartBeatTimer = 0, paused = False, close_retry = False, interface_down_event = False \<rparr>,
     reconnect_reason = [], reconnect_status = False, st_clients = \<lparr> reg_list = [], numOfClients = 0 \<rparr> \<rparr>"

lemma sample_documented: "cjson_documented sample_json"
  unfolding sample_json_def by (rule ref_cjson_documented)

lemma sample_request: "tag_request sample_wrp sample_dest ''x''" "dest_ok sample_wrp sample_dest"
  by code_simp+

lemma sample_docs_distinct: "sample_doc \<noteq> empty_doc" "sample_payload \<noteq> sample_doc" "sample_payload \<noteq> empty_doc"
  by (simp_all add: sample_doc_def empty_doc_def sample_payload_def)

lemma sample_print:
  "cJSON_PrintUnformatted sample_json (Some t) = Some ''D'' \<longleftrightarrow> t = sample_doc"
  "cJSON_PrintUnformatted sample_json (Some t) = Some ''E'' \<longleftrightarrow> t = empty_doc"
  "cJSON_PrintUnformatted sample_json (Some t) \<noteq> None"
  using sample_docs_distinct by (auto simp: sample_json_def ref_cjson_def)

lemma sample_parse:
  "cJSON_Parse sample_json (Some ''P'') = Some sample_payload"
  "cJSON_Parse sample_json (Some ''D'') = Some sample_doc"
  "cJSON_Parse sample_json (Some ''E'') = Some empty_doc"
  by (simp_all add: sample_json_def ref_cjson_def)


lemma sample_keyed: "keyed sample_payload" "tags_wf (file_tags sample_json (sample_state (Some ''D'')))"
  "tags_wf (file_tags sample_json (sample_state None))"
  "list_all keyed (file_tags sample_json (sample_state None))"
  by code_simp+

subsection \<open>Properties\<close>










lemma processCrudRequest_result:
  assumes "processCrudRequest J W req st = Inr (ret, resp, st')" "is_crud_type (msg_type req)"
  shows "(ret = 0 \<and> crud_status resp \<in> {200, 201} \<or>
      ret = - 1 \<and> crud_status resp \<in> {400, 409, 500} \<and> crud_payload resp = None) \<and>
    (ret = - 1 \<and> crud_status resp \<noteq> 500 \<or> msg_type req = WRP_MSG_TYPE__RETREIVE \<longrightarrow> st' = st) \<and>
    msg_type resp = msg_type req \<and> transaction_uuid resp = transaction_uuid req \<and>
    crud_source resp = crud_dest req \<and> crud_dest resp = crud_source req"
proof -
  obtain resp0 where r0: "response_for req = Inr resp0" using assms(1)
    by (auto simp: processCrudRequest_def then_run_Inr_iff)
  note h = response_for_Inr [OF r0]
  note split = createObject_result [of resp0 st J W req] retrieveObject_result [of resp0 st J W req]
    updateObject_result [of resp0 st J W req] deleteObject_result [of resp0 st J W req]
    updateObject_payload [of resp0 J W req st] deleteObject_payload [of resp0 J W req st]
    retrieveObject_state [of st J W req resp0]
  consider "msg_type req = WRP_MSG_TYPE__CREATE" | "msg_type req = WRP_MSG_TYPE__RETREIVE"
    | "msg_type req = WRP_MSG_TYPE__UPDATE" | "msg_type req = WRP_MSG_TYPE__DELETE"
    using assms(2) by (auto simp: is_crud_type_def)
  then show ?thesis
  proof cases
    case 1
    with assms(1) r0 obtain ret1 resp1 where r: "createObject J W req resp0 st = Inr (ret1, resp1, st')"
      "ret = (if ret1 \<noteq> 0 then - 1 else 0)" "resp = (if ret1 \<noteq> 0 then no_payload resp1 else resp1)"
      by (auto simp: processCrudRequest_def then_run_Inr_iff split: if_splits)
    with split(1) h 1 show ?thesis by (auto simp: result_ok_def same_header_def no_payload_def)
  next
    case 2
    with assms(1) r0 obtain ret1 resp1 where r: "retrieveObject J W req resp0 st = Inr (ret1, resp1, st')"
      "ret = (if ret1 \<noteq> 0 then - 1 else 0)" "resp = (if ret1 \<noteq> 0 then no_payload resp1 else resp1)"
      by (auto simp: processCrudRequest_def then_run_Inr_iff split: if_splits)
    with split(2,7) h 2 show ?thesis by (auto simp: result_ok_def same_header_def no_payload_def)
  next
    case 3
    with assms(1) r0 obtain ret1 resp1 where r: "updateObject J W req resp0 st = Inr (ret1, resp1, st')"
      "ret = (if ret1 = 0 then 0 else - 1)" "resp = (if ret1 = 0 then no_payload resp1 else resp1)"
      by (auto simp: processCrudRequest_def then_run_Inr_iff split: if_splits)
    with split(3,5) h 3 show ?thesis by (auto simp: result_ok_def same_header_def no_payload_def)
  next
    case 4
    with assms(1) r0 obtain ret1 resp1 where r: "deleteObject J W req resp0 st = Inr (ret1, resp1, st')"
      "ret = (if ret1 = 0 then 0 else - 1)" "resp = (if ret1 = 0 then no_payload resp1 else resp1)"
      by (auto simp: processCrudRequest_def then_run_Inr_iff split: if_splits)
    with split(4,6) h 4 show ?thesis by (auto simp: result_ok_def same_header_def no_payload_def)
  qed
qed

text \<open>
  C13. Every CRUD request that is processed gets a consistent response: 0 with status 200 or 201, or \<open>-1\<close> with
  status 400, 409 or 500 and no payload; addresses are swapped and the transaction is kept; a
  RETRIEVE and a refused request (any failure but 500) change nothing.
\<close>

theorem crud_response_consistent:
  assumes "processCrudRequest J W req st = Inr (ret, resp, st')" "is_crud_type (msg_type req)"
  shows "(ret = 0 \<and> crud_status resp \<in> {200, 201} \<or>
      ret = - 1 \<and> crud_status resp \<in> {400, 409, 500} \<and> crud_payload resp = None) \<and>
    (ret = - 1 \<and> crud_status resp \<noteq> 500 \<or> msg_type req = WRP_MSG_TYPE__RETREIVE \<longrightarrow> st' = st) \<and>
    msg_type resp = msg_type req \<and> transaction_uuid resp = transaction_uuid req \<and>
    crud_source resp = crud_dest req \<and> crud_dest resp = crud_source req"
  using processCrudRequest_result [OF assms] .

theorem crud_response_consistent_witness:
  "\<exists>resp st'. processCrudRequest sample_json sample_wrp sample_req (sample_state (Some ''D'')) = Inr (- 1, resp, st') \<and>
     crud_status resp \<in> {400, 409, 500} \<and> crud_payload resp = None"
proof -
  have "case processCrudRequest sample_json sample_wrp sample_req (sample_state (Some ''D'')) of
      Inl _ \<Rightarrow> False | Inr (ret, resp, st') \<Rightarrow> ret = - 1" by code_simp
  then obtain resp st' where r: "processCrudRequest sample_json sample_wrp sample_req (sample_state (Some ''D'')) =
      Inr (- 1, resp, st')" by (auto split: sum.splits)
  have "is_crud_type (msg_type sample_req)" by (simp add: is_crud_type_def sample_req_def)
  from crud_response_consistent [OF r this] r show ?thesis by auto
qed

text \<open>
  A CREATE with a valid payload for a tag that exists is refused with 409 and changes nothing. A name
  that differs from an existing one in case only is refused too, but with 500: the lookup ignores
  case and the comparison that follows does not.
\<close>

lemma create_existing_refused:
  assumes J: "cjson_documented J" and dest: "crud_dest req = Some dest" "tag_request W dest name"
    and pl: "good_payload J (crud_payload req) p" and l: "load_json J st = Some json"
    and base: "keyed (base_tags J json)" "find (has_key name) (cj_child (base_tags J json)) \<noteq> None"
  shows "createObject J W req resp st =
    crud_fail (if tag_lookup name (cj_child (base_tags J json)) \<noteq> None then 409 else 500) resp st"
proof -
  obtain obj where o: "parse_dest_elements_to_string W dest = Inr (4, obj)" "is_tag_dest 4 obj = Inr True"
    "obj_str obj 4 = Inr name" using tag_request_parts [OF dest(2)] by metis
  have "cJSON_GetObjectItem J json ''tags'' \<noteq> None"
    using base(2) J by (auto simp: base_tags_def split: option.splits)
  then obtain t where t: "cJSON_GetObjectItem J json ''tags'' = Some t" "base_tags J json = t"
    by (auto simp: base_tags_def)
  obtain c where c: "find (has_key name) (cj_child t) = Some c" using base(2) t(2) by blast
  have "create_checked J json p name resp st =
      crud_fail (if tag_lookup name (cj_child t) \<noteq> None then 409 else 500) resp st"
    using t c base(1) J key_index_lookup(1) [of name "cj_child t"]
    by (auto simp: create_checked_def documented_simps(5) loops split: option.split)
  then show ?thesis
    using l dest(1) o check_payload_good [OF J pl] t(2) by (simp add: createObject_def)
qed

lemma create_existing_refused_witness:
  "createObject sample_json sample_wrp sample_req sample_req (sample_state (Some ''D'')) =
     crud_fail 409 sample_req (sample_state (Some ''D''))"
proof -
  have l: "load_json sample_json (sample_state (Some ''D'')) = Some (Some sample_doc)"
    by (simp add: load_json_def readFromJSON_def sample_state_def sample_parse)
  have g: "good_payload sample_json (crud_payload sample_req) sample_payload"
    "keyed (base_tags sample_json (Some sample_doc))"
    "find (has_key ''x'') (cj_child (base_tags sample_json (Some sample_doc))) \<noteq> None"
    "tag_lookup ''x'' (cj_child (base_tags sample_json (Some sample_doc))) \<noteq> None" by code_simp+
  have d: "crud_dest sample_req = Some sample_dest" by (simp add: sample_req_def)
  show ?thesis
    using create_existing_refused [OF sample_documented d sample_request(1) g(1) l g(2,3), of sample_req] g(4) by simp
qed

text \<open>
  C19. For a destination that has a scheme, documents whose objects have keys, and a printer that does not
  fail, CREATE, UPDATE and DELETE never leave defined behaviour: no null pointer, no uninitialised
  element of the path and no index out of bounds is read. Without the first of these conditions they do
  (\<open>no_scheme_faults\<close> below).
\<close>

theorem tag_requests_no_fault:
  assumes J: "cjson_documented J" and W: "dest_ok W dest" "crud_dest req = Some dest"
    and pr: "\<And>t. cJSON_PrintUnformatted J (Some t) \<noteq> None"
    and keys: "\<And>p. cJSON_Parse J (crud_payload req) = Some p \<Longrightarrow> keyed p" "keyed (base_tags J (loaded J st))"
  shows "runs (createObject J W req resp st) \<and> runs (updateObject J W req resp st) \<and>
    runs (deleteObject J W req resp st)"
proof -
  obtain rv obj where o: "parse_dest_elements_to_string W dest = Inr (rv, obj)" "slots_ok rv obj"
    using parse_dest_ok [OF W(1)] by blast
  have keyed: "keyed p" if "check_payload J (crud_payload req) = Inr (Some p)" for p
    using that keys(1) by (auto simp: check_payload_def then_run_Inr_iff split: option.splits if_splits)
  have base: "keyed (base_tags J json)" if "load_json J st = Some json" for json
    using that keys(2) by (simp add: loaded_def)
  have reads: "0 \<le> rv \<Longrightarrow> runs (is_tag_dest rv obj)" "0 \<le> rv \<Longrightarrow> runs (obj_str obj rv)"
    "3 \<le> rv \<Longrightarrow> runs (slot_is obj 3 s)" for s
    using is_tag_dest_reads [OF o(2)] slots_ok_reads [OF o(2)] by (auto intro!: runs_ex)
  note check = runs_ex [OF check_payload_no_fault [OF J]]
  have "runs (createObject J W req resp st)"
    using W(2) o(1) create_checked_runs [OF J keyed base pr]
    by (auto simp: createObject_def not_less intro!: runs_then reads check split: option.split)
  moreover have "runs (updateObject J W req resp st)"
    using W(2) o(1) update_checked_runs [OF J keyed base] cloud_disconnect_runs reads
    by (auto simp: updateObject_def not_less intro!: runs_then check split: option.split)
  moreover have "runs (deleteObject J W req resp st)"
  proof (cases "st_file st = None \<or> st_file st = Some []")
    case False
    then obtain d where d: "st_file st = Some d" "d \<noteq> []" by auto
    show ?thesis
      using W(2) o(1) d delete_tag_runs [OF J base [OF loaded_Some [OF d]]]
      by (auto simp: deleteObject_def readFromJSON_def not_less intro!: runs_then reads split: option.split)
  qed (auto simp: deleteObject_def readFromJSON_def)
  ultimately show ?thesis by blast
qed

theorem tag_requests_no_fault_witness:
  "runs (createObject sample_json sample_wrp sample_req sample_req (sample_state (Some ''D'')))"
proof -
  have d: "crud_dest sample_req = Some sample_dest" by (simp add: sample_req_def)
  have k: "keyed p" if "cJSON_Parse sample_json (crud_payload sample_req) = Some p" for p
    using that sample_keyed(1) by (simp add: sample_req_def sample_parse)
  have b: "keyed (base_tags sample_json (loaded sample_json (sample_state (Some ''D''))))" by code_simp
  show ?thesis
    using tag_requests_no_fault [OF sample_documented sample_request(2) d sample_print(3) k b] by blast
qed

text \<open>
  A destination without a first element: the array of the elements is read in front of its beginning, by each
  of the three operations that gets as far as the destination.
\<close>

lemma no_scheme_faults:
  assumes "wrp_get_msg_element W 0 dest = None" "crud_dest req = Some dest"
  shows "parse_dest_elements_to_string W dest = Inl OutOfBounds"
    "load_json J st \<noteq> None \<Longrightarrow> createObject J W req resp st = Inl OutOfBounds"
    "load_json J st \<noteq> None \<Longrightarrow> updateObject J W req resp st = Inl OutOfBounds"
    "load_json J st \<noteq> None \<Longrightarrow> st_file st \<noteq> None \<Longrightarrow> st_file st \<noteq> Some [] \<Longrightarrow> deleteObject J W req resp st = Inl OutOfBounds"
proof -
  show p: "parse_dest_elements_to_string W dest = Inl OutOfBounds"
    using assms(1) by (simp add: parse_dest_elements_to_string_def upt_rec Let_def)
  show "load_json J st \<noteq> None \<Longrightarrow> createObject J W req resp st = Inl OutOfBounds"
    "load_json J st \<noteq> None \<Longrightarrow> updateObject J W req resp st = Inl OutOfBounds"
    using assms(2) p by (auto simp: createObject_def updateObject_def)
  show "load_json J st \<noteq> None \<Longrightarrow> st_file st \<noteq> None \<Longrightarrow> st_file st \<noteq> Some [] \<Longrightarrow> deleteObject J W req resp st = Inl OutOfBounds"
    using assms(2) p by (auto simp: deleteObject_def load_json_def readFromJSON_def split: option.splits)
qed

text \<open>
  A cloud-disconnect request that is not refused with 400 names a reason of letters and digits, which
  becomes the configured disconnect reason. It asks for a reconnect and answers 200, unless a
  reconnect is already under way: then it answers 500, but has replaced the disconnect reason.
\<close>

lemma cloud_disconnect_effect:
  assumes "cloud_disconnect_request J pl resp st = Inr (ret, resp1, st1)" "crud_status resp1 \<noteq> 400"
  shows "\<exists>reason. reason \<noteq> [] \<and> (\<forall>c\<in>set reason. is_alpha_c c \<or> is_digit_c c) \<and>
    cloud_disconnect (st_cfg st1) = Some reason \<and> get_close_retry (st_flags st1) \<and>
    (if get_close_retry (st_flags st)
     then ret = - 1 \<and> crud_status resp1 = 500 \<and> reconnect_reason st1 = reconnect_reason st
     else ret = 0 \<and> crud_status resp1 = 200 \<and> reconnect_reason st1 = reason)"
  using assms
  by (auto simp: cloud_disconnect_request_def crud_fail_def validateDisconnectString_def then_run_Inr_iff
      Let_def ConnDisconnectFromCloud_def set_cloud_disconnect_reason_def all_alnum_iff
      get_close_retry_def set_close_retry_def split: option.splits if_splits)

definition disconnect_json :: cjson_api where
  "disconnect_json = ref_cjson (\<lambda>s. Some (CJSON cJSON_Object None None 0
     [CJSON cJSON_String (Some ''disconnection-reason'') (Some s) 0 []])) (\<lambda>_. None)"

lemma cloud_disconnect_effect_witness:
  "\<exists>resp1 st1. cloud_disconnect_request disconnect_json (Some ''reboot'') sample_req (sample_state None) = Inr (0, resp1, st1) \<and>
     cloud_disconnect (st_cfg st1) \<noteq> None"
proof -
  have "case cloud_disconnect_request disconnect_json (Some ''reboot'') sample_req (sample_state None) of
      Inl _ \<Rightarrow> False | Inr (ret, resp1, st1) \<Rightarrow> ret = 0 \<and> crud_status resp1 \<noteq> 400" by code_simp
  then obtain resp1 st1 where r: "cloud_disconnect_request disconnect_json (Some ''reboot'') sample_req (sample_state None) =
      Inr (0, resp1, st1)" "crud_status resp1 \<noteq> 400" by (auto split: sum.splits)
  from cloud_disconnect_effect [OF r] r(1) show ?thesis by auto
qed

text \<open>
  When the file cannot be opened for writing, a DELETE still answers 200 although the tag is still there.
\<close>

lemma delete_unwritten:
  assumes "cjson_documented J" "crud_dest req = Some dest" "tag_request W dest name"
    "tags_wf (file_tags J st)" "deleteObject J W req resp st = Inr (0, resp1, st1)" "\<not> st_writable st"
  shows "crud_status resp1 = 200 \<and> st1 = st \<and> tag_lookup name (file_tags J st1) \<noteq> None"
  using deleteObject_success [OF assms(1-5)] assms(6) by (auto simp: writeToJSON_def)

lemma delete_unwritten_witness:
  "\<exists>resp1. deleteObject sample_json sample_wrp sample_req sample_req ((sample_state (Some ''D''))\<lparr>st_writable := False\<rparr>) =
      Inr (0, resp1, (sample_state (Some ''D''))\<lparr>st_writable := False\<rparr>) \<and> crud_status resp1 = 200"
proof -
  let ?st = "(sample_state (Some ''D''))\<lparr>st_writable := False\<rparr>"
  have d: "crud_dest sample_req = Some sample_dest" "\<not> st_writable ?st" by (simp_all add: sample_req_def)
  have w: "tags_wf (file_tags sample_json ?st)" by code_simp
  have r: "deleteObject sample_json sample_wrp sample_req sample_req ?st = Inr (0, sample_req\<lparr>crud_status := 200\<rparr>, ?st)"
    by code_simp
  from delete_unwritten [OF sample_documented d(1) sample_request(1) w r d(2)] r show ?thesis by auto
qed

text \<open>
  A RETRIEVE of \<open>.../parodus/service-status\<close> without a service reads an element of the path that was never
  assigned.
\<close>

lemma service_status_uninit:
  assumes "WRP_ID_ELEMENT__APPLICATION W = 3" "\<forall>i<4. wrp_get_msg_element W i dest \<noteq> None"
    and "wrp_get_msg_element W 3 dest = Some key" "CHR ''/'' \<notin> set key" "strstr key ''service-status''"
      "\<not> strstr key ''tags''" "crud_dest req = Some dest"
  shows "retrieveObject J W req resp st = Inl UninitRead"
proof -
  have ok: "dest_ok W dest" using assms(1,2) by (simp add: dest_ok_def)
  have ne: "wrp_get_msg_element W 1 dest \<noteq> None" "wrp_get_msg_element W 2 dest \<noteq> None" using assms(2) by auto
  have nk: "strchr key (CHR ''/'') = None" using assms(4) strchr_None_iff by blast
  have "\<exists>e0 e1 e2. parse_dest_elements_to_string W dest = Inr (3, [Str e0, Str e1, Str e2, Str key, Uninit])"
    by (rule dest_elements_cases [OF ok])
       (use assms(3) ne in \<open>auto simp: parse_dest_elements_to_string_def obj_at_def nk nth_Cons'\<close>)
  then show ?thesis
    using assms(5-7) by (auto simp: retrieveObject_def is_inmem_dest_def obj_at_def obj_str_def nth_Cons')
qed

lemma service_status_uninit_witness:
  "retrieveObject sample_json sample_wrp (sample_req\<lparr>crud_dest := Some ''mac:1/parodus/service-status''\<rparr>) sample_req
     (sample_state None) = Inl UninitRead"
proof -
  let ?d = "''mac:1/parodus/service-status''"
  have e: "\<forall>i<4. wrp_get_msg_element sample_wrp i ?d \<noteq> None" "WRP_ID_ELEMENT__APPLICATION sample_wrp = 3"
    "wrp_get_msg_element sample_wrp 3 ?d = Some ''service-status''"
    by (auto simp: sample_wrp_def less_Suc_eq numeral_eq_Suc)
  have s: "strstr ''service-status'' ''service-status''" "\<not> strstr ''service-status'' ''tags''" by code_simp+
  show ?thesis
    using service_status_uninit [OF e(2,1,3) _ s, of "sample_req\<lparr>crud_dest := Some ?d\<rparr>"] by simp
qed

text \<open>
  Whether \<open>webpa-interface-used\<close> can be retrieved depends on the firmware name, not on the interface.
\<close>

lemma retrieve_interface_check:
  "fst (retrieveFromMemory J cfg ''webpa-interface-used'') = (if fw_name cfg = [] then - 1 else 0)"
  by (simp add: retrieveFromMemory_def mem_text_def HW_MODELNAME_def HW_SERIALNUMBER_def HW_MANUFACTURER_def
      HW_DEVICEMAC_def HW_LAST_REBOOT_REASON_def FIRMWARE_NAME_def WEBPA_INTERFACE_def)

end
