(* ===== verification/Downstream.thy ===== *)
theory Downstream
  imports Crud Partners Msg_Queue
begin

text \<open>
  \<^verbatim>\<open>downstream.c\<close>: a message from the server is checked for partner ids and goes to the registered
  client its destination names, to the CRUD queue, or back to the server as an error; and
  \<open>sendUpstreamMsgToServer\<close> of \<^verbatim>\<open>upstream.c\<close>, which sends to the server.

  A decoded message is given by its type, the fields of the union member its type selects, and the
  fields read through \<open>u.crud\<close>, which the code also reads for requests and events. The encoder, the
  metadata and the connection are parameters. The handler returns the list of its effects.
\<close>

record wrp_crud = crud_msg +
  crud_partner_ids :: "string list option"
  crud_headers :: "string list option"
  crud_metadata :: "(slot \<times> slot) list option"
  include_spans :: bool
  content_type :: "string option"
  crud_rdr :: int
  crud_path :: "string option"

record wrp_msg =
  wm_type :: msg_type
  wm_partner_ids :: "string list option"
  event_dest :: "string option"
  req_source :: "string option"
  req_dest :: "string option"
  req_transaction_uuid :: "string option"
  wm_crud :: wrp_crud

text \<open>The response the handler builds for the server.\<close>

record down_resp =
  dr_type :: msg_type
  dr_source :: "string option"
  dr_dest :: "string option"
  dr_transaction_uuid :: "string option"
  dr_path :: "string option"
  dr_payload :: string

datatype effect =
    SendClient int string nat        \<comment> \<open>socket, bytes and size given to \<^verbatim>\<open>nn_send\<close>\<close>
  | QueueCrud wrp_crud               \<comment> \<open>given to \<open>addCRUDmsgToQueue\<close>\<close>
  | SendServer string nat            \<comment> \<open>bytes and size given to \<open>sendMessage\<close>\<close>

subsection \<open>Sending to the server\<close>

text \<open>
  The packed metadata and \<open>appendEncodedData\<close>. \<open>metaPackSize\<close> is a \<^verbatim>\<open>size_t\<close>.
\<close>

record meta =
  metadataPack :: string
  metaPackSize :: "64 word"
  appendEncodedData :: "string \<Rightarrow> nat \<Rightarrow> string \<Rightarrow> 64 word \<Rightarrow> string \<times> nat"

definition sendUpstreamMsgToServer :: "meta \<Rightarrow> ParodusCfg \<Rightarrow> flags \<Rightarrow> string \<Rightarrow> nat \<Rightarrow> effect list" where
  "sendUpstreamMsgToServer mt cfg fl resp_bytes resp_size =
     (if 0 < metaPackSize mt then
        case appendEncodedData mt resp_bytes resp_size (metadataPack mt) (metaPackSize mt) of
          (appendData, encodedSize) \<Rightarrow>
            if \<not> get_close_retry fl \<or> cloud_disconnect cfg \<noteq> None
            then [SendServer appendData encodedSize] else []
      else [])"

subsection \<open>Destinations\<close>

text \<open>\<^verbatim>\<open>strtok(s, "/")\<close>: the next token and what follows its delimiter.\<close>

definition strtok :: "string \<Rightarrow> (string \<times> string) option" where
  "strtok s =
     (let t = dropWhile (\<lambda>c. c = CHR ''/'') s in
      if t = [] then None
      else Some (takeWhile (\<lambda>c. c \<noteq> CHR ''/'') t, tl (dropWhile (\<lambda>c. c \<noteq> CHR ''/'') t)))"

text \<open>
  The content of \<open>dest\<close>: the second element of the destination or, if there is none, \<open>destVal\<close>,
  which the first \<^verbatim>\<open>strtok\<close> has cut off behind its first token.
\<close>

definition down_dest :: "string \<Rightarrow> string" where
  "down_dest destVal =
     (case strtok destVal of
        None \<Rightarrow> parStrncpy destVal 32
      | Some (tempDest, rest) \<Rightarrow>
          (case strtok rest of
             Some (newDest, _) \<Rightarrow> parStrncpy newDest 32
           | None \<Rightarrow> parStrncpy (takeWhile (\<lambda>c. c = CHR ''/'') destVal @ tempDest) 32))"

subsection \<open>Messages for the CRUD queue\<close>

definition copy_list :: "'a list option \<Rightarrow> 'a list option" where
  "copy_list l = (case l of Some (x # xs) \<Rightarrow> Some (x # xs) | _ \<Rightarrow> None)"

text \<open>
  The items of the new metadata come from \<^verbatim>\<open>malloc\<close>, and a name or value is assigned only where the
  old one is not null.
\<close>

definition copy_slot :: "slot \<Rightarrow> slot" where
  "copy_slot p = (case p of Null \<Rightarrow> Uninit | _ \<Rightarrow> p)"

text \<open>\<^verbatim>\<open>strdup\<close> copies the payload up to its first null byte; the size is taken over.\<close>

definition createNewMsgForCRUD :: "msg_type \<Rightarrow> wrp_crud \<Rightarrow> wrp_crud" where
  "createNewMsgForCRUD ty message = \<lparr>
     msg_type = ty, transaction_uuid = transaction_uuid message, crud_source = crud_source message,
     crud_dest = crud_dest message, crud_payload = map_option cstr (crud_payload message),
     crud_payload_size = crud_payload_size message, crud_status = crud_status message,
     crud_partner_ids = copy_list (crud_partner_ids message),
     crud_headers = copy_list (crud_headers message),
     crud_metadata = map_option (map (map_prod copy_slot copy_slot)) (copy_list (crud_metadata message)),
     include_spans = include_spans message, content_type = content_type message,
     crud_rdr = crud_rdr message, crud_path = crud_path message \<rparr>"

subsection \<open>The handler\<close>

definition partner_view :: "wrp_msg \<Rightarrow> partner_msg" where
  "partner_view m =
     (case wm_type m of
        WRP_MSG_TYPE__EVENT \<Rightarrow> EventMsg (wm_partner_ids m)
      | WRP_MSG_TYPE__REQ \<Rightarrow> ReqMsg (wm_partner_ids m)
      | _ \<Rightarrow> OtherMsg)"

definition msg_dest :: "wrp_msg \<Rightarrow> string option" where
  "msg_dest m =
     (case wm_type m of
        WRP_MSG_TYPE__EVENT \<Rightarrow> event_dest m
      | WRP_MSG_TYPE__REQ \<Rightarrow> req_dest m
      | _ \<Rightarrow> crud_dest (wm_crud m))"

definition error_json :: "cjson_api \<Rightarrow> int \<Rightarrow> string \<Rightarrow> cjson" where
  "error_json J code text =
     cJSON_AddStringToObject J
       (cJSON_AddNumberToObject J (cJSON_CreateObject J) (Some ''statusCode'') code)
       (Some ''message'') (Some text)"

text \<open>
  Where an accepted message goes: the effects, \<open>destFlag\<close>, \<open>ret\<close> and the error response, if any.
\<close>

definition route ::
  "cjson_api \<Rightarrow> clients \<Rightarrow> string \<Rightarrow> nat \<Rightarrow> wrp_msg \<Rightarrow> string \<Rightarrow> effect list \<times> bool \<times> int \<times> cjson option" where
  "route J cl recivedMsg msgSize m dest =
     (case find_client dest (reg_list cl) of
        Some temp \<Rightarrow> ([SendClient (reg_sock temp) recivedMsg msgSize], True, 0, None)
      | None \<Rightarrow>
          if dest = ''parodus'' then
            if crud_source (wm_crud m) = None \<or> transaction_uuid (wm_crud m) = None
            then ([], True, - 1, Some (error_json J 400 ''Invalid Request''))
            else ([QueueCrud (createNewMsgForCRUD (wm_type m) (wm_crud m))], True, 0, None)
          else ([], False, 0, Some (error_json J 531 ''Service Unavailable'')))"

definition down_response :: "wrp_msg \<Rightarrow> string \<Rightarrow> down_resp" where
  "down_response m str =
     (if wm_type m = WRP_MSG_TYPE__REQ then
        \<lparr> dr_type = wm_type m, dr_source = req_dest m, dr_dest = req_source m,
          dr_transaction_uuid = req_transaction_uuid m, dr_path = None, dr_payload = str \<rparr>
      else
        \<lparr> dr_type = wm_type m, dr_source = crud_dest (wm_crud m),
          dr_dest = (case crud_source (wm_crud m) of None \<Rightarrow> Some ''unknown'' | Some s \<Rightarrow> Some s),
          dr_transaction_uuid = transaction_uuid (wm_crud m), dr_path = crud_path (wm_crud m),
          dr_payload = str \<rparr>)"

text \<open>
  The parameters of the handler: the JSON library, the encoder (its value and the buffer it
  assigned), the metadata, the configuration, the flags and the clients.
\<close>

record down_env =
  de_json :: cjson_api
  de_encode :: "down_resp \<Rightarrow> encoded"
  de_meta :: meta
  de_cfg :: ParodusCfg
  de_flags :: flags
  de_clients :: clients

definition send_error :: "down_env \<Rightarrow> wrp_msg \<Rightarrow> cjson \<Rightarrow> fault + effect list" where
  "send_error E m response =
     then_run (deref (cJSON_PrintUnformatted (de_json E) (Some response))) (\<lambda>str.
     case de_encode E (down_response m str) of
       (resp_size, None) \<Rightarrow> Inl UninitRead
     | (resp_size, Some resp_bytes) \<Rightarrow>
         Inr (if 0 < resp_size
              then sendUpstreamMsgToServer (de_meta E) (de_cfg E) (de_flags E) resp_bytes (nat resp_size)
              else []))"

definition is_routed :: "msg_type \<Rightarrow> bool" where
  "is_routed ty \<longleftrightarrow> ty \<in> {WRP_MSG_TYPE__EVENT, WRP_MSG_TYPE__REQ, WRP_MSG_TYPE__CREATE,
     WRP_MSG_TYPE__UPDATE, WRP_MSG_TYPE__RETREIVE, WRP_MSG_TYPE__DELETE}"

definition handle_routed ::
  "down_env \<Rightarrow> string \<Rightarrow> nat \<Rightarrow> wrp_msg \<Rightarrow> fault + effect list" where
  "handle_routed E recivedMsg msgSize m =
     then_run (validate_partner_id (partner_id (de_cfg E)) True (partner_view m)) (\<lambda>(ret, _).
     then_run (deref (msg_dest m)) (\<lambda>destVal.
     let (effects, destFlag, ret, response) =
           (if ret < 0 then ([], False, ret, Some (error_json (de_json E) 403 ''Invalid partner_id''))
            else route (de_json E) (de_clients E) recivedMsg msgSize m (down_dest destVal))
     in if wm_type m \<noteq> WRP_MSG_TYPE__EVENT \<and> (\<not> destFlag \<or> ret < 0) then
          (case response of
             None \<Rightarrow> Inr effects
           | Some response \<Rightarrow> then_run (send_error E m response) (\<lambda>es. Inr (effects @ es)))
        else Inr effects))"

text \<open>\<open>decoded\<close> is the message where \<open>wrp_to_struct\<close> returned a positive value.\<close>

definition listenerOnMessage ::
  "down_env \<Rightarrow> string option \<Rightarrow> nat \<Rightarrow> wrp_msg option \<Rightarrow> fault + effect list" where
  "listenerOnMessage E msg msgSize decoded =
     (case msg of
        None \<Rightarrow> Inr []
      | Some recivedMsg \<Rightarrow>
          (case decoded of
             None \<Rightarrow> Inr []
           | Some m \<Rightarrow> if is_routed (wm_type m) then handle_routed E recivedMsg msgSize m else Inr []))"

subsection \<open>Lemmas\<close>

lemma strtok_token:
  assumes "t \<noteq> []" "CHR ''/'' \<notin> set t"
  shows "strtok (t @ CHR ''/'' # rest) = Some (t, rest)" "strtok t = Some (t, [])"
proof -
  have head: "dropWhile (\<lambda>c. c = CHR ''/'') (t @ u) = t @ u" for u
    using assms by (cases t) auto
  have all: "\<And>c. c \<in> set t \<Longrightarrow> c \<noteq> CHR ''/''" using assms(2) by blast
  have split: "takeWhile (\<lambda>c. c \<noteq> CHR ''/'') (t @ u) = t @ takeWhile (\<lambda>c. c \<noteq> CHR ''/'') u"
    "dropWhile (\<lambda>c. c \<noteq> CHR ''/'') (t @ u) = dropWhile (\<lambda>c. c \<noteq> CHR ''/'') u" for u
    by (rule takeWhile_append2, erule all) (rule dropWhile_append2, erule all)
  show "strtok (t @ CHR ''/'' # rest) = Some (t, rest)"
    unfolding strtok_def head Let_def split by simp
  have "strtok (t @ []) = Some (t, [])"
    unfolding strtok_def head Let_def split by (simp add: assms(1))
  then show "strtok t = Some (t, [])" by simp
qed

lemma down_dest_service:
  assumes "scheme \<noteq> []" "CHR ''/'' \<notin> set scheme" "service \<noteq> []" "CHR ''/'' \<notin> set service"
    "length service < 32"
  shows "down_dest (scheme @ CHR ''/'' # service) = service"
    "down_dest (scheme @ CHR ''/'' # service @ CHR ''/'' # rest) = service"
  using assms by (simp_all add: down_dest_def strtok_token parStrncpy_id)

text \<open>Whether the partner ids of a message are refused.\<close>

definition refused :: "down_env \<Rightarrow> wrp_msg \<Rightarrow> bool" where
  "refused E m \<longleftrightarrow> partner_id (de_cfg E) \<noteq> [] \<and> wm_type m = WRP_MSG_TYPE__REQ \<and>
     (\<exists>ps. wm_partner_ids m = Some ps \<and> \<not> partner_match ps (fst (parse_partner_id (partner_id (de_cfg E)))))"

lemma validate_request:
  assumes "wm_type m \<noteq> WRP_MSG_TYPE__EVENT"
  shows "\<exists>ret. validate_partner_id (partner_id (de_cfg E)) True (partner_view m) = Inr (ret, None) \<and>
    (ret < 0 \<longleftrightarrow> refused E m)"
  using assms
  by (cases "wm_type m")
     (auto simp: partner_view_def refused_def validate_partner_id_def Let_def split: option.split)


lemma send_error_sends:
  assumes "cJSON_PrintUnformatted (de_json E) (Some response) = Some str"
    and "de_encode E (down_response m str) = (sz, Some b)" "0 < sz"
    and "metaPackSize (de_meta E) \<noteq> 0" "\<not> get_close_retry (de_flags E)"
  shows "send_error E m response = Inr [case appendEncodedData (de_meta E) b (nat sz)
    (metadataPack (de_meta E)) (metaPackSize (de_meta E)) of (d, n) \<Rightarrow> SendServer d n]"
  using assms by (simp add: send_error_def sendUpstreamMsgToServer_def word_neq_0_conv split: prod.split)

lemma handle_request:
  assumes "wm_type m \<noteq> WRP_MSG_TYPE__EVENT" "msg_dest m = Some d"
  shows "handle_routed E b n m =
    (if refused E m then send_error E m (error_json (de_json E) 403 ''Invalid partner_id'')
     else (case find_client (down_dest d) (reg_list (de_clients E)) of
       Some temp \<Rightarrow> Inr [SendClient (reg_sock temp) b n]
     | None \<Rightarrow>
         if down_dest d \<noteq> ''parodus'' then send_error E m (error_json (de_json E) 531 ''Service Unavailable'')
         else if crud_source (wm_crud m) = None \<or> transaction_uuid (wm_crud m) = None
         then send_error E m (error_json (de_json E) 400 ''Invalid Request'')
         else Inr [QueueCrud (createNewMsgForCRUD (wm_type m) (wm_crud m))]))"
proof -
  obtain ret where v: "validate_partner_id (partner_id (de_cfg E)) True (partner_view m) = Inr (ret, None)"
    and r: "ret < 0 \<longleftrightarrow> refused E m" using validate_request [OF assms(1)] by blast
  have run: "then_run r (\<lambda>es. Inr ([] @ es)) = r" for r :: "fault + effect list" by (cases r) auto
  show ?thesis using assms r run
    by (cases "refused E m"; cases "find_client (down_dest d) (reg_list (de_clients E))")
       (simp_all add: handle_routed_def v route_def)
qed

lemma server_effects: "sendUpstreamMsgToServer mt cfg fl b n = [] \<or>
    (\<exists>d k. sendUpstreamMsgToServer mt cfg fl b n = [SendServer d k])"
  by (auto simp: sendUpstreamMsgToServer_def split_beta)

lemma send_error_effects:
  assumes "send_error E m response = Inr es"
  shows "QueueCrud req \<notin> set es"
proof -
  from assms obtain str where s: "cJSON_PrintUnformatted (de_json E) (Some response) = Some str"
    by (cases "cJSON_PrintUnformatted (de_json E) (Some response)") (auto simp: send_error_def)
  obtain sz b where e: "de_encode E (down_response m str) = (sz, b)" by fastforce
  with assms s server_effects [of "de_meta E" "de_cfg E" "de_flags E" "the b" "nat sz"] show ?thesis
    by (cases b) (auto simp: send_error_def split: if_splits)
qed

lemma queued_request:
  assumes "listenerOnMessage E (Some bytes) n (Some m) = Inr [QueueCrud req]" "wm_type m \<noteq> WRP_MSG_TYPE__EVENT"
  shows "req = createNewMsgForCRUD (wm_type m) (wm_crud m)"
proof -
  have h: "handle_routed E bytes n m = Inr [QueueCrud req]"
    using assms(1) by (auto simp: listenerOnMessage_def split: if_splits)
  then obtain d where "msg_dest m = Some d"
    by (cases "msg_dest m") (auto simp: handle_routed_def then_run_Inr_iff)
  from h [unfolded handle_request [OF assms(2) this]] send_error_effects show ?thesis
    by (fastforce split: if_splits option.splits)
qed

text \<open>The encoder, the metadata and the connection work.\<close>

definition can_answer :: "down_env \<Rightarrow> bool" where
  "can_answer E \<longleftrightarrow> (\<forall>j. \<exists>str. cJSON_PrintUnformatted (de_json E) (Some j) = Some str) \<and>
     (\<forall>r. \<exists>sz b. de_encode E r = (sz, Some b) \<and> 0 < sz) \<and>
     metaPackSize (de_meta E) \<noteq> 0 \<and> \<not> get_close_retry (de_flags E)"

lemma send_error_one:
  assumes "can_answer E"
  shows "\<exists>d n. send_error E m response = Inr [SendServer d n]"
proof -
  obtain str sz b where "cJSON_PrintUnformatted (de_json E) (Some response) = Some str"
    "de_encode E (down_response m str) = (sz, Some b)" "0 < sz"
    using assms by (metis can_answer_def)
  from send_error_sends [OF this] assms show ?thesis by (auto simp: can_answer_def split: prod.split)
qed

lemma error_json_lookup:
  assumes "cjson_documented J"
  shows "map_option cj_valueint (cJSON_GetObjectItem J (Some (error_json J code msg)) ''statusCode'') = Some code"
  by (simp add: error_json_def cJSON_AddNumberToObject_def cJSON_AddStringToObject_def
      documented_simps [OF assms])

text \<open>The parameters at concrete values: a client \<open>iot\<close>, and functions that always succeed.\<close>

definition sample_down :: down_env where
  "sample_down = \<lparr> de_json = ref_cjson (\<lambda>s. None) (\<lambda>j. Some ''{}''), de_encode = (\<lambda>r. (3, Some ''enc'')),
     de_meta = \<lparr> metadataPack = ''m'', metaPackSize = 1, appendEncodedData = (\<lambda>b n p k. (b @ p, n + 1)) \<rparr>,
     de_cfg = zero_cfg\<lparr>partner_id := ''comcast''\<rparr>,
     de_flags = \<lparr> heartBeatTimer = 0, paused = False, close_retry = False, interface_down_event = False \<rparr>,
     de_clients = \<lparr> reg_list = [new_client 4 1 ''iot'' ''tcp://127.0.0.1:6667''], numOfClients = 1 \<rparr> \<rparr>"

definition sample_request :: "string \<Rightarrow> wrp_msg" where
  "sample_request d = \<lparr> wm_type = WRP_MSG_TYPE__REQ, wm_partner_ids = Some [''comcast''],
     event_dest = None, req_source = Some ''dns:server'', req_dest = Some d, req_transaction_uuid = Some ''u1'',
     wm_crud = \<lparr> msg_type = WRP_MSG_TYPE__REQ, transaction_uuid = Some ''u1'', crud_source = Some ''dns:server'',
       crud_dest = Some d, crud_payload = None, crud_payload_size = 0, crud_status = 0,
       crud_partner_ids = None, crud_headers = None, crud_metadata = None, include_spans = False,
       content_type = None, crud_rdr = 0, crud_path = None \<rparr> \<rparr>"

lemma sample_request_simps:
  "wm_type (sample_request d) = WRP_MSG_TYPE__REQ" "msg_dest (sample_request d) = Some d"
  "req_source (sample_request d) = Some ''dns:server''"
  "crud_source (wm_crud (sample_request d)) = Some ''dns:server''"
  "transaction_uuid (wm_crud (sample_request d)) = Some ''u1''" "\<not> refused sample_down (sample_request d)"
  by (simp_all add: sample_request_def msg_dest_def) (simp add: refused_def sample_request_def; code_simp)

lemma sample_down_answers: "can_answer sample_down"
  by (simp add: can_answer_def sample_down_def ref_cjson_def get_close_retry_def)

subsection \<open>Properties\<close>

text \<open>
  C37. A message whose partner ids are accepted and whose destination has, as its second element, the
  name of a registered client is sent to that client's socket, once, with the received bytes.
\<close>

theorem downstream_to_client:
  assumes "is_routed (wm_type m)"
    and "validate_partner_id (partner_id (de_cfg E)) True (partner_view m) = Inr (ret, st)" "0 \<le> ret"
    and "msg_dest m = Some (scheme @ CHR ''/'' # service @ rest)"
    and "rest = [] \<or> (\<exists>r. rest = CHR ''/'' # r)"
    and "scheme \<noteq> []" "CHR ''/'' \<notin> set scheme" "service \<noteq> []" "CHR ''/'' \<notin> set service"
    and "find_client service (reg_list (de_clients E)) = Some node" "length (service_name node) < 32"
  shows "listenerOnMessage E (Some bytes) n (Some m) = Inr [SendClient (reg_sock node) bytes n]"
proof -
  have "service_name node = service" using find_client_SomeD [OF assms(10)] by simp
  with assms have "down_dest (scheme @ CHR ''/'' # service @ rest) = service"
    using down_dest_service [of scheme service] by auto
  with assms show ?thesis
    by (simp add: listenerOnMessage_def handle_routed_def route_def)
qed

theorem downstream_to_client_witness:
  "listenerOnMessage sample_down (Some ''bytes'') 5 (Some (sample_request ''mac:1/iot/x'')) =
     Inr [SendClient 4 ''bytes'' 5]"
proof -
  have v: "validate_partner_id (partner_id (de_cfg sample_down)) True
      (partner_view (sample_request ''mac:1/iot/x'')) = Inr (1, None)" by code_simp
  have f: "find_client ''iot'' (reg_list (de_clients sample_down)) =
      Some (new_client 4 1 ''iot'' ''tcp://127.0.0.1:6667'')"
    by (simp add: sample_down_def new_client_def parStrncpy_def)
  have "listenerOnMessage sample_down (Some ''bytes'') 5 (Some (sample_request ''mac:1/iot/x'')) =
     Inr [SendClient (reg_sock (new_client 4 1 ''iot'' ''tcp://127.0.0.1:6667'')) ''bytes'' 5]"
    by (rule downstream_to_client [OF _ v _ _ _ _ _ _ _ f, of "''mac:1''" "''/x''"])
       (simp_all add: sample_request_def is_routed_def msg_dest_def new_client_def parStrncpy_def)
  then show ?thesis by (simp add: new_client_def)
qed

text \<open>
  C15. Where the encoder, the metadata and the connection work, a request from the server has exactly
  one outcome. It goes to a client when its partner ids are not refused and its destination names
  one; to the CRUD queue when the destination is \<open>parodus\<close>, no client has that name, and source and
  transaction id are given; and in every other case an answer goes back to the server.
\<close>

theorem downstream_one_outcome:
  assumes "is_routed (wm_type m)" "wm_type m \<noteq> WRP_MSG_TYPE__EVENT" "msg_dest m = Some d" "can_answer E"
  shows "\<exists>outcome. listenerOnMessage E (Some bytes) n (Some m) = Inr [outcome] \<and>
    ((\<exists>sock. outcome = SendClient sock bytes n) \<longleftrightarrow>
       \<not> refused E m \<and> find_client (down_dest d) (reg_list (de_clients E)) \<noteq> None) \<and>
    ((\<exists>msg. outcome = QueueCrud msg) \<longleftrightarrow>
       \<not> refused E m \<and> find_client (down_dest d) (reg_list (de_clients E)) = None \<and>
       down_dest d = ''parodus'' \<and> crud_source (wm_crud m) \<noteq> None \<and> transaction_uuid (wm_crud m) \<noteq> None)"
proof -
  note one = send_error_one [OF assms(4), of m]
  have "listenerOnMessage E (Some bytes) n (Some m) = handle_routed E bytes n m"
    using assms(1) by (simp add: listenerOnMessage_def)
  then show ?thesis
    using one [of "error_json (de_json E) 403 ''Invalid partner_id''"]
      one [of "error_json (de_json E) 531 ''Service Unavailable''"]
      one [of "error_json (de_json E) 400 ''Invalid Request''"]
    by (auto simp: handle_request [OF assms(2,3)] split: option.split)
qed

theorem downstream_one_outcome_witness:
  "\<exists>outcome. listenerOnMessage sample_down (Some ''b'') 5 (Some (sample_request ''mac:1/parodus'')) = Inr [outcome] \<and>
     (\<exists>msg. outcome = QueueCrud msg)"
proof -
  have "find_client (down_dest ''mac:1/parodus'') (reg_list (de_clients sample_down)) = None"
    "down_dest ''mac:1/parodus'' = ''parodus''"
    by code_simp+
  with downstream_one_outcome [OF _ _ _ sample_down_answers, of "sample_request ''mac:1/parodus''"
      "''mac:1/parodus''" "''b''" 5]
  show ?thesis by (auto simp: sample_request_simps is_routed_def)
qed

text \<open>
  C38. A request that is refused, or that names neither a client nor an acceptable CRUD destination, is
  answered with the status code 403, 531 or 400; the answer goes to the sender of the request, from
  its destination, with its transaction id.
\<close>

theorem downstream_error_reply:
  assumes "cjson_documented (de_json E)" "can_answer E"
    and "is_routed (wm_type m)" "wm_type m \<noteq> WRP_MSG_TYPE__EVENT" "msg_dest m = Some d"
    and "refused E m \<or> find_client (down_dest d) (reg_list (de_clients E)) = None \<and>
      (down_dest d \<noteq> ''parodus'' \<or> crud_source (wm_crud m) = None \<or> transaction_uuid (wm_crud m) = None)"
  shows "\<exists>j str sz b r. cJSON_PrintUnformatted (de_json E) (Some j) = Some str \<and> dr_payload r = str \<and>
    map_option cj_valueint (cJSON_GetObjectItem (de_json E) (Some j) ''statusCode'') =
      Some (if refused E m then 403 else if down_dest d \<noteq> ''parodus'' then 531 else 400) \<and>
    dr_type r = wm_type m \<and> dr_source r = Some d \<and>
    (if wm_type m = WRP_MSG_TYPE__REQ
     then dr_dest r = req_source m \<and> dr_transaction_uuid r = req_transaction_uuid m
     else dr_dest r = Some (case crud_source (wm_crud m) of None \<Rightarrow> ''unknown'' | Some s \<Rightarrow> s) \<and>
       dr_transaction_uuid r = transaction_uuid (wm_crud m)) \<and>
    de_encode E r = (sz, Some b) \<and>
    listenerOnMessage E (Some bytes) n (Some m) =
      Inr (sendUpstreamMsgToServer (de_meta E) (de_cfg E) (de_flags E) b (nat sz))"
proof -
  define code where "code = (if refused E m then 403 else if down_dest d \<noteq> ''parodus'' then 531 else 400 :: int)"
  define msg where "msg = (if refused E m then ''Invalid partner_id''
    else if down_dest d \<noteq> ''parodus'' then ''Service Unavailable'' else ''Invalid Request'')"
  have h: "handle_routed E bytes n m = send_error E m (error_json (de_json E) code msg)"
    using assms(6) unfolding handle_request [OF assms(4,5)] code_def msg_def by (auto split: option.split)
  obtain str where str: "cJSON_PrintUnformatted (de_json E) (Some (error_json (de_json E) code msg)) = Some str"
    using assms(2) by (metis can_answer_def)
  obtain sz b where enc: "de_encode E (down_response m str) = (sz, Some b)" "0 < sz"
    using assms(2) by (metis can_answer_def)
  have "listenerOnMessage E (Some bytes) n (Some m) =
      Inr (sendUpstreamMsgToServer (de_meta E) (de_cfg E) (de_flags E) b (nat sz))"
    using assms(3) h str enc by (simp add: listenerOnMessage_def send_error_def)
  with error_json_lookup [OF assms(1), of code msg] str enc show ?thesis using assms(4,5)
    unfolding code_def
    by (intro exI [of _ "error_json (de_json E) code msg"] exI [of _ str] exI [of _ sz] exI [of _ b]
          exI [of _ "down_response m str"])
       (cases "wm_type m"; auto simp: code_def down_response_def msg_dest_def split: option.split)
qed

theorem downstream_error_reply_witness:
  "\<exists>sz b r. de_encode sample_down r = (sz, Some b) \<and> dr_dest r = Some ''dns:server'' \<and>
     listenerOnMessage sample_down (Some ''b'') 5 (Some (sample_request ''mac:1/nobody'')) =
       Inr (sendUpstreamMsgToServer (de_meta sample_down) (de_cfg sample_down) (de_flags sample_down) b (nat sz))"
proof -
  have "cjson_documented (de_json sample_down)" by (simp add: sample_down_def ref_cjson_documented)
  moreover have "find_client (down_dest ''mac:1/nobody'') (reg_list (de_clients sample_down)) = None"
    "down_dest ''mac:1/nobody'' = ''nobody''" by code_simp+
  ultimately show ?thesis
    using downstream_error_reply [OF _ sample_down_answers, of "sample_request ''mac:1/nobody''"
        "''mac:1/nobody''" "''b''" 5]
    by (fastforce simp: sample_request_simps is_routed_def)
qed

end
