(* ===== verification/Upstream.thy ===== *)
theory Upstream
  imports Downstream
begin

text \<open>
  \<^verbatim>\<open>upstream.c\<close>: the messages of the local clients and the responses of the CRUD task are decoded and
  handled (\<open>processUpstreamMessage\<close>): registrations, events, requests and CRUD messages; and
  \<open>CRUDHandlerTask\<close> of \<^verbatim>\<open>crud_interface.c\<close>, which answers the requests of the CRUD queue.

  A turn of the consumer is a function of the message it took from the queue. The state is the
  client list with the state of the nanomsg library; what is sent to the server or put into
  the CRUD queue are the effects of \<^verbatim>\<open>Downstream\<close>; the last result says by which function the buffer
  is released. The local variables \<open>msg\<close> and \<open>bytes\<close> are uninitialised in the first turn and null
  pointers from then on. Decoder, encoder and metadata packing belong to the wrp library and are
  parameters.
\<close>

record up_msg = wrp_msg +
  reg_msg_name :: string
  reg_msg_url :: string
  event_source :: "string option"
  event_content_type :: "string option"
  event_payload :: "string option"
  event_payload_size :: nat
  event_headers :: "string list option"
  event_metadata :: "(slot \<times> slot) list option"

text \<open>The event that is encoded again with the partner ids.\<close>

record event_msg =
  em_type :: msg_type
  em_content_type :: "string option"
  em_source :: "string option"
  em_dest :: "string option"
  em_payload :: "string option"
  em_payload_size :: nat
  em_headers :: "string list option"
  em_metadata :: "(slot \<times> slot) list option"
  em_partner_ids :: "string list option"

record up_wrp = wrp_api +
  WRP_ID_ELEMENT__SERVICE :: nat
  wrp_to_struct :: "string option \<Rightarrow> 64 word \<Rightarrow> int \<times> up_msg option"
  encode_event :: "event_msg \<Rightarrow> encoded"
  wrp_does_service_match :: "string \<Rightarrow> string \<Rightarrow> int"

datatype release = Free | NnFreemsg

record up_locals =
  msg_uninit :: bool
  bytes_uninit :: bool

record 'e up_env =
  ue_wrp :: up_wrp
  ue_nn :: "'e nn_api"
  ue_auth :: encoded
  ue_meta :: meta
  ue_cfg :: ParodusCfg
  ue_flags :: flags

subsection \<open>Receiving\<close>

record 'e nn_server_api = "'e nn_api" +
  nn_bind :: "int \<Rightarrow> string \<Rightarrow> 'e \<Rightarrow> int \<times> 'e"

text \<open>
  \<open>handle_upstream\<close>: the socket for the local clients, the receive loop of theory \<open>Msg_Queue\<close> over the results of
  \<^verbatim>\<open>nn_recv\<close>, and the end of the socket. A socket that cannot be bound is not closed.
\<close>

definition handle_upstream ::
  "('e, 'z) nn_server_api_scheme \<Rightarrow> string \<Rightarrow> 'b nn_recv_result list \<Rightarrow> 'b UpStreamMsg msgq \<times> 'e \<Rightarrow>
     ('b UpStreamMsg msgq \<times> 'e) option" where
  "handle_upstream api url recvs s =
     (case s of (q, e) \<Rightarrow>
      case nn_socket api e of (sock, e) \<Rightarrow>
        if 0 \<le> sock then
          (case nn_setsockopt api sock e of (rc, e) \<Rightarrow>
           case nn_bind api sock url e of (endpoint, e) \<Rightarrow>
             if endpoint < 0 then Some (q, e)
             else map_option (\<lambda>q. (q, snd (nn_close api sock (snd (nn_shutdown api sock endpoint e)))))
                    (handle_upstream_loop recvs q))
        else Some (q, e))"

subsection \<open>Metadata\<close>

definition PARTNER_ID :: string where "PARTNER_ID = ''partner-id''"

definition meta_pack :: "ParodusCfg \<Rightarrow> string \<Rightarrow> (string \<times> string) list" where
  "meta_pack cfg reason =
     [(HW_MODELNAME, hw_model cfg), (HW_SERIALNUMBER, hw_serial_number cfg),
      (HW_MANUFACTURER, hw_manufacturer cfg), (HW_DEVICEMAC, hw_mac cfg),
      (HW_LAST_REBOOT_REASON, hw_last_reboot_reason cfg), (FIRMWARE_NAME, fw_name cfg),
      (BOOT_TIME, print_int (sint (boot_time cfg))), (LAST_RECONNECT_REASON, reason),
      (WEBPA_PROTOCOL, webpa_protocol cfg), (WEBPA_UUID, webpa_uuid cfg),
      (WEBPA_INTERFACE, webpa_interface_used cfg), (PARTNER_ID, partner_id cfg)]"

text \<open>
  \<open>wrp_pack_metadata\<close> returns a signed value and the buffer it assigned, if any; the value is stored
  in the unsigned \<open>metaPackSize\<close>.
\<close>

definition packMetaData ::
  "((string \<times> string) list \<Rightarrow> int \<times> string option) \<Rightarrow> ParodusCfg \<Rightarrow> string \<Rightarrow> meta \<Rightarrow> meta" where
  "packMetaData wrp_pack_metadata cfg reason mt =
     (case wrp_pack_metadata (meta_pack cfg reason) of (packed, pack) \<Rightarrow>
        mt\<lparr>metaPackSize := word_of_int packed,
           metadataPack := (case pack of None \<Rightarrow> metadataPack mt | Some p \<Rightarrow> p)\<rparr>)"

subsection \<open>Registration\<close>

text \<open>
  The walk that looks for a node of the same name. A node found gets the new url, a new socket and,
  if the socket can be connected, the new endpoint; otherwise the walk goes on.
\<close>

fun reregister ::
  "'e nn_api \<Rightarrow> encoded \<Rightarrow> string \<Rightarrow> string \<Rightarrow> reg_list_item_t list \<Rightarrow> 'e \<Rightarrow>
     fault + bool \<times> reg_list_item_t list \<times> 'e" where
  "reregister api auth name url [] e = Inr (False, [], e)"
| "reregister api auth name url (temp # nodes) e =
     (if service_name temp = name then
        let temp = temp\<lparr>reg_url := parStrncpy url 100\<rparr>;
            e = snd (nn_shutdown api (reg_sock temp) (reg_endpoint temp) e);
            e = snd (nn_close api (reg_sock temp) e)
        in case nn_socket api e of (sock, e) \<Rightarrow>
          let temp = temp\<lparr>reg_sock := sock\<rparr> in
          if 0 \<le> sock then
            let e = snd (nn_setsockopt api sock e) in
            case nn_connect api sock url e of (rc, e) \<Rightarrow>
              if rc < 0 then
                then_run (reregister api auth name url nodes e) (\<lambda>(b, ns, e). Inr (b, temp # ns, e))
              else let temp = temp\<lparr>reg_endpoint := rc\<rparr> in
                then_run (sendAuthStatus api auth temp e) (\<lambda>(_, e). Inr (True, temp # nodes, e))
          else then_run (reregister api auth name url nodes e) (\<lambda>(b, ns, e). Inr (b, temp # ns, e))
      else then_run (reregister api auth name url nodes e) (\<lambda>(b, ns, e). Inr (b, temp # ns, e)))"

definition handle_registration ::
  "'e nn_api \<Rightarrow> encoded \<Rightarrow> string \<Rightarrow> string \<Rightarrow> clients \<times> 'e \<Rightarrow> fault + clients \<times> 'e" where
  "handle_registration api auth name url s =
     (case s of (cl, e) \<Rightarrow>
        then_run (if get_numOfClients cl \<noteq> 0
                  then then_run (reregister api auth name url (reg_list cl) e)
                         (\<lambda>(matchFlag, nodes, e). Inr (matchFlag, cl\<lparr>reg_list := nodes\<rparr>, e))
                  else Inr (False, cl, e))
          (\<lambda>(matchFlag, cl, e).
            if \<not> matchFlag \<or> get_numOfClients cl = 0
            then then_run (addToList api auth name url (cl, e)) (\<lambda>(status, cl, e). Inr (cl, e))
            else Inr (cl, e)))"

subsection \<open>Events\<close>

definition event_with_partners :: "up_msg \<Rightarrow> string list option \<Rightarrow> event_msg" where
  "event_with_partners m partnersList = \<lparr>
     em_type = wm_type m, em_content_type = event_content_type m, em_source = event_source m,
     em_dest = event_dest m, em_payload = event_payload m, em_payload_size = event_payload_size m,
     em_headers = event_headers m, em_metadata = event_metadata m, em_partner_ids = partnersList \<rparr>"

text \<open>An upstream buffer and its length, as \<open>sendUpstreamMsgToServer\<close> takes them.\<close>

definition send_original :: "'e up_env \<Rightarrow> string \<Rightarrow> 64 word \<Rightarrow> effect list" where
  "send_original E bytes len = sendUpstreamMsgToServer (ue_meta E) (ue_cfg E) (ue_flags E) bytes (unat len)"

definition handle_event ::
  "'e up_env \<Rightarrow> up_locals \<Rightarrow> string \<Rightarrow> 64 word \<Rightarrow> up_msg \<Rightarrow> fault + up_locals \<times> effect list" where
  "handle_event E lv bytes len m =
     then_run (validate_partner_id (partner_id (ue_cfg E)) False (EventMsg (wm_partner_ids m)))
       (\<lambda>(ret, partnersList).
         if ret = 1 then
           (case encode_event (ue_wrp E) (event_with_partners m partnersList) of
              (sz, Some b) \<Rightarrow>
                Inr (lv\<lparr>bytes_uninit := False\<rparr>,
                     if 0 < sz
                     then sendUpstreamMsgToServer (ue_meta E) (ue_cfg E) (ue_flags E) b (nat sz) else [])
            | (sz, None) \<Rightarrow>
                if bytes_uninit lv then Inl UninitRead
                else if 0 < sz then Inl NullDeref
                else Inr (lv, []))
         else Inr (lv, send_original E bytes len))"

subsection \<open>CRUD messages\<close>

definition getDeviceId :: "ParodusCfg \<Rightarrow> (string \<times> nat) option" where
  "getDeviceId cfg =
     (if hw_mac cfg \<noteq> [] then Some (''mac:'' @ hw_mac cfg, length (hw_mac cfg) + 5) else None)"

definition createUpstreamRetrieveMsg :: "msg_type \<Rightarrow> wrp_crud \<Rightarrow> wrp_crud" where
  "createUpstreamRetrieveMsg ty message = \<lparr>
     msg_type = ty, transaction_uuid = transaction_uuid message, crud_source = crud_source message,
     crud_dest = crud_dest message, crud_payload = None, crud_payload_size = 0, crud_status = 0,
     crud_partner_ids = None, crud_headers = None, crud_metadata = None, include_spans = False,
     content_type = None, crud_rdr = 0, crud_path = None \<rparr>"

definition getServiceNameAndSendResponse ::
  "'e up_env \<Rightarrow> string \<Rightarrow> string \<Rightarrow> 64 word \<Rightarrow> clients \<times> 'e \<Rightarrow> clients \<times> 'e" where
  "getServiceNameAndSendResponse E dest bytes len s =
     (case wrp_get_msg_element (ue_wrp E) (WRP_ID_ELEMENT__SERVICE (ue_wrp E)) dest of
        None \<Rightarrow> s
      | Some serviceName \<Rightarrow>
          (fst s, snd (sendMsgtoRegisteredClients (ue_nn E) serviceName bytes (unat len) s)))"

text \<open>
  \<^verbatim>\<open>&dest[device_id_len]\<close>. The index is one more than the length of the device id, so a destination
  that ends with the device id is read behind its terminator.
\<close>

definition dest_at :: "string \<Rightarrow> nat \<Rightarrow> fault + string" where
  "dest_at dest i = (if i \<le> length dest then Inr (drop i dest) else Inl OutOfBounds)"

definition handle_crud ::
  "'e up_env \<Rightarrow> string \<Rightarrow> 64 word \<Rightarrow> up_msg \<Rightarrow> clients \<times> 'e \<Rightarrow> fault + (clients \<times> 'e) \<times> effect list" where
  "handle_crud E bytes len m s =
     (case getDeviceId (ue_cfg E) of
        None \<Rightarrow> Inr (s, [])
      | Some (device_id, device_id_len) \<Rightarrow>
          then_run (deref (crud_dest (wm_crud m))) (\<lambda>dest.
          if strncasecmp_eq device_id dest (device_id_len - 1) then
            if wm_type m = WRP_MSG_TYPE__RETREIVE then
              then_run (dest_at dest device_id_len) (\<lambda>service.
              if strncmp_eq ''parodus'' service (length ''parodus'' - 1)
              then Inr (s, [QueueCrud (createUpstreamRetrieveMsg (wm_type m) (wm_crud m))])
              else Inr (getServiceNameAndSendResponse E dest bytes len s, []))
            else Inr (getServiceNameAndSendResponse E dest bytes len s, [])
          else Inr (s, send_original E bytes len)))"

subsection \<open>A turn of \<open>processUpstreamMessage\<close>\<close>

definition handle_decoded ::
  "'e up_env \<Rightarrow> up_locals \<Rightarrow> string \<Rightarrow> 64 word \<Rightarrow> up_msg \<Rightarrow> clients \<times> 'e \<Rightarrow>
     fault + up_locals \<times> (clients \<times> 'e) \<times> effect list" where
  "handle_decoded E lv bytes len m s =
     (case wm_type m of
        WRP_MSG_TYPE__SVC_REGISTRATION \<Rightarrow>
          then_run (handle_registration (ue_nn E) (ue_auth E) (reg_msg_name m) (reg_msg_url m) s)
            (\<lambda>s. Inr (lv, s, []))
      | WRP_MSG_TYPE__EVENT \<Rightarrow>
          then_run (handle_event E lv bytes len m) (\<lambda>(lv, es). Inr (lv, s, es))
      | WRP_MSG_TYPE__RETREIVE \<Rightarrow>
          then_run (handle_crud E bytes len m s) (\<lambda>(s, es). Inr (lv, s, es))
      | WRP_MSG_TYPE__UPDATE \<Rightarrow>
          then_run (handle_crud E bytes len m s) (\<lambda>(s, es). Inr (lv, s, es))
      | WRP_MSG_TYPE__DELETE \<Rightarrow>
          then_run (handle_crud E bytes len m s) (\<lambda>(s, es). Inr (lv, s, es))
      | WRP_MSG_TYPE__SVC_ALIVE \<Rightarrow> Inr (lv, s, [])
      | _ \<Rightarrow> Inr (lv, s, send_original E bytes len))"

text \<open>How the buffer is released: a response of Parodus itself was not received through nanomsg.\<close>

definition release_msg :: "up_wrp \<Rightarrow> up_msg option \<Rightarrow> release" where
  "release_msg W msg =
     (case msg of
        None \<Rightarrow> NnFreemsg
      | Some m \<Rightarrow>
          (case crud_source (wm_crud m) of
             None \<Rightarrow> NnFreemsg
           | Some source \<Rightarrow> if wrp_does_service_match W ''parodus'' source = 0 then Free else NnFreemsg))"

definition upstream_turn ::
  "'e up_env \<Rightarrow> string UpStreamMsg \<Rightarrow> up_locals \<Rightarrow> clients \<times> 'e \<Rightarrow>
     fault + up_locals \<times> (clients \<times> 'e) \<times> effect list \<times> release" where
  "upstream_turn E message lv s =
     (case wrp_to_struct (ue_wrp E) (us_msg message) (us_len message) of
        (rv, assigned) \<Rightarrow>
          then_run (if 0 < rv then
                      (case assigned of
                         None \<Rightarrow> Inl (if msg_uninit lv then UninitRead else NullDeref)
                       | Some m \<Rightarrow> then_run (deref (us_msg message)) (\<lambda>bytes.
                           handle_decoded E lv bytes (us_len message) m s))
                    else if assigned = None \<and> msg_uninit lv then Inl UninitRead
                    else Inr (lv, s, []))
            (\<lambda>(lv, s, es). Inr (lv\<lparr>msg_uninit := False\<rparr>, s, es, release_msg (ue_wrp E) assigned)))"

text \<open>The messages of the queue in their order.\<close>

fun upstream_turns ::
  "'e up_env \<Rightarrow> string UpStreamMsg list \<Rightarrow> up_locals \<Rightarrow> clients \<times> 'e \<Rightarrow>
     fault + up_locals \<times> (clients \<times> 'e) \<times> effect list" where
  "upstream_turns E [] lv s = Inr (lv, s, [])"
| "upstream_turns E (m # ms) lv s =
     then_run (upstream_turn E m lv s) (\<lambda>(lv, s, es, _).
     then_run (upstream_turns E ms lv s) (\<lambda>(lv, s, es'). Inr (lv, s, es @ es')))"

subsection \<open>A turn of \<open>CRUDHandlerTask\<close>\<close>

text \<open>
  The response is encoded and put into the upstream queue, also when the encoding failed; the
  pointer then queued is not valid, which \<open>us_msg\<close> shows as \<open>None\<close>.
\<close>

definition crud_task_turn ::
  "cjson_api \<Rightarrow> wrp_api \<Rightarrow> (crud_msg \<Rightarrow> encoded) \<Rightarrow> nat \<Rightarrow> wrp_crud \<Rightarrow>
     crud_state \<times> string UpStreamMsg msgq \<Rightarrow> fault + (crud_state \<times> string UpStreamMsg msgq) option" where
  "crud_task_turn J W enc a message s =
     (case s of (st, q) \<Rightarrow>
        then_run (processCrudRequest J W (crud_msg.truncate message) st) (\<lambda>(ret, crud_response, st).
        case enc crud_response of (resp_size, resp_bytes) \<Rightarrow>
          Inr (map_option (\<lambda>(q, _). (st, q)) (addCRUDresponseToUpstreamQ a resp_bytes resp_size q))))"

subsection \<open>Lemmas\<close>

text \<open>Without a bound socket nothing is received; with one, everything that arrives before the shutdown is queued.\<close>

lemma handle_upstream_queue:
  assumes "q_rel q as ms" "distinct (map fst (received recvs))" "\<forall>a\<in>fst ` set (received recvs). q_unused a q"
  shows "\<exists>q' e'. handle_upstream api url recvs (q, e) = Some (q', e') \<and>
    (q' = q \<or> pop_all q_pop n q' = take n (ms @ map snd (received recvs)))"
  using handle_upstream_queues [OF assms, of n] by (auto simp: handle_upstream_def split: prod.split)

lemma reregister_found:
  assumes "service_name temp = name"
  shows "\<exists>temp' e1. service_name temp' = name \<and> reg_url temp' = parStrncpy url 100 \<and>
    (reregister api auth name url (temp # nodes) e =
       then_run (reregister api auth name url nodes e1) (\<lambda>(b, ns, e). Inr (b, temp' # ns, e)) \<and>
     \<not> ((\<forall>e. 0 \<le> fst (nn_socket api e)) \<and> (\<forall>s u e. 0 \<le> fst (nn_connect api s u e))) \<or>
     0 \<le> reg_sock temp' \<and> 0 \<le> reg_endpoint temp' \<and>
     reregister api auth name url (temp # nodes) e =
       then_run (sendAuthStatus api auth temp' e1) (\<lambda>(_, e). Inr (True, temp' # nodes, e)))"
proof -
  define t1 where "t1 = temp\<lparr>reg_url := parStrncpy url 100\<rparr>"
  define e1 where "e1 = snd (nn_close api (reg_sock t1) (snd (nn_shutdown api (reg_sock t1) (reg_endpoint t1) e)))"
  obtain sock e2 where s: "nn_socket api e1 = (sock, e2)" by fastforce
  define e3 where "e3 = snd (nn_setsockopt api sock e2)"
  obtain rc e4 where c: "nn_connect api sock url e3 = (rc, e4)" by fastforce
  have r: "reregister api auth name url (temp # nodes) e =
    (if 0 \<le> sock then
       if rc < 0 then then_run (reregister api auth name url nodes e4) (\<lambda>(b, ns, e). Inr (b, t1\<lparr>reg_sock := sock\<rparr> # ns, e))
       else then_run (sendAuthStatus api auth (t1\<lparr>reg_sock := sock, reg_endpoint := rc\<rparr>) e4)
         (\<lambda>(_, e). Inr (True, t1\<lparr>reg_sock := sock, reg_endpoint := rc\<rparr> # nodes, e))
     else then_run (reregister api auth name url nodes e2) (\<lambda>(b, ns, e). Inr (b, t1\<lparr>reg_sock := sock\<rparr> # ns, e)))"
    using assms s c unfolding t1_def e1_def e3_def by (simp add: Let_def)
  have t: "service_name t1 = name" "reg_url t1 = parStrncpy url 100" using assms by (simp_all add: t1_def)
  have neg: "sock < 0 \<Longrightarrow> \<not> (\<forall>e. 0 \<le> fst (nn_socket api e))" "rc < 0 \<Longrightarrow> \<not> (\<forall>s u e. 0 \<le> fst (nn_connect api s u e))"
    using s c by (metis fst_conv not_le)+
  consider "sock < 0" | "0 \<le> sock" "rc < 0" | "0 \<le> sock" "0 \<le> rc" by linarith
  then show ?thesis
  proof cases
    case 1
    with r t neg show ?thesis by (intro exI [of _ "t1\<lparr>reg_sock := sock\<rparr>"] exI [of _ e2]) simp
  next
    case 2
    with r t neg show ?thesis by (intro exI [of _ "t1\<lparr>reg_sock := sock\<rparr>"] exI [of _ e4]) simp
  next
    case 3
    with r t show ?thesis
      by (intro exI [of _ "t1\<lparr>reg_sock := sock, reg_endpoint := rc\<rparr>"] exI [of _ e4]) simp
  qed
qed

text \<open>
  A re-registration changes only nodes of the name, and these keep it and have the new url.
\<close>

definition same_but :: "string \<Rightarrow> string \<Rightarrow> reg_list_item_t \<Rightarrow> reg_list_item_t \<Rightarrow> bool" where
  "same_but name url n n' \<longleftrightarrow>
     n' = n \<or> service_name n = name \<and> service_name n' = name \<and> reg_url n' = parStrncpy url 100"

lemma reregister_nodes:
  "reregister api auth name url nodes e = Inr (b, nodes', e') \<Longrightarrow> list_all2 (same_but name url) nodes nodes'"
proof (induction nodes arbitrary: e b nodes' e')
  case (Cons temp nodes)
  have refl: "list_all2 (same_but name url) nodes nodes" by (simp add: list_all2_refl same_but_def)
  show ?case
  proof (cases "service_name temp = name")
    case True
    from reregister_found [OF True, of url api auth nodes e] obtain temp' e1 where
      "service_name temp' = name" "reg_url temp' = parStrncpy url 100" and
      r: "reregister api auth name url (temp # nodes) e =
         then_run (reregister api auth name url nodes e1) (\<lambda>(b, ns, e). Inr (b, temp' # ns, e)) \<or>
       reregister api auth name url (temp # nodes) e =
         then_run (sendAuthStatus api auth temp' e1) (\<lambda>(_, e). Inr (True, temp' # nodes, e))" by blast
    with True have "same_but name url temp temp'" by (simp add: same_but_def)
    moreover from r Cons.prems have
      "then_run (reregister api auth name url nodes e1) (\<lambda>(b, ns, e). Inr (b, temp' # ns, e)) = Inr (b, nodes', e') \<or>
       then_run (sendAuthStatus api auth temp' e1) (\<lambda>(_, e). Inr (True, temp' # nodes, e)) = Inr (b, nodes', e')"
      by metis
    ultimately show ?thesis using Cons.IH [of e1] refl by (auto simp: then_run_Inr_iff)
  next
    case False
    with Cons show ?thesis by (auto simp: then_run_Inr_iff same_but_def)
  qed
qed simp

lemma same_but_names: "list_all2 (same_but name url) nodes nodes' \<Longrightarrow> map service_name nodes' = map service_name nodes"
  by (induction rule: list_all2_induct) (auto simp: same_but_def)


lemma entries_names: "entries cl name = length (filter (\<lambda>s. s = name) (map service_name (reg_list cl)))"
  by (simp add: entries_def filter_map o_def)

lemma same_but_counted:
  assumes "clients_counted fit cl" "list_all2 (same_but name url) (reg_list cl) nodes'"
  shows "clients_counted fit (cl\<lparr>reg_list := nodes'\<rparr>)"
proof -
  have "list_all2 (same_but name url) nodes nodes' \<Longrightarrow>
      list_all (\<lambda>node. length (service_name node) < 32 \<and> length (reg_url node) < 100) nodes \<Longrightarrow>
      list_all (\<lambda>node. length (service_name node) < 32 \<and> length (reg_url node) < 100) nodes'" for nodes
    by (induction rule: list_all2_induct) (auto simp: same_but_def)
  with assms list_all2_lengthD [OF assms(2)] show ?thesis by (simp add: clients_counted_def)
qed



lemma registration_result:
  assumes "handle_registration api auth name url (cl, e) = Inr (cl', e')" "clients_counted fit cl"
    "fit \<Longrightarrow> length name < 32 \<and> length url < 100"
  shows "clients_counted fit cl' \<and> (\<forall>n. entries cl n \<le> entries cl' n)"
proof -
  have walk: "reregister api auth name url (reg_list cl) e1 = Inr (b, nodes, e2) \<Longrightarrow>
      clients_counted fit (cl\<lparr>reg_list := nodes\<rparr>) \<and> entries (cl\<lparr>reg_list := nodes\<rparr>) = entries cl" for e1 b nodes e2
    using same_but_counted [OF assms(2)] same_but_names reregister_nodes
    by (metis (no_types, lifting) entries_names clients.select_convs(1) clients.surjective clients.update_convs(1) ext)
  have add: "addToList api auth name url (cl1, e1) = Inr (rv, cl', e') \<Longrightarrow> clients_counted fit cl1 \<Longrightarrow>
      clients_counted fit cl' \<and> (\<forall>n. entries cl1 n \<le> entries cl' n)" for cl1 e1 rv
    using addToList_cases [of api auth name url cl1 e1 rv cl' e']
      addToList_counted [of api auth name url cl1 e1 rv cl' e' fit] assms(3)
    by (auto simp: entries_def split: if_splits)
  show ?thesis using assms(1,2) walk add
    unfolding handle_registration_def
    by (fastforce simp: then_run_Inr_iff split: if_splits)
qed

lemma handle_decoded_clients:
  assumes "handle_decoded E lv bytes len m (cl, e) = Inr (lv', (cl', e'), es)" "clients_counted fit cl"
    "fit \<Longrightarrow> wm_type m = WRP_MSG_TYPE__SVC_REGISTRATION \<Longrightarrow> length (reg_msg_name m) < 32 \<and> length (reg_msg_url m) < 100"
  shows "clients_counted fit cl' \<and> (\<forall>n. entries cl n \<le> entries cl' n)"
proof (cases "wm_type m = WRP_MSG_TYPE__SVC_REGISTRATION")
  case True
  with assms registration_result show ?thesis by (fastforce simp: handle_decoded_def then_run_Inr_iff)
next
  case False
  have "getServiceNameAndSendResponse E d bytes len (cl, e) = (cl1, e1) \<Longrightarrow> cl1 = cl" for d cl1 e1
    by (auto simp: getServiceNameAndSendResponse_def split: option.splits)
  then have "handle_crud E bytes len m (cl, e) = Inr ((cl1, e1), es1) \<Longrightarrow> cl1 = cl" for cl1 e1 es1
    by (auto simp: handle_crud_def then_run_Inr_iff split: option.splits if_splits)
  with False assms(1,2) show ?thesis
    by (cases "wm_type m") (auto simp: handle_decoded_def then_run_Inr_iff)
qed

lemma strncasecmp_prefix:
  "length a = length b \<Longrightarrow> strncasecmp_eq a (b @ t) (length a) \<longleftrightarrow> strcasecmp_eq a b"
  by (simp add: strncasecmp_eq_def strcasecmp_eq_def)

text \<open>
  \<open>metaPackSize\<close> is unsigned, so the test \<^verbatim>\<open>metaPackSize > 0\<close> does not see that packing failed: messages
  are still sent, with \<open>2 ^ 64 - 1\<close> as the size of the metadata.
\<close>

lemma pack_failure_unnoticed:
  assumes "pack (meta_pack cfg reason) = (- 1, None)" "\<not> get_close_retry fl"
  shows "\<exists>d k. sendUpstreamMsgToServer (packMetaData pack cfg reason mt) cfg fl b n = [SendServer d k] \<and>
    (d, k) = appendEncodedData mt b n (metadataPack mt) (- 1)"
  using assms
  by (cases "appendEncodedData mt b n (metadataPack mt) (- 1)")
     (simp add: sendUpstreamMsgToServer_def packMetaData_def word_neq_0_conv [symmetric])

text \<open>Messages and parameters at concrete values; every message decodes to \<open>m\<close>.\<close>

definition sample_up_msg :: "msg_type \<Rightarrow> string \<Rightarrow> up_msg" where
  "sample_up_msg ty d = \<lparr> wm_type = ty, wm_partner_ids = Some [''x''], event_dest = Some d,
     req_source = None, req_dest = None, req_transaction_uuid = None,
     wm_crud = wm_crud (sample_request d), reg_msg_name = ''iot'', reg_msg_url = ''tcp://127.0.0.1:6668'',
     event_source = Some ''mac:1/iot'', event_content_type = None, event_payload = None,
     event_payload_size = 0, event_headers = None, event_metadata = None \<rparr>"

definition sample_up :: "up_msg \<Rightarrow> unit up_env" where
  "sample_up m = \<lparr>
     ue_wrp = \<lparr> wrp_get_msg_element = (\<lambda>i d. Some ''iot''), WRP_ID_ELEMENT__APPLICATION = 3,
       WRP_ID_ELEMENT__SERVICE = 2, wrp_to_struct = (\<lambda>b n. (1, Some m)),
       encode_event = (\<lambda>ev. (3, Some ''evt'')), wrp_does_service_match = (\<lambda>s d. 1) \<rparr>,
     ue_nn = sample_nn, ue_auth = (3, Some ''ack''), ue_meta = de_meta sample_down,
     ue_cfg = zero_cfg\<lparr>partner_id := ''sky'', hw_mac := ''1''\<rparr>, ue_flags = de_flags sample_down \<rparr>"

text \<open>A nanomsg library whose first connect fails.\<close>

definition flaky_nn :: "nat nn_api" where
  "flaky_nn = \<lparr> nn_socket = (\<lambda>e. (7 + int e, e)), nn_setsockopt = (\<lambda>_ e. (0, e)),
     nn_connect = (\<lambda>_ _ e. (if e = 0 then - 1 else 1, e + 1)), nn_send = (\<lambda>_ _ n e. (int n, e)),
     nn_shutdown = (\<lambda>_ _ e. (0, e)), nn_close = (\<lambda>_ e. (0, e)) \<rparr>"

subsection \<open>Properties\<close>

text \<open>The invariant along a sequence of messages.\<close>

lemma upstream_turns_counted:
  assumes "upstream_turns E ms lv (cl, e) = Inr (lv', (cl', e'), es)" "clients_counted fit cl"
    and "fit \<Longrightarrow> \<forall>msg\<in>set ms. \<forall>rv m. wrp_to_struct (ue_wrp E) (us_msg msg) (us_len msg) = (rv, Some m) \<and>
      wm_type m = WRP_MSG_TYPE__SVC_REGISTRATION \<longrightarrow> length (reg_msg_name m) < 32 \<and> length (reg_msg_url m) < 100"
  shows "clients_counted fit cl' \<and> (\<forall>n. entries cl n \<le> entries cl' n)"
  using assms
proof (induction ms arbitrary: lv cl e es)
  case (Cons msg ms)
  from Cons.prems(1) obtain lv1 cl1 e1 es1 r es2 where
    t: "upstream_turn E msg lv (cl, e) = Inr (lv1, (cl1, e1), es1, r)" and
    rest: "upstream_turns E ms lv1 (cl1, e1) = Inr (lv', (cl', e'), es2)"
    by (fastforce simp: then_run_Inr_iff)
  obtain rv a where d: "wrp_to_struct (ue_wrp E) (us_msg msg) (us_len msg) = (rv, a)" by fastforce
  have "clients_counted fit cl1 \<and> (\<forall>n. entries cl n \<le> entries cl1 n)"
  proof (cases "0 < rv")
    case True
    with t d obtain m bytes lv2 where "a = Some m"
      "handle_decoded E lv bytes (us_len msg) m (cl, e) = Inr (lv2, (cl1, e1), es1)"
      by (auto simp: upstream_turn_def then_run_Inr_iff split: option.splits if_splits)
    with handle_decoded_clients [OF this(2) Cons.prems(2)] Cons.prems(3) d show ?thesis by auto
  next
    case False
    with t d Cons.prems(2) show ?thesis by (auto simp: upstream_turn_def then_run_Inr_iff split: if_splits)
  qed
  with Cons.IH [OF rest] Cons.prems(3) show ?case by (auto intro: order_trans)
qed simp

text \<open>
  C21. Handling any sequence of upstream messages takes no client from the list, and the count never exceeds the
  number of nodes. It stays equal to it when every registration among them has a name of less than 32 and a url of
  less than 100 characters; a longer one leaves a node that is not counted.
\<close>

theorem upstream_keeps_clients:
  assumes "upstream_turns E ms lv (cl, e) = Inr (lv', (cl', e'), es)" "clients_wf cl"
  shows "(\<forall>n. entries cl n \<le> entries cl' n) \<and> numOfClients cl' \<le> int (length (reg_list cl')) \<and>
    ((\<forall>msg\<in>set ms. \<forall>rv m. wrp_to_struct (ue_wrp E) (us_msg msg) (us_len msg) = (rv, Some m) \<and>
        wm_type m = WRP_MSG_TYPE__SVC_REGISTRATION \<longrightarrow> length (reg_msg_name m) < 32 \<and> length (reg_msg_url m) < 100) \<longrightarrow>
      numOfClients cl' = int (length (reg_list cl')))"
proof -
  have "clients_counted False cl" using assms(2) by (simp add: clients_counted_def clients_wf_def)
  from upstream_turns_counted [OF assms(1) this] upstream_turns_counted [OF assms(1), of True] assms(2)
  show ?thesis by (auto simp: counted_wf) (auto simp: clients_counted_def clients_wf_def)
qed

theorem upstream_keeps_clients_witness:
  "\<exists>cl'. upstream_turns (sample_up (sample_up_msg WRP_MSG_TYPE__SVC_REGISTRATION ''d''))
       [\<lparr> us_msg = Some ''r'', us_len = 1 \<rparr>] \<lparr> msg_uninit = True, bytes_uninit = True \<rparr>
       (\<lparr> reg_list = [], numOfClients = 0 \<rparr>, ()) =
     Inr (\<lparr> msg_uninit = False, bytes_uninit = True \<rparr>, (cl', ()), []) \<and> numOfClients cl' = int (length (reg_list cl')) \<and>
     numOfClients cl' = 1"
proof -
  let ?E = "sample_up (sample_up_msg WRP_MSG_TYPE__SVC_REGISTRATION ''d'')"
  have run: "upstream_turns ?E [\<lparr> us_msg = Some ''r'', us_len = 1 \<rparr>] \<lparr> msg_uninit = True, bytes_uninit = True \<rparr>
      (\<lparr> reg_list = [], numOfClients = 0 \<rparr>, ()) = Inr (\<lparr> msg_uninit = False, bytes_uninit = True \<rparr>,
      (\<lparr> reg_list = [new_client 4 1 ''iot'' ''tcp://127.0.0.1:6668''], numOfClients = 1 \<rparr>, ()), [])"
    by code_simp
  have "clients_wf \<lparr> reg_list = [], numOfClients = 0 \<rparr>" by (simp add: clients_wf_def)
  from upstream_keeps_clients [OF run this] run show ?thesis
    by (simp add: sample_up_def sample_up_msg_def)
qed



text \<open>
  When the socket of a registered client cannot be connected again and the client is then added as a
  new one, its old node stays in front: the name has one entry more, and messages to it go to the
  old node.
\<close>

lemma failed_reconnect_shadows:
  assumes "numOfClients cl \<noteq> 0" "entries cl name = 1"
    and "reregister api auth name url (reg_list cl) e = Inr (False, nodes, e1)"
    and "addToList api auth name url (cl\<lparr>reg_list := nodes\<rparr>, e1) = Inr (0, cl', e')"
  shows "handle_registration api auth name url (cl, e) = Inr (cl', e') \<and> entries cl' name = 2 \<and>
    (\<exists>old. old \<in> set nodes \<and> service_name old = name \<and> find_client name (reg_list cl') = Some old)"
proof -
  have names: "map service_name nodes = map service_name (reg_list cl)"
    by (rule same_but_names [OF reregister_nodes [OF assms(3)]])
  from addToList_cases [OF assms(4)] obtain node where
    c: "reg_list cl' = nodes @ [node]" "service_name node = name"
    by (auto simp: new_client_def parStrncpy_id split: if_splits)
  have two: "entries cl' name = 2" using names assms(2) c by (simp add: entries_names)
  have "name \<in> service_name ` set nodes"
    using assms(2) names entries_pos [of cl name] by (metis image_set less_numeral_extra(1))
  then obtain old where old: "find_client name nodes = Some old"
    using find_client_None by fastforce
  moreover have "find_client name nodes = Some old \<Longrightarrow> find_client name (nodes @ [node]) = Some old"
    by (induction nodes) auto
  ultimately have "find_client name (reg_list cl') = Some old" using c by simp
  with two find_client_SomeD [OF old] assms show ?thesis
    by (auto simp: handle_registration_def get_numOfClients_def)
qed

lemma failed_reconnect_shadows_witness:
  "\<exists>cl' e'. handle_registration flaky_nn (3, Some ''ack'') ''iot'' ''u'' (one_client, 0) = Inr (cl', e') \<and>
     entries cl' ''iot'' = 2"
proof -
  have "reregister flaky_nn (3, Some ''ack'') ''iot'' ''u'' (reg_list one_client) 0 =
      Inr (False, [(new_client 7 1 ''iot'' ''u'')], 1)" by code_simp
  moreover have "addToList flaky_nn (3, Some ''ack'') ''iot'' ''u''
      (one_client\<lparr>reg_list := [new_client 7 1 ''iot'' ''u'']\<rparr>, 1) =
      Inr (0, \<lparr> reg_list = [new_client 7 1 ''iot'' ''u'', new_client 8 1 ''iot'' ''u''], numOfClients = 2 \<rparr>, 2)"
    by code_simp
  moreover have "numOfClients one_client \<noteq> 0" "entries one_client ''iot'' = 1" by code_simp+
  ultimately show ?thesis
    using failed_reconnect_shadows [of one_client "''iot''" flaky_nn "(3, Some ''ack'')" "''u''" 0] by blast
qed

text \<open>
  C36. With partner ids configured, an event is encoded anew and sent with all its other fields; it has
  no partner ids exactly when one of its own is a configured one, and otherwise its own and all the
  configured ones.
\<close>

theorem upstream_event_partners:
  assumes "partner_id (ue_cfg E) \<noteq> []" "length (partner_id (ue_cfg E)) < 64"
    and "wm_type m = WRP_MSG_TYPE__EVENT" "\<forall>ev. \<exists>sz b. encode_event (ue_wrp E) ev = (sz, Some b) \<and> 0 < sz"
  shows "\<exists>ids sz b lv'. encode_event (ue_wrp E) (event_with_partners m ids) = (sz, Some b) \<and>
    handle_decoded E lv bytes len m s =
      Inr (lv', s, sendUpstreamMsgToServer (ue_meta E) (ue_cfg E) (ue_flags E) b (nat sz)) \<and>
    (ids = None \<longleftrightarrow> (\<exists>ps. wm_partner_ids m = Some ps \<and>
       partner_match ps (fst (parse_partner_id (partner_id (ue_cfg E)))))) \<and>
    (\<forall>l. ids = Some l \<longrightarrow> (\<forall>ps. wm_partner_ids m = Some ps \<longrightarrow> set ps \<subseteq> set l) \<and>
       set (fst (parse_partner_id (partner_id (ue_cfg E)))) \<subseteq> set l)"
proof -
  from validate_event [OF assms(1,2), of "wm_partner_ids m"] obtain ids where
    v: "validate_partner_id (partner_id (ue_cfg E)) False (EventMsg (wm_partner_ids m)) = Inr (1, ids)" and
    ids: "ids = None \<longleftrightarrow> (\<exists>ps. wm_partner_ids m = Some ps \<and>
       partner_match ps (fst (parse_partner_id (partner_id (ue_cfg E)))))"
     "\<forall>l. ids = Some l \<longrightarrow> (\<forall>ps. wm_partner_ids m = Some ps \<longrightarrow> set ps \<subseteq> set l) \<and>
       set (fst (parse_partner_id (partner_id (ue_cfg E)))) \<subseteq> set l" by blast
  from assms(4) obtain sz b where enc: "encode_event (ue_wrp E) (event_with_partners m ids) = (sz, Some b)" "0 < sz"
    by blast
  then have "handle_decoded E lv bytes len m s = Inr (lv\<lparr>bytes_uninit := False\<rparr>, s,
      sendUpstreamMsgToServer (ue_meta E) (ue_cfg E) (ue_flags E) b (nat sz))"
    using assms(3) v by (simp add: handle_decoded_def handle_event_def)
  with enc(1) ids show ?thesis by blast
qed

theorem upstream_event_partners_witness:
  "\<exists>lv'. handle_decoded (sample_up (sample_up_msg WRP_MSG_TYPE__EVENT ''d'')) \<lparr> msg_uninit = True, bytes_uninit = True \<rparr>
     ''b'' 5 (sample_up_msg WRP_MSG_TYPE__EVENT ''d'') (one_client, ()) =
     Inr (lv', (one_client, ()), [SendServer ''evtm'' 4])"
  using upstream_event_partners [of "sample_up (sample_up_msg WRP_MSG_TYPE__EVENT ''d'')"
      "sample_up_msg WRP_MSG_TYPE__EVENT ''d''" "\<lparr> msg_uninit = True, bytes_uninit = True \<rparr>" "''b''" 5 "(one_client, ())"]
  by (auto simp: sample_up_def sample_up_msg_def sample_down_def sendUpstreamMsgToServer_def get_close_retry_def)

lemma dest_at_Suc: "dest_at dest (Suc n) = (case drop n dest of [] \<Rightarrow> Inl OutOfBounds | c # rest \<Rightarrow> Inr rest)"
proof (cases "drop n dest")
  case (Cons c rest)
  then have "drop (Suc n) dest = rest" by (simp add: drop_Suc drop_tl)
  moreover have "Suc n \<le> length dest" using Cons by (metis Suc_leI drop_eq_Nil list.distinct(1) not_le)
  ultimately show ?thesis using Cons by (simp add: dest_at_def)
qed (simp add: dest_at_def)

text \<open>
  C34. What becomes of a retrieve message from a client, for every destination and every configuration: a device
  without a MAC address ignores it; a destination that does not begin with the device id, up to case, be it shorter or
  different, goes to the server unchanged; one that does goes to the CRUD queue when the text from the second
  character after the device id begins with \<open>parodu\<close>, and otherwise to a client; one that is the device id
  makes the code read behind the string, and a missing destination is read through a null pointer.
\<close>

theorem upstream_retrieve_routing:
  assumes "wm_type m = WRP_MSG_TYPE__RETREIVE"
  shows "handle_decoded E lv bytes len m s =
    (if hw_mac (ue_cfg E) = [] then Inr (lv, s, [])
     else case crud_dest (wm_crud m) of
       None \<Rightarrow> Inl NullDeref
     | Some dest \<Rightarrow>
         let dev = ''mac:'' @ hw_mac (ue_cfg E) in
         if strcasecmp_eq dev (take (length dev) dest) then
           (case drop (length dev) dest of
              [] \<Rightarrow> Inl OutOfBounds
            | c # service \<Rightarrow>
                if take 6 service = ''parodu''
                then Inr (lv, s, [QueueCrud (createUpstreamRetrieveMsg WRP_MSG_TYPE__RETREIVE (wm_crud m))])
                else Inr (lv, getServiceNameAndSendResponse E dest bytes len s, []))
         else Inr (lv, s, send_original E bytes len))"
proof (cases "hw_mac (ue_cfg E) = [] \<or> crud_dest (wm_crud m) = None")
  case True
  with assms show ?thesis
    by (auto simp: handle_decoded_def handle_crud_def getDeviceId_def deref_def split_beta split: option.splits)
next
  case False
  then obtain dest where dest: "crud_dest (wm_crud m) = Some dest" and mac: "hw_mac (ue_cfg E) \<noteq> []" by auto
  let ?dev = "''mac:'' @ hw_mac (ue_cfg E)"
  have len: "length (hw_mac (ue_cfg E)) + 5 - 1 = length ?dev" "length (hw_mac (ue_cfg E)) + 5 = Suc (length ?dev)" by simp_all
  have same: "strncasecmp_eq ?dev dest (length (hw_mac (ue_cfg E)) + 5 - 1) = strcasecmp_eq ?dev (take (length ?dev) dest)"
    unfolding len(1) by (simp add: strncasecmp_eq_def strcasecmp_eq_def take_map del: append.simps)
  have at: "dest_at dest (length (hw_mac (ue_cfg E)) + 5) =
      (case drop (length ?dev) dest of [] \<Rightarrow> Inl OutOfBounds | c # service \<Rightarrow> Inr service)"
    unfolding len(2) by (rule dest_at_Suc)
  have "strncmp_eq ''parodus'' service (length ''parodus'' - 1) \<longleftrightarrow> take 6 service = ''parodu''" for service
    by (auto simp: strncmp_eq_def eval_nat_numeral)
  with assms mac dest same at show ?thesis
    by (simp add: handle_decoded_def handle_crud_def getDeviceId_def deref_def Let_def split_beta split: list.split
        del: append.simps)
qed

theorem upstream_retrieve_routing_witness:
  "handle_decoded (sample_up (sample_up_msg WRP_MSG_TYPE__RETREIVE ''d'')) \<lparr> msg_uninit = True, bytes_uninit = True \<rparr>
     ''b'' 5 (sample_up_msg WRP_MSG_TYPE__RETREIVE ''MAC:1/parodux'') (one_client, ()) =
     Inr (\<lparr> msg_uninit = True, bytes_uninit = True \<rparr>, (one_client, ()), [QueueCrud (createUpstreamRetrieveMsg WRP_MSG_TYPE__RETREIVE (wm_crud (sample_request ''MAC:1/parodux'')))]) \<and>
   handle_decoded (sample_up (sample_up_msg WRP_MSG_TYPE__RETREIVE ''d'')) \<lparr> msg_uninit = True, bytes_uninit = True \<rparr>
     ''b'' 5 (sample_up_msg WRP_MSG_TYPE__RETREIVE ''dns:'') (one_client, ()) =
     Inr (\<lparr> msg_uninit = True, bytes_uninit = True \<rparr>, (one_client, ()), send_original (sample_up (sample_up_msg WRP_MSG_TYPE__RETREIVE ''d'')) ''b'' 5)"
proof -
  let ?E = "sample_up (sample_up_msg WRP_MSG_TYPE__RETREIVE ''d'')"
  have c: "strcasecmp_eq ''mac:1'' ''MAC:1''" "\<not> strcasecmp_eq ''mac:1'' ''dns:''" by code_simp+
  have ty: "wm_type (sample_up_msg WRP_MSG_TYPE__RETREIVE d) = WRP_MSG_TYPE__RETREIVE"
    "crud_dest (wm_crud (sample_up_msg WRP_MSG_TYPE__RETREIVE d)) = Some d" "hw_mac (ue_cfg ?E) = ''1''"
    "wm_crud (sample_up_msg WRP_MSG_TYPE__RETREIVE d) = wm_crud (sample_request d)" for d
    by (simp_all add: sample_up_msg_def sample_up_def sample_request_def)
  note r = upstream_retrieve_routing [OF ty(1), where E = ?E and lv = "\<lparr> msg_uninit = True, bytes_uninit = True \<rparr>" and bytes = "''b''" and len = 5 and s = "(one_client, ())", unfolded ty(2,3)]
  from r [of "''MAC:1/parodux''"] r [of "''dns:''"] c show ?thesis by (simp add: ty(4) Let_def)
qed

end
