(* ===== verification/Nopoll.thy ===== *)
theory Nopoll
  imports Config Timers
begin

text \<open>
  \<^verbatim>\<open>nopoll_helpers.c\<close> and the callbacks of \<^verbatim>\<open>nopoll_handlers.c\<close> for pings and closed connections: sending a
  message to the server in frames of a bounded size, and what a ping or a close does to the state of
  the connection (\<open>conn_state\<close>), the file-scoped variables of \<^verbatim>\<open>connection.c\<close> with the configuration and
  the flags.

  The web socket library is a record of functions over a state \<open>'e\<close> of its own. A connection is a
  value of type \<open>'c\<close>.
\<close>

record 'c conn_state =
  cs_conn :: "'c option"
  cs_cfg :: ParodusCfg
  cs_flags :: flags
  cs_shutdown_reason :: "string option"
  cs_reconnect_reason :: string
  cs_reconnect_status :: bool
  cs_disconnect_time :: int
  cs_handlers :: "'c option"      \<comment> \<open>the connection that has the message handlers\<close>

definition set_global_reconnect_reason :: "string \<Rightarrow> 'c conn_state \<Rightarrow> 'c conn_state" where
  "set_global_reconnect_reason reason s = s\<lparr>cs_reconnect_reason := reason\<rparr>"

definition set_global_reconnect_status :: "bool \<Rightarrow> 'c conn_state \<Rightarrow> 'c conn_state" where
  "set_global_reconnect_status status s = s\<lparr>cs_reconnect_status := status\<rparr>"

definition setMessageHandlers :: "'c conn_state \<Rightarrow> 'c conn_state" where
  "setMessageHandlers s = s\<lparr>cs_handlers := cs_conn s\<rparr>"

subsection \<open>Sending\<close>

datatype frame_type = NOPOLL_BINARY_FRAME | NOPOLL_CONTINUATION_FRAME

text \<open>
  \<^verbatim>\<open>__nopoll_conn_send_common\<close> with the content of the frame, the final flag and the type, and
  \<^verbatim>\<open>nopoll_conn_flush_writes\<close> with the number of bytes already written.
\<close>

record ('c, 'e) np_send_api =
  np_send_common :: "'c option \<Rightarrow> char list \<Rightarrow> bool \<Rightarrow> frame_type \<Rightarrow> 'e \<Rightarrow> int \<times> 'e"
  np_flush_writes :: "'c option \<Rightarrow> int \<Rightarrow> 'e \<Rightarrow> int \<times> 'e"

definition MAX_SEND_SIZE :: nat where "MAX_SEND_SIZE = 60 * 1024"

text \<open>
  The loop of \<open>sendResponse\<close>; \<open>cp\<close> is the rest of the buffer from the pointer on, and its bytes up to
  \<open>length\<close> exist.
\<close>

function send_loop ::
  "('c, 'e) np_send_api \<Rightarrow> 'c option \<Rightarrow> char list \<Rightarrow> nat \<Rightarrow> int \<Rightarrow> frame_type \<Rightarrow> 'e \<Rightarrow> int \<times> 'e" where
  "send_loop api conn cp len final_len_sent frame_type e =
     (if 0 < len then
        let len_to_send = (if MAX_SEND_SIZE < len then MAX_SEND_SIZE else len);
            len = len - len_to_send
        in case np_send_common api conn (take len_to_send cp) (\<not> 0 < len) frame_type e of (bytes_sent, e) \<Rightarrow>
          if bytes_sent \<noteq> int len_to_send then
            if bytes_sent = - 1 then (final_len_sent, e)
            else (case np_flush_writes api conn bytes_sent e of (bytes_sent, e) \<Rightarrow>
                    if bytes_sent \<noteq> int len_to_send then (final_len_sent, e)
                    else send_loop api conn (drop len_to_send cp) len (final_len_sent + int len_to_send)
                           NOPOLL_CONTINUATION_FRAME e)
          else send_loop api conn (drop len_to_send cp) len (final_len_sent + int len_to_send)
                 NOPOLL_CONTINUATION_FRAME e
      else (final_len_sent, e))"
  by pat_completeness auto
termination
  by (relation "measure (\<lambda>(api, conn, cp, len, f, t, e). len)") (auto simp: MAX_SEND_SIZE_def)

declare send_loop.simps [simp del]

definition sendResponse ::
  "('c, 'e) np_send_api \<Rightarrow> 'c option \<Rightarrow> char list \<Rightarrow> nat \<Rightarrow> 'e \<Rightarrow> int \<times> 'e" where
  "sendResponse api conn buffer len e = send_loop api conn buffer len 0 NOPOLL_BINARY_FRAME e"

definition cloud_status_is_online :: "ParodusCfg \<Rightarrow> bool" where
  "cloud_status_is_online cfg =
     (case cloud_status cfg of None \<Rightarrow> False | Some status \<Rightarrow> status = CLOUD_STATUS_ONLINE)"

text \<open>A write that falls short is only logged.\<close>

definition sendMessage ::
  "('c, 'e) np_send_api \<Rightarrow> ParodusCfg \<Rightarrow> 'c option \<Rightarrow> char list \<Rightarrow> nat \<Rightarrow> 'e \<Rightarrow> 'e" where
  "sendMessage api cfg conn msg len e =
     (if \<not> cloud_status_is_online cfg then e else snd (sendResponse api conn msg len e))"

subsection \<open>Callbacks\<close>

text \<open>\<open>listenerOnPingMessage\<close> for a message with the given payload and whether it is a ping frame.\<close>

definition listenerOnPingMessage :: "string option \<Rightarrow> bool \<Rightarrow> 'c conn_state \<Rightarrow> 'c conn_state" where
  "listenerOnPingMessage payload is_ping s =
     (if payload \<noteq> None \<and> is_ping then s\<lparr>cs_flags := reset_heartBeatTimer (cs_flags s)\<rparr> else s)"

definition listenerOnCloseMessage :: "int \<Rightarrow> 'c conn_state \<Rightarrow> 'c conn_state" where
  "listenerOnCloseMessage closeStatus s =
     (let s = (if closeStatus = 1006 \<and> \<not> cs_reconnect_status s
               then set_global_reconnect_status True (set_global_reconnect_reason ''SSL_Socket_Close'' s)
               else if \<not> cs_reconnect_status s then set_global_reconnect_reason ''Unknown'' s
               else s)
      in if \<not> get_interface_down_event (cs_flags s) then s\<lparr>cs_flags := set_close_retry (cs_flags s)\<rparr> else s)"

subsection \<open>Frames\<close>

text \<open>The frames of a message, and sending them one after the other until one fails.\<close>

definition frame_count :: "char list \<Rightarrow> nat" where
  "frame_count buf = (length buf + (MAX_SEND_SIZE - 1)) div MAX_SEND_SIZE"

definition frame_at :: "char list \<Rightarrow> nat \<Rightarrow> char list \<times> bool \<times> frame_type" where
  "frame_at buf i = (take MAX_SEND_SIZE (drop (i * MAX_SEND_SIZE) buf), Suc i = frame_count buf,
     if i = 0 then NOPOLL_BINARY_FRAME else NOPOLL_CONTINUATION_FRAME)"

definition frames :: "char list \<Rightarrow> (char list \<times> bool \<times> frame_type) list" where
  "frames buf = map (frame_at buf) [0 ..< frame_count buf]"

definition send_frame ::
  "('c, 'e) np_send_api \<Rightarrow> 'c option \<Rightarrow> char list \<times> bool \<times> frame_type \<Rightarrow> 'e \<Rightarrow> bool \<times> 'e" where
  "send_frame api conn fr e =
     (case fr of (content, fin, ty) \<Rightarrow>
      case np_send_common api conn content fin ty e of (sent, e) \<Rightarrow>
        if sent = int (length content) then (True, e)
        else if sent = - 1 then (False, e)
        else (case np_flush_writes api conn sent e of (sent, e) \<Rightarrow> (sent = int (length content), e)))"

fun send_frames ::
  "('c, 'e) np_send_api \<Rightarrow> 'c option \<Rightarrow> (char list \<times> bool \<times> frame_type) list \<Rightarrow> int \<Rightarrow> 'e \<Rightarrow> int \<times> 'e" where
  "send_frames api conn [] sent_len e = (sent_len, e)"
| "send_frames api conn (fr # frs) sent_len e =
     (case send_frame api conn fr e of (ok, e) \<Rightarrow>
        if ok then send_frames api conn frs (sent_len + int (length (fst fr))) e else (sent_len, e))"

lemma frame_count_less: "k < frame_count buf \<longleftrightarrow> k * MAX_SEND_SIZE < length buf"
proof -
  have m: "0 < MAX_SEND_SIZE" by (simp add: MAX_SEND_SIZE_def)
  have "k < frame_count buf \<longleftrightarrow> Suc k * MAX_SEND_SIZE \<le> length buf + (MAX_SEND_SIZE - 1)"
    unfolding frame_count_def using less_eq_div_iff_mult_less_eq [OF m, of "Suc k"] by (simp only: Suc_le_eq)
  with m show ?thesis by auto
qed

lemma frame_contents: "k \<le> frame_count buf \<Longrightarrow>
  concat (map (fst \<circ> frame_at buf) [k ..< frame_count buf]) = drop (k * MAX_SEND_SIZE) buf"
proof (induction "frame_count buf - k" arbitrary: k)
  case 0
  then have "k = frame_count buf" "length buf \<le> k * MAX_SEND_SIZE"
    using frame_count_less [of k buf] by auto
  then show ?case by simp
next
  case (Suc n)
  then have k: "k < frame_count buf" by simp
  have "drop (k * MAX_SEND_SIZE) buf = take MAX_SEND_SIZE (drop (k * MAX_SEND_SIZE) buf) @
      drop (Suc k * MAX_SEND_SIZE) buf"
    using append_take_drop_id [of MAX_SEND_SIZE "drop (k * MAX_SEND_SIZE) buf"] by (simp add: add.commute)
  with k Suc.hyps(1) [of "Suc k"] Suc.hyps(2) show ?case by (simp add: upt_conv_Cons frame_at_def)
qed

lemma send_loop_frames:
  "k \<le> frame_count buf \<Longrightarrow>
   send_loop api conn (drop (k * MAX_SEND_SIZE) buf) (length buf - k * MAX_SEND_SIZE) sent_len
     (if k = 0 then NOPOLL_BINARY_FRAME else NOPOLL_CONTINUATION_FRAME) e =
   send_frames api conn (map (frame_at buf) [k ..< frame_count buf]) sent_len e"
proof (induction "frame_count buf - k" arbitrary: k sent_len e)
  case 0
  then have k: "k = frame_count buf" "length buf - k * MAX_SEND_SIZE = 0"
    using frame_count_less [of k buf] by auto
  show ?case unfolding k(2) by (subst send_loop.simps) (simp add: k(1))
next
  case (Suc n)
  then have k: "k < frame_count buf" by simp
  define rest where "rest = length buf - k * MAX_SEND_SIZE"
  define l where "l = (if MAX_SEND_SIZE < rest then MAX_SEND_SIZE else rest)"
  define c where "c = fst (frame_at buf k)"
  define ty where "ty = (if k = 0 then NOPOLL_BINARY_FRAME else NOPOLL_CONTINUATION_FRAME)"
  have pos: "0 < rest" using k by (simp add: frame_count_less rest_def)
  have cont: "take l (drop (k * MAX_SEND_SIZE) buf) = c" "length c = l"
    by (simp_all add: frame_at_def c_def l_def rest_def)
  have nxt: "drop l (drop (k * MAX_SEND_SIZE) buf) = drop (Suc k * MAX_SEND_SIZE) buf"
    "rest - l = length buf - Suc k * MAX_SEND_SIZE" by (auto simp: add.commute l_def rest_def)
  have "Suc k = frame_count buf \<longleftrightarrow> \<not> Suc k < frame_count buf" using k by linarith
  then have fin: "Suc k = frame_count buf \<longleftrightarrow> \<not> 0 < rest - l" using nxt(2) by (simp add: frame_count_less)
  have IH: "send_loop api conn (drop (Suc k * MAX_SEND_SIZE) buf) (length buf - Suc k * MAX_SEND_SIZE) t
      NOPOLL_CONTINUATION_FRAME e' = send_frames api conn (map (frame_at buf) [Suc k ..< frame_count buf]) t e'" for t e'
    using Suc.hyps(1) [of "Suc k" t e'] Suc.hyps(2) k by simp
  have fr: "frame_at buf k = (c, \<not> 0 < rest - l, ty)"
    using fin by (simp add: frame_at_def c_def ty_def)
  obtain sent e1 where s: "np_send_common api conn c (\<not> 0 < rest - l) ty e = (sent, e1)" by fastforce
  obtain flushed e2 where f: "np_flush_writes api conn sent e1 = (flushed, e2)" by fastforce
  have "send_loop api conn (drop (k * MAX_SEND_SIZE) buf) rest sent_len ty e =
      (if sent \<noteq> int l then
         if sent = - 1 then (sent_len, e1)
         else if flushed \<noteq> int l then (sent_len, e2)
         else send_frames api conn (map (frame_at buf) [Suc k ..< frame_count buf]) (sent_len + int l) e2
       else send_frames api conn (map (frame_at buf) [Suc k ..< frame_count buf]) (sent_len + int l) e1)"
    by (subst send_loop.simps)
       (simp only: Let_def l_def [symmetric] cont nxt(1) s f pos if_True prod.case IH [folded nxt(2)])
  moreover have "send_frame api conn (c, \<not> 0 < rest - l, ty) e =
      (if sent = int l then (True, e1) else if sent = - 1 then (False, e1) else (flushed = int l, e2))"
    by (simp only: send_frame_def prod.case s f cont(2))
  moreover have "length (fst (c, \<not> 0 < rest - l, ty)) = l" by (simp only: fst_conv cont(2))
  ultimately show ?case
    unfolding rest_def [symmetric] ty_def [symmetric] upt_conv_Cons [OF k] list.map fr send_frames.simps
    by (cases "sent = int l"; cases "sent = - 1"; cases "flushed = int l") simp_all
qed

subsection \<open>Properties\<close>

text \<open>
  C22. \<open>sendResponse\<close> sends the frames of the message one after the other until one fails, and returns the
  number of bytes in the frames that were sent. The frames have at most \<open>MAX_SEND_SIZE\<close> bytes, together
  they are the message, only the last is final, and only the first is not a continuation.
\<close>

theorem sendResponse_frames:
  "sendResponse api conn buf (length buf) e = send_frames api conn (frames buf) 0 e \<and>
   concat (map fst (frames buf)) = buf \<and> list_all (\<lambda>(b, _). b \<noteq> [] \<and> length b \<le> MAX_SEND_SIZE) (frames buf) \<and>
   map (fst \<circ> snd) (frames buf) = map (\<lambda>i. Suc i = length (frames buf)) [0 ..< length (frames buf)] \<and>
   map (snd \<circ> snd) (frames buf) =
     map (\<lambda>i. if i = 0 then NOPOLL_BINARY_FRAME else NOPOLL_CONTINUATION_FRAME) [0 ..< length (frames buf)]"
proof -
  have "list_all (\<lambda>(b, _). b \<noteq> [] \<and> length b \<le> MAX_SEND_SIZE) (frames buf)"
    by (auto simp: frames_def frame_at_def list_all_iff frame_count_less MAX_SEND_SIZE_def)
  moreover have "sendResponse api conn buf (length buf) e = send_frames api conn (frames buf) 0 e"
    using send_loop_frames [of 0 buf api conn 0 e] by (simp add: sendResponse_def frames_def)
  moreover have "concat (map fst (frames buf)) = buf"
    using frame_contents [of 0 buf] by (simp add: frames_def comp_def)
  ultimately show ?thesis by (simp add: frames_def frame_at_def comp_def)
qed

end
