(* ===== verification/Auth_Token.thy ===== *)
theory Auth_Token
  imports Config
begin

text \<open>
  \<^verbatim>\<open>auth_token.c\<close>: the authorization token is fetched from a token server through curl, with up to three
  attempts, into the array \<open>webpa_auth_token\<close> of the configuration.

  A transfer is described by what curl does: the chunks it delivers to the write callback, the result
  of the transfer when the callback accepted every chunk, and the HTTP status. When the callback
  returns less than it was given, curl delivers no more and fails with \<open>CURLE_WRITE_ERROR\<close>.
\<close>

text \<open>The array as bytes, and the number of bytes written so far.\<close>

record token_data =
  td_size :: nat
  td_data :: "char list"

definition MAX_TOKEN_SIZE :: nat where "MAX_TOKEN_SIZE = 4096"

definition write_callback_fn :: "char list \<Rightarrow> token_data \<Rightarrow> fault + nat \<times> token_data" where
  "write_callback_fn buffer data =
     (let index = td_size data; n = length buffer; size' = index + n in
      if MAX_TOKEN_SIZE \<le> size' then Inr (0, data\<lparr>td_size := 0\<rparr>)
      else if length (td_data data) \<le> size' then Inl OutOfBounds
      else Inr (n, \<lparr> td_size = size',
             td_data = (take index (td_data data) @ buffer @ drop size' (td_data data))[size' := NUL] \<rparr>))"

definition CURLE_WRITE_ERROR :: int where "CURLE_WRITE_ERROR = 23"

text \<open>The transfer: chunks until the callback refuses one; the flag says whether it accepted all.\<close>

fun deliver :: "char list list \<Rightarrow> token_data \<Rightarrow> fault + bool \<times> token_data" where
  "deliver [] data = Inr (True, data)"
| "deliver (c # cs) data =
     then_run (write_callback_fn c data) (\<lambda>(n, data).
       if n \<noteq> length c then Inr (False, data) else deliver cs data)"

datatype ip_resolve = CURL_IPRESOLVE_WHATEVER | CURL_IPRESOLVE_V4 | CURL_IPRESOLVE_V6

text \<open>
  What curl is asked for, and what it answers: \<open>None\<close> where \<open>curl_easy_init\<close> fails, otherwise the chunks,
  the result of \<open>curl_easy_perform\<close> and the response code.
\<close>

record curl_request =
  rq_url :: "string option"
  rq_interface :: "string option"
  rq_headers :: "string list"
  rq_ipresolve :: ip_resolve
  rq_cert :: "string option"
  rq_ca :: string

record curl_response =
  rs_chunks :: "char list list"
  rs_code :: int
  rs_http :: int

type_synonym 'e curl = "curl_request \<Rightarrow> 'e \<Rightarrow> curl_response option \<times> 'e"

subsection \<open>The headers\<close>

definition MAX_BUF_SIZE :: nat where "MAX_BUF_SIZE = 256"

text \<open>\<^verbatim>\<open>snprintf\<close> into \<open>buf\<close>.\<close>

definition header_line :: "string \<Rightarrow> string \<Rightarrow> string" where
  "header_line name val = take (MAX_BUF_SIZE - 1) (name @ '': '' @ val)"

definition createCurlheader :: "ParodusCfg \<Rightarrow> string \<Rightarrow> string option \<Rightarrow> string list" where
  "createCurlheader cfg reconnect_reason uuid =
     [header_line ''X-Midt-Mac-Address'' (hw_mac cfg),
      header_line ''X-Midt-Serial-Number'' (hw_serial_number cfg)] @
     (case uuid of None \<Rightarrow> [] | Some u \<Rightarrow> [header_line ''X-Midt-Uuid'' u]) @
     [header_line ''X-Midt-Partner-Id'' (partner_id cfg),
      header_line ''X-Midt-Hardware-Model'' (hw_model cfg),
      header_line ''X-Midt-Hardware-Manufacturer'' (hw_manufacturer cfg),
      header_line ''X-Midt-Firmware-Name'' (fw_name cfg),
      header_line ''X-Midt-Protocol'' (webpa_protocol cfg),
      header_line ''X-Midt-Interface-Used'' (webpa_interface_used cfg),
      header_line ''X-Midt-Last-Reboot-Reason'' (hw_last_reboot_reason cfg),
      header_line ''X-Midt-Last-Reconnect-Reason'' reconnect_reason,
      header_line ''X-Midt-Boot-Retry-Wait'' (print_int (sint (boot_retry_wait cfg)))]"

subsection \<open>Requests\<close>

definition cleared :: "char list \<Rightarrow> char list" where
  "cleared buf = replicate (length buf) NUL"

text \<open>What curl is asked for in the attempt \<open>r_count\<close>.\<close>

definition token_request :: "ParodusCfg \<Rightarrow> string \<Rightarrow> string option \<Rightarrow> int \<Rightarrow> curl_request" where
  "token_request cfg reconnect_reason uuid r_count =
     \<lparr> rq_url = token_server_url cfg,
       rq_interface = (if webpa_interface_used cfg \<noteq> [] then Some (webpa_interface_used cfg) else None),
       rq_headers = createCurlheader cfg reconnect_reason uuid,
       rq_ipresolve = (if r_count = 1 then CURL_IPRESOLVE_V4
                       else if r_count = 2 then CURL_IPRESOLVE_V6 else CURL_IPRESOLVE_WHATEVER),
       rq_cert = client_cert_path cfg, rq_ca = cert_path cfg \<rparr>"

text \<open>
  The result is the return value, the array and the new value of \<open>g_response_code\<close>. \<open>uuid\<close> is the
  generated transaction id.
\<close>

definition requestNewAuthToken ::
  "'e curl \<Rightarrow> ParodusCfg \<Rightarrow> string \<Rightarrow> string option \<Rightarrow> char list \<Rightarrow> int \<Rightarrow> int \<times> 'e \<Rightarrow>
     fault + int \<times> char list \<times> int \<times> 'e" where
  "requestNewAuthToken curl cfg reconnect_reason uuid newToken r_count s =
     (case s of (g_response_code, e) \<Rightarrow>
      if newToken = [] then Inl OutOfBounds
      else let newToken' = newToken[0 := NUL];
           req = token_request cfg reconnect_reason uuid r_count
      in case curl req e of
           (None, e) \<Rightarrow> Inr (- 1, cleared newToken, g_response_code, e)
         | (Some rs, e) \<Rightarrow>
             then_run (deliver (rs_chunks rs) \<lparr> td_size = 0, td_data = newToken' \<rparr>) (\<lambda>(accepted, data).
             let res = (if accepted then rs_code rs else CURLE_WRITE_ERROR) in
             if res \<noteq> 0 then Inr (- 1, cleared (td_data data), rs_http rs, e)
             else if rs_http rs = 200 then Inr (0, td_data data, rs_http rs, e)
             else Inr (- 1, cleared (td_data data), rs_http rs, e)))"

definition MAX_CURL_RETRY_COUNT :: int where "MAX_CURL_RETRY_COUNT = 3"

text \<open>The loop of \<open>getAuthToken\<close>, for a retry count that is not above the maximum.\<close>

function token_loop ::
  "'e curl \<Rightarrow> ParodusCfg \<Rightarrow> string \<Rightarrow> (int \<Rightarrow> string option) \<Rightarrow> char list \<Rightarrow> int \<Rightarrow> int \<times> 'e \<Rightarrow>
     fault + char list \<times> int \<times> 'e" where
  "token_loop curl cfg reason uuid buf retry_count s =
     then_run (requestNewAuthToken curl cfg reason (uuid retry_count) buf retry_count s) (\<lambda>(status, buf, s).
       if status = 0 then Inr (buf, s)
       else let retry_count = retry_count + 1 in
         if MAX_CURL_RETRY_COUNT \<le> retry_count then Inr (buf, s)
         else token_loop curl cfg reason uuid buf retry_count s)"
  by pat_completeness auto
termination
  by (relation "measure (\<lambda>(curl, cfg, reason, uuid, buf, n, s). nat (MAX_CURL_RETRY_COUNT - n))") auto

declare token_loop.simps [simp del]

text \<open>
  \<open>getAuthToken\<close>; the array is cleared first. The text it holds afterwards is the new
  \<open>webpa_auth_token\<close>.
\<close>

definition getAuthToken ::
  "'e curl \<Rightarrow> string \<Rightarrow> (int \<Rightarrow> string option) \<Rightarrow> ParodusCfg \<Rightarrow> int \<times> 'e \<Rightarrow> fault + ParodusCfg \<times> int \<times> 'e" where
  "getAuthToken curl reason uuid cfg s =
     (let buf = replicate MAX_TOKEN_SIZE NUL; cfg = cfg\<lparr>webpa_auth_token := []\<rparr> in
      if hw_mac cfg \<noteq> [] \<and> (case client_cert_path cfg of None \<Rightarrow> False | Some p \<Rightarrow> p \<noteq> []) then
        then_run (token_loop curl cfg reason uuid buf 0 s) (\<lambda>(buf, s).
          Inr (cfg\<lparr>webpa_auth_token := cstr buf\<rparr>, s))
      else Inr (cfg, s))"


subsection \<open>The array\<close>

text \<open>The array after the bytes \<open>acc\<close> were written to it.\<close>

definition token_holds :: "char list \<Rightarrow> token_data \<Rightarrow> bool" where
  "token_holds acc data \<longleftrightarrow> td_size data = length acc \<and> length acc < MAX_TOKEN_SIZE \<and>
     length (td_data data) = MAX_TOKEN_SIZE \<and> take (Suc (length acc)) (td_data data) = acc @ [NUL]"

lemma write_fits:
  assumes "token_holds acc data" "length acc + length c < MAX_TOKEN_SIZE"
  shows "\<exists>data'. write_callback_fn c data = Inr (length c, data') \<and> token_holds (acc @ c) data'"
proof -
  let ?n = "length acc" and ?m = "length acc + length c" and ?d = "td_data data"
  have d: "td_size data = ?n" "length ?d = MAX_TOKEN_SIZE" "take (Suc ?n) ?d = acc @ [NUL]"
    using assms(1) by (simp_all add: token_holds_def)
  have "take ?n ?d = take ?n (take (Suc ?n) ?d)" by simp
  then have pre: "take ?n ?d = acc" using d(3) by simp
  have "(acc @ c @ drop ?m ?d)[?m := NUL] = acc @ c @ (drop ?m ?d)[0 := NUL]"
    by (simp add: list_update_append)
  moreover have "take 1 ((drop ?m ?d)[0 := NUL]) = [NUL]"
    using assms(2) d(2) by (cases "drop ?m ?d") auto
  ultimately have "take (Suc ?m) ((acc @ c @ drop ?m ?d)[?m := NUL]) = (acc @ c) @ [NUL]" by simp
  then show ?thesis
    using assms(2) d pre by (simp add: write_callback_fn_def Let_def token_holds_def)
qed

lemma write_overrun:
  assumes "token_holds acc data" "MAX_TOKEN_SIZE \<le> length acc + length c"
  shows "write_callback_fn c data = Inr (0, data\<lparr>td_size := 0\<rparr>)" "c \<noteq> []"
  using assms by (auto simp: write_callback_fn_def token_holds_def)

lemma deliver_chunks:
  "token_holds acc data \<Longrightarrow> \<exists>ok data'. deliver cs data = Inr (ok, data') \<and>
     length (td_data data') = MAX_TOKEN_SIZE \<and> (ok \<longleftrightarrow> length (acc @ concat cs) < MAX_TOKEN_SIZE) \<and>
     (ok \<longrightarrow> token_holds (acc @ concat cs) data')"
proof (induction cs arbitrary: acc data)
  case Nil
  then show ?case by (intro exI [of _ True] exI [of _ data]) (simp add: token_holds_def)
next
  case (Cons c cs)
  show ?case
  proof (cases "length acc + length c < MAX_TOKEN_SIZE")
    case True
    from write_fits [OF Cons.prems this] obtain d where
      d: "write_callback_fn c data = Inr (length c, d)" "token_holds (acc @ c) d" by blast
    from Cons.IH [OF d(2)] d(1) show ?thesis by simp
  next
    case False
    with write_overrun [OF Cons.prems, of c] Cons.prems show ?thesis
      by (intro exI [of _ False] exI [of _ "data\<lparr>td_size := 0\<rparr>"]) (simp add: token_holds_def)
  qed
qed

lemma token_holds_cstr: "token_holds acc data \<Longrightarrow> cstr (td_data data) = cstr acc"
proof -
  assume "token_holds acc data"
  then have "(acc @ [NUL]) @ drop (Suc (length acc)) (td_data data) = td_data data"
    using append_take_drop_id [of "Suc (length acc)" "td_data data"] by (simp only: token_holds_def)
  then have "td_data data = acc @ NUL # drop (Suc (length acc)) (td_data data)" by simp
  then have "cstr (td_data data) = cstr (acc @ NUL # drop (Suc (length acc)) (td_data data))" by (rule arg_cong)
  then show ?thesis by (simp add: cstr_def takeWhile_tail)
qed

lemma token_holds_start:
  "length buf = MAX_TOKEN_SIZE \<Longrightarrow> token_holds [] \<lparr> td_size = 0, td_data = buf[0 := NUL] \<rparr>"
  by (cases buf) (auto simp: token_holds_def MAX_TOKEN_SIZE_def)

lemma length_cleared [simp]: "length (cleared buf) = length buf"
  by (simp add: cleared_def)

lemma cstr_cleared [simp]: "cstr (cleared buf) = []"
  by (cases buf) (simp_all add: cleared_def cstr_def)

subsection \<open>The attempts\<close>

text \<open>
  What an answer is worth: the text of its body, when the transfer succeeded with status 200 and the body
  leaves room for the terminator. Then the specification: ask until an answer is worth something.
\<close>

definition token_of :: "curl_response option \<Rightarrow> string option" where
  "token_of answer =
     (case answer of None \<Rightarrow> None
      | Some rs \<Rightarrow> if rs_code rs = 0 \<and> rs_http rs = 200 \<and> length (concat (rs_chunks rs)) < MAX_TOKEN_SIZE
                   then Some (cstr (concat (rs_chunks rs))) else None)"

fun first_token :: "'e curl \<Rightarrow> curl_request list \<Rightarrow> 'e \<Rightarrow> string \<times> 'e" where
  "first_token curl [] e = ([], e)"
| "first_token curl (rq # rqs) e =
     (case curl rq e of (answer, e) \<Rightarrow>
        case token_of answer of None \<Rightarrow> first_token curl rqs e | Some tok \<Rightarrow> (tok, e))"

lemma requestNewAuthToken_answer:
  assumes "length buf = MAX_TOKEN_SIZE" "curl (token_request cfg reason uuid n) e = (answer, e')"
  shows "\<exists>status buf' rc'. requestNewAuthToken curl cfg reason uuid buf n (rc, e) = Inr (status, buf', rc', e') \<and>
    length buf' = MAX_TOKEN_SIZE \<and> (status = 0 \<longleftrightarrow> token_of answer \<noteq> None) \<and>
    cstr buf' = (case token_of answer of None \<Rightarrow> [] | Some t \<Rightarrow> t)"
proof -
  have ne: "buf \<noteq> []" using assms(1) by (auto simp: MAX_TOKEN_SIZE_def)
  show ?thesis
  proof (cases answer)
    case None
    then show ?thesis using assms ne by (simp add: requestNewAuthToken_def Let_def token_of_def)
  next
    case (Some rs)
    from deliver_chunks [OF token_holds_start [OF assms(1)], of "rs_chunks rs"] obtain ok data' where
      d: "deliver (rs_chunks rs) \<lparr> td_size = 0, td_data = buf[0 := NUL] \<rparr> = Inr (ok, data')"
        "length (td_data data') = MAX_TOKEN_SIZE" "ok \<longleftrightarrow> length (concat (rs_chunks rs)) < MAX_TOKEN_SIZE"
        "ok \<longrightarrow> token_holds (concat (rs_chunks rs)) data'" by auto
    then have "ok \<longrightarrow> cstr (td_data data') = cstr (concat (rs_chunks rs))"
      using token_holds_cstr by blast
    with d ne Some assms(2) show ?thesis
      by (auto simp: requestNewAuthToken_def Let_def token_of_def CURLE_WRITE_ERROR_def)
  qed
qed

lemma token_loop_first:
  assumes "length buf = MAX_TOKEN_SIZE" "n < MAX_CURL_RETRY_COUNT"
  shows "\<exists>buf' rc'. token_loop curl cfg reason uuid buf n (rc, e) =
      Inr (buf', rc', snd (first_token curl (map (\<lambda>i. token_request cfg reason (uuid i) i) [n .. MAX_CURL_RETRY_COUNT - 1]) e)) \<and>
    cstr buf' = fst (first_token curl (map (\<lambda>i. token_request cfg reason (uuid i) i) [n .. MAX_CURL_RETRY_COUNT - 1]) e)"
  using assms
proof (induction "nat (MAX_CURL_RETRY_COUNT - n)" arbitrary: n buf rc e)
  case (Suc k)
  obtain answer e1 where c: "curl (token_request cfg reason (uuid n) n) e = (answer, e1)" by fastforce
  from requestNewAuthToken_answer [of buf curl cfg reason "uuid n" n e answer e1 rc, OF Suc.prems(1) c]
  obtain status b rc1 where
    r: "requestNewAuthToken curl cfg reason (uuid n) buf n (rc, e) = Inr (status, b, rc1, e1)"
      "length b = MAX_TOKEN_SIZE" "status = 0 \<longleftrightarrow> token_of answer \<noteq> None"
      "cstr b = (case token_of answer of None \<Rightarrow> [] | Some t \<Rightarrow> t)" by blast
  have upto: "[n .. MAX_CURL_RETRY_COUNT - 1] = n # [n + 1 .. MAX_CURL_RETRY_COUNT - 1]"
    using Suc.prems(2) by (simp add: upto_rec1)
  show ?case
  proof (cases "status = 0 \<or> MAX_CURL_RETRY_COUNT \<le> n + 1")
    case True
    with r c upto show ?thesis
      by (subst token_loop.simps) (auto split: option.splits)
  next
    case False
    with Suc.hyps(2) have "k = nat (MAX_CURL_RETRY_COUNT - (n + 1))" by linarith
    with Suc.hyps(1) [of "n + 1" b rc1 e1] False r c upto show ?thesis
      by (subst token_loop.simps) auto
  qed
qed simp

definition may_ask_token :: "ParodusCfg \<Rightarrow> bool" where
  "may_ask_token cfg \<longleftrightarrow> hw_mac cfg \<noteq> [] \<and> client_cert_path cfg \<noteq> None \<and> client_cert_path cfg \<noteq> Some []"

lemma token_request_upd [simp]:
  "token_request (cfg\<lparr>webpa_auth_token := t\<rparr>) reason uuid n = token_request cfg reason uuid n"
  by (simp add: token_request_def createCurlheader_def)

lemma getAuthToken_first:
  "\<exists>rc'. getAuthToken curl reason uuid cfg (rc, e) =
     (let r = (if may_ask_token cfg
               then first_token curl (map (\<lambda>i. token_request cfg reason (uuid i) i) [0, 1, 2]) e else ([], e))
      in Inr (cfg\<lparr>webpa_auth_token := fst r\<rparr>, rc', snd r))"
proof -
  have three: "[0 .. MAX_CURL_RETRY_COUNT - 1] = [0, 1, 2]" by (simp add: MAX_CURL_RETRY_COUNT_def upto_rec1)
  from token_loop_first [of "replicate MAX_TOKEN_SIZE NUL" 0 curl "cfg\<lparr>webpa_auth_token := []\<rparr>" reason uuid rc e]
  show ?thesis
    unfolding three
    by (cases "client_cert_path cfg")
       (auto simp: getAuthToken_def may_ask_token_def MAX_CURL_RETRY_COUNT_def Let_def)
qed

subsection \<open>Properties\<close>

text \<open>
  Whatever the chunks curl delivers, the write callback stays inside the token array; it accepts them all
  exactly when they fit with their terminator, and the array then holds them.
\<close>

lemma token_array_safe:
  assumes "length buf = MAX_TOKEN_SIZE"
  shows "\<exists>ok data. deliver cs \<lparr> td_size = 0, td_data = buf[0 := NUL] \<rparr> = Inr (ok, data) \<and>
    length (td_data data) = MAX_TOKEN_SIZE \<and> (ok \<longleftrightarrow> length (concat cs) < MAX_TOKEN_SIZE) \<and>
    (ok \<longrightarrow> take (length (concat cs)) (td_data data) = concat cs \<and> td_data data ! length (concat cs) = NUL)"
proof -
  have "take (length a) d = a \<and> d ! length a = NUL"
    if "take (Suc (length a)) d = a @ [NUL]" "length a < length d" for a and d :: "char list"
    using that take_Suc_conv_app_nth [of "length a" d] by auto
  with deliver_chunks [OF token_holds_start [OF assms], of cs] show ?thesis
    by (auto simp: token_holds_def)
qed

lemma token_array_safe_witness:
  "\<exists>data. deliver [''abc'', ''de''] \<lparr> td_size = 0, td_data = (replicate 4096 NUL)[0 := NUL] \<rparr> = Inr (True, data) \<and>
     take 5 (td_data data) = ''abcde''"
  using token_array_safe [of "replicate 4096 NUL" "[''abc'', ''de'']"]
  by (auto simp: MAX_TOKEN_SIZE_def eval_nat_numeral simp del: deliver.simps)

text \<open>
  C26. \<open>getAuthToken\<close> always ends, and never leaves the token array. With a device id and a client certificate
  it asks at most three times, in the default mode, with IPv4 and with IPv6, and stops at the first answer of status
  200 whose body fits the array, which is the new token; without such an answer, or without asking, the token is
  empty.
\<close>

theorem getAuthToken_attempts:
  "\<exists>rc'. getAuthToken curl reason uuid cfg (rc, e) =
     (let r = (if may_ask_token cfg
               then first_token curl (map (\<lambda>i. token_request cfg reason (uuid i) i) [0, 1, 2]) e else ([], e))
      in Inr (cfg\<lparr>webpa_auth_token := fst r\<rparr>, rc', snd r)) \<and>
   map (\<lambda>i. rq_ipresolve (token_request cfg reason (uuid i) i)) [0, 1, 2] =
     [CURL_IPRESOLVE_WHATEVER, CURL_IPRESOLVE_V4, CURL_IPRESOLVE_V6]"
  using getAuthToken_first [of curl reason uuid cfg rc e] by (simp add: token_request_def)

end
