(* ===== verification/Token.thy ===== *)
theory Token
  imports Config Cjson
begin

text \<open>
  \<^verbatim>\<open>token.c\<close>: the JSON web token with the server's address, which is distributed over TXT records of
  a DNS answer. The records carry two-digit sequence numbers and may come in any order; the token is
  put together, decoded and checked.

  A pointer into a record with a length is the list of the bytes it designates. The resolver, the
  parser of DNS messages, cjwt and cJSON are parameters.
\<close>

datatype token_err = TOKEN_ERR_MEMORY_FAIL | TOKEN_ERR_QUERY_DNS_FAIL | TOKEN_ERR_JWT_DECODE_FAIL
  | TOKEN_ERR_ALGO_NOT_ALLOWED | TOKEN_ERR_INVALID_JWT_CONTENT | TOKEN_ERR_NO_EXPIRATION
  | TOKEN_ERR_JWT_EXPIRED | TOKEN_ERR_BAD_ENDPOINT

fun token_err_code :: "token_err \<Rightarrow> int" where
  "token_err_code TOKEN_ERR_MEMORY_FAIL = - 999"
| "token_err_code TOKEN_ERR_QUERY_DNS_FAIL = - 101"
| "token_err_code TOKEN_ERR_JWT_DECODE_FAIL = - 102"
| "token_err_code TOKEN_ERR_ALGO_NOT_ALLOWED = - 103"
| "token_err_code TOKEN_ERR_INVALID_JWT_CONTENT = - 104"
| "token_err_code TOKEN_ERR_NO_EXPIRATION = - 105"
| "token_err_code TOKEN_ERR_JWT_EXPIRED = - 106"
| "token_err_code TOKEN_ERR_BAD_ENDPOINT = - 107"

subsection \<open>The token\<close>

record cjwt_t =
  jwt_private_claims :: "cjson option"
  jwt_exp :: int
  jwt_alg :: int

definition ENDPOINT_NAME :: string where "ENDPOINT_NAME = ''endpoint''"

text \<open>The error, or the value of \<open>allow_insecure\<close> with the address and the port.\<close>

definition analyze_jwt ::
  "cjson_api \<Rightarrow> int \<Rightarrow> cjwt_t \<Rightarrow> fault + token_err + int \<times> string \<times> u32" where
  "analyze_jwt J cur_time jwt =
     (case jwt_private_claims jwt of
        None \<Rightarrow> Inr (Inl TOKEN_ERR_INVALID_JWT_CONTENT)
      | Some claims \<Rightarrow>
          (case cJSON_GetObjectItem J (Some claims) ENDPOINT_NAME of
             None \<Rightarrow> Inr (Inl TOKEN_ERR_INVALID_JWT_CONTENT)
           | Some endpoint \<Rightarrow>
               if jwt_exp jwt = 0 then Inr (Inl TOKEN_ERR_NO_EXPIRATION)
               else if jwt_exp jwt < cur_time then Inr (Inl TOKEN_ERR_JWT_EXPIRED)
               else then_run (deref (cj_valuestring endpoint)) (\<lambda>url.
                 case parse_webpa_url url of
                   None \<Rightarrow> Inr (Inl TOKEN_ERR_BAD_ENDPOINT)
                 | Some server \<Rightarrow> Inr (Inr server))))"

definition validate_algo :: "cjwt_api \<Rightarrow> ParodusCfg \<Rightarrow> cjwt_t \<Rightarrow> bool" where
  "validate_algo api cfg jwt =
     (let alg = jwt_alg jwt in
      if alg < 0 \<or> num_algorithms api \<le> alg then False
      else alg_bit alg AND jwt_algo cfg \<noteq> 0)"

subsection \<open>TXT records\<close>

definition valid_b64_char :: "char \<Rightarrow> bool" where
  "valid_b64_char c \<longleftrightarrow>
     is_alpha_c c \<or> is_digit_c c \<or> c = CHR ''/'' \<or> c = CHR ''+'' \<or> c = CHR ''-'' \<or> c = CHR ''_''"

definition drop_bad_last :: "char list \<Rightarrow> char list" where
  "drop_bad_last r = (if r \<noteq> [] \<and> \<not> valid_b64_char (last r) then butlast r else r)"

definition strip_rr_data :: "char list \<Rightarrow> char list" where
  "strip_rr_data r =
     drop_bad_last (drop_bad_last (if r \<noteq> [] \<and> \<not> is_digit_c (hd r) then tl r else r))"

text \<open>The loop of \<open>find_seq_num\<close>, from index \<open>i\<close> on.\<close>

fun find_seq_loop :: "char list \<Rightarrow> int \<Rightarrow> nat \<Rightarrow> int" where
  "find_seq_loop [] i digit_ct = - 1"
| "find_seq_loop (c # r) i digit_ct =
     (if c = CHR '':'' then (if 2 \<le> digit_ct then i - 2 else - 2)
      else find_seq_loop r (i + 1) (if is_digit_c c then Suc digit_ct else 0))"

definition find_seq_num :: "char list \<Rightarrow> int" where
  "find_seq_num r = find_seq_loop r 0 0"

definition get_rr_seq_num :: "char list \<Rightarrow> int" where
  "get_rr_seq_num r =
     (if length r < 3 then - 1
      else if r ! 2 \<noteq> CHR '':'' then - 1
      else if \<not> is_digit_c (r ! 0) then - 1
      else if \<not> is_digit_c (r ! 1) then - 1
      else 10 * (of_char (r ! 0) - 48) + (of_char (r ! 1) - 48))"

subsection \<open>The sequence table\<close>

definition MAX_RR_RECS :: nat where "MAX_RR_RECS = 10"

definition SEQ_TABLE_SIZE :: nat where "SEQ_TABLE_SIZE = MAX_RR_RECS + 1"

definition ns_t_txt :: int where "ns_t_txt = 16"

record ns_rr =
  ns_rr_type :: int
  ns_rr_rdata :: "char list"

text \<open>A parsed DNS answer: the number of answer records and \<open>ns_parserr\<close> on them.\<close>

record ns_msg =
  ns_msg_count :: nat
  ns_parserr :: "nat \<Rightarrow> int \<times> ns_rr"

type_synonym seq_table = "char list option list"

definition table_at :: "seq_table \<Rightarrow> int \<Rightarrow> fault + char list option" where
  "table_at t i = (if 0 \<le> i \<and> i < int (length t) then Inr (t ! nat i) else Inl OutOfBounds)"

text \<open>
  One text record: the error to return, or the table with the record in the slot of its number.
\<close>

definition enter_record :: "nat \<Rightarrow> char list \<Rightarrow> seq_table \<Rightarrow> fault + int + seq_table" where
  "enter_record num_rr_recs rdata seq_table =
     (let r = strip_rr_data rdata; seq_pos = find_seq_num r in
      if seq_pos = - 2 then Inr (Inl (- 1))
      else let r = (if seq_pos < 0 then r else drop (nat seq_pos) r);
               seq_num = (if seq_pos < 0 then 0 else get_rr_seq_num r)
        in if seq_num < 0 then Inr (Inl (- 1))
           else if int num_rr_recs < seq_num then Inr (Inl (- 1))
           else then_run (table_at seq_table seq_num) (\<lambda>old.
             if old \<noteq> None then Inr (Inl (- 1))
             else Inr (Inr (seq_table[nat seq_num := Some (if seq_num \<noteq> 0 then drop 3 r else r)]))))"

text \<open>
  The loop over the records: the value to return with the table so far, or the number of text records with the table.
\<close>

fun records_loop ::
  "ns_msg \<Rightarrow> nat \<Rightarrow> nat list \<Rightarrow> nat \<Rightarrow> seq_table \<Rightarrow> fault + int \<times> seq_table + nat \<times> seq_table" where
  "records_loop msg num_rr_recs [] num_txt_recs t = Inr (Inr (num_txt_recs, t))"
| "records_loop msg num_rr_recs (i # is) num_txt_recs t =
     (case ns_parserr msg i of (ret, rr) \<Rightarrow>
        if ret \<noteq> 0 then Inr (Inl (ret, t))
        else if ns_rr_type rr \<noteq> ns_t_txt then records_loop msg num_rr_recs is num_txt_recs t
        else then_run (enter_record num_rr_recs (ns_rr_rdata rr) t) (\<lambda>r.
          case r of
            Inl err \<Rightarrow> Inr (Inl (err, t))
          | Inr t \<Rightarrow> records_loop msg num_rr_recs is (Suc num_txt_recs) t))"

text \<open>
  \<open>get_rr_seq_table\<close>: the return value and the table. A result of \<open>ns_parserr\<close> that is not zero is returned as it is.
  The loop that looks for missing records ends before the last one. With too many records the table is left as
  the caller has it; it is not read then.
\<close>

definition get_rr_seq_table :: "ns_msg \<Rightarrow> nat \<Rightarrow> fault + int \<times> seq_table" where
  "get_rr_seq_table msg num_rr_recs =
     (let seq_table = replicate SEQ_TABLE_SIZE None in
      if MAX_RR_RECS < num_rr_recs then Inr (- 1, seq_table)
      else then_run (records_loop msg num_rr_recs [0 ..< num_rr_recs] 0 seq_table) (\<lambda>r.
        case r of
          Inl (ret, t) \<Rightarrow> Inr (ret, t)
        | Inr (num_txt_recs, t) \<Rightarrow>
            if t ! 0 \<noteq> None \<and> 1 < num_txt_recs then Inr (- 1, t)
            else let t = (if t ! 0 \<noteq> None then t[1 := t ! 0] else t)
              in if list_all (\<lambda>i. t ! i \<noteq> None) [1 ..< num_txt_recs] then Inr (int num_txt_recs, t)
                 else Inr (- 1, t)))"

text \<open>
  \<^verbatim>\<open>strncat\<close> of a slot: the bytes up to a null byte; nothing for an empty slot, whose length is zero.
\<close>

definition slot_text :: "char list option \<Rightarrow> string" where
  "slot_text s = (case s of None \<Rightarrow> [] | Some r \<Rightarrow> cstr r)"

text \<open>The loop that joins the slots; every slot it reads is looked up in the table.\<close>

fun join_slots :: "seq_table \<Rightarrow> nat list \<Rightarrow> fault + string" where
  "join_slots t [] = Inr []"
| "join_slots t (i # is) =
     then_run (table_at t (int i)) (\<lambda>s. then_run (join_slots t is) (\<lambda>rest. Inr (slot_text s @ rest)))"

definition assemble_jwt_from_dns :: "ns_msg \<Rightarrow> nat \<Rightarrow> fault + int + string" where
  "assemble_jwt_from_dns msg num_rr_recs =
     then_run (get_rr_seq_table msg num_rr_recs) (\<lambda>(num_txt_recs, t).
     if num_txt_recs < 0 then Inr (Inl num_txt_recs)
     else then_run (join_slots t [1 ..< Suc (nat num_txt_recs)]) (\<lambda>jwt. Inr (Inr jwt)))"

subsection \<open>The query\<close>

definition NS_MAXBUF :: nat where "NS_MAXBUF = 8192"

definition TXT_REC_ID_MAXSIZE :: nat where "TXT_REC_ID_MAXSIZE = 128"

text \<open>
  The resolver: \<open>res_ninit\<close>, \<open>res_nquery\<close> for a name (the length of the answer and the bytes in the
  buffer) and \<open>ns_initparse\<close>.
\<close>

record dns_api =
  res_ninit :: int
  res_nquery :: "string \<Rightarrow> int \<times> char list"
  ns_initparse :: "char list \<Rightarrow> int \<Rightarrow> int \<times> ns_msg"

definition nquery :: "dns_api \<Rightarrow> string \<Rightarrow> int \<times> char list" where
  "nquery D dns_txt_record_id =
     (if res_ninit D < 0 then (- 1, [])
      else case res_nquery D dns_txt_record_id of (len, nsbuf) \<Rightarrow>
        if len < 0 then (len, nsbuf)
        else if int NS_MAXBUF \<le> len then (- 1, nsbuf)
        else (len, nsbuf))"

text \<open>The non-zero return value, or the token.\<close>

definition query_dns :: "dns_api \<Rightarrow> string \<Rightarrow> fault + int + string" where
  "query_dns D dns_txt_record_id =
     (case nquery D dns_txt_record_id of (l, nsbuf) \<Rightarrow>
        if l < 0 then Inr (Inl l)
        else case ns_initparse D nsbuf l of (ret, msg) \<Rightarrow>
          if ret \<noteq> 0 then Inr (Inl ret)
          else assemble_jwt_from_dns msg (ns_msg_count msg))"

definition get_dns_txt_record_id :: "ParodusCfg \<Rightarrow> fault + string" where
  "get_dns_txt_record_id cfg =
     (let s = hw_mac cfg @ ''.'' @ dns_txt_url cfg in
      if length s < TXT_REC_ID_MAXSIZE then Inr s else Inl OutOfBounds)"

text \<open>
  \<open>allow_insecure_conn\<close>: the error, or the flag with the server address and the port. \<open>cjwt_decode\<close>
  returns a status and the decoded token.
\<close>

record token_env =
  te_dns :: dns_api
  te_cjwt :: cjwt_api
  te_json :: cjson_api
  te_decode :: "string \<Rightarrow> string \<Rightarrow> int \<times> cjwt_t option"
  te_time :: int

definition allow_insecure_conn ::
  "token_env \<Rightarrow> ParodusCfg \<Rightarrow> fault + token_err + int \<times> string \<times> u32" where
  "allow_insecure_conn E cfg =
     then_run (get_dns_txt_record_id cfg) (\<lambda>dns_txt_record_id.
     then_run (query_dns (te_dns E) dns_txt_record_id) (\<lambda>q.
     case q of
       Inl ret \<Rightarrow>
         Inr (Inl (if ret = token_err_code TOKEN_ERR_MEMORY_FAIL then TOKEN_ERR_MEMORY_FAIL
                   else TOKEN_ERR_QUERY_DNS_FAIL))
     | Inr jwt_token \<Rightarrow>
         (case te_decode E jwt_token (jwt_key cfg) of (ret, jwt) \<Rightarrow>
            if ret \<noteq> 0 then Inr (Inl TOKEN_ERR_JWT_DECODE_FAIL)
            else then_run (deref jwt) (\<lambda>jwt.
              if validate_algo (te_cjwt E) cfg jwt then analyze_jwt (te_json E) (te_time E) jwt
              else Inr (Inl TOKEN_ERR_ALGO_NOT_ALLOWED)))))"

subsection \<open>The table is never left\<close>

lemma enter_record_cases:
  "\<exists>k x. length x \<le> length d \<and> (enter_record n d t = Inr (Inl (- 1)) \<or> 0 \<le> k \<and> k \<le> int n \<and>
    enter_record n d t = then_run (table_at t k) (\<lambda>old.
      if old \<noteq> None then Inr (Inl (- 1)) else Inr (Inr (t[nat k := Some x]))))"
proof -
  define r p where "r = strip_rr_data d" and "p = find_seq_num r"
  define u k where "u = (if p < 0 then r else drop (nat p) r)" and "k = (if p < 0 then 0 else get_rr_seq_num u)"
  define x where "x = (if k \<noteq> 0 then drop 3 u else u)"
  have "length x \<le> length d"
    by (auto simp: x_def u_def r_def strip_rr_data_def drop_bad_last_def)
  moreover have "enter_record n d t = (if p = - 2 \<or> k < 0 \<or> int n < k then Inr (Inl (- 1))
      else then_run (table_at t k) (\<lambda>old.
        if old \<noteq> None then Inr (Inl (- 1)) else Inr (Inr (t[nat k := Some x]))))"
    unfolding enter_record_def Let_def x_def k_def u_def p_def r_def by simp
  ultimately show ?thesis by (intro exI [of _ k] exI [of _ x]) auto
qed

lemma enter_record_result:
  assumes "length t = SEQ_TABLE_SIZE" "n \<le> MAX_RR_RECS"
  obtains err where "enter_record n d t = Inr (Inl err)"
  | i x where "enter_record n d t = Inr (Inr (t[i := Some x]))" "i < length t" "t ! i = None"
      "length x \<le> length d"
proof -
  obtain k x where x: "length x \<le> length d" and c: "enter_record n d t = Inr (Inl (- 1)) \<or> 0 \<le> k \<and> k \<le> int n \<and>
    enter_record n d t = then_run (table_at t k) (\<lambda>old.
      if old \<noteq> None then Inr (Inl (- 1)) else Inr (Inr (t[nat k := Some x])))"
    using enter_record_cases [of d n t] by blast
  show thesis
  proof (cases "enter_record n d t = Inr (Inl (- 1))")
    case False
    with c assms have k: "nat k < length t" "table_at t k = Inr (t ! nat k)"
      by (auto simp: SEQ_TABLE_SIZE_def table_at_def)
    with c False have "t ! nat k = None" "enter_record n d t = Inr (Inr (t[nat k := Some x]))"
      by (auto split: if_splits)
    with k x show thesis by (intro that(2)) auto
  qed (rule that(1))
qed

definition slots_len :: "seq_table \<Rightarrow> nat" where
  "slots_len t = sum_list (map (\<lambda>s. length (slot_text s)) t)"

definition rdata_len :: "ns_msg \<Rightarrow> nat \<Rightarrow> nat" where
  "rdata_len msg i = (if fst (ns_parserr msg i) = 0 then length (ns_rr_rdata (snd (ns_parserr msg i))) else 0)"

lemma slots_len_update:
  assumes "i < length t" "t ! i = None"
  shows "slots_len (t[i := Some x]) \<le> slots_len t + length x"
  using assms length_cstr(1) [of x] by (simp add: slots_len_def map_update sum_list_update slot_text_def)

lemma records_loop_result:
  assumes "length t = SEQ_TABLE_SIZE" "n \<le> MAX_RR_RECS" "\<And>i. fst (ns_parserr msg i) \<le> 0"
  shows "\<exists>r. records_loop msg n is c t = Inr r \<and>
    (\<forall>err t'. r = Inl (err, t') \<longrightarrow> err < 0) \<and>
    (\<forall>m t'. r = Inr (m, t') \<longrightarrow> length t' = SEQ_TABLE_SIZE \<and> m \<le> c + length is \<and>
       slots_len t' \<le> slots_len t + sum_list (map (rdata_len msg) is))"
  using assms(1)
proof (induction "is" arbitrary: c t)
  case (Cons i "is")
  obtain ret rr where p: "ns_parserr msg i = (ret, rr)" by fastforce
  consider "ret \<noteq> 0" | "ret = 0" "ns_rr_type rr \<noteq> ns_t_txt" | "ret = 0" "ns_rr_type rr = ns_t_txt" by blast
  then show ?case
  proof cases
    case 1
    with p assms(3) [of i] show ?thesis by simp
  next
    case 2
    with Cons.IH [OF Cons.prems, of c] p show ?thesis by (auto simp: trans_le_add2)
  next
    case 3
    show ?thesis
    proof (rule enter_record_result [OF Cons.prems assms(2), of "ns_rr_rdata rr"])
      fix err assume "enter_record n (ns_rr_rdata rr) t = Inr (Inl err)"
      moreover have "err < 0"
        using calculation enter_record_cases [of "ns_rr_rdata rr" n t] by (auto simp: table_at_def split: if_splits)
      ultimately show ?thesis using 3 p by simp
    next
      fix j x assume e: "enter_record n (ns_rr_rdata rr) t = Inr (Inr (t[j := Some x]))" "j < length t"
        "t ! j = None" "length x \<le> length (ns_rr_rdata rr)"
      from slots_len_update [OF e(2,3), of x] e(4) 3
      have "slots_len (t[j := Some x]) \<le> slots_len t + rdata_len msg i" by (simp add: rdata_len_def p)
      moreover from Cons.prems(1) have "length (t[j := Some x]) = SEQ_TABLE_SIZE" by simp
      ultimately show ?thesis using Cons.IH [of "t[j := Some x]" "Suc c"] 3 p e(1) by fastforce
    qed
  qed
qed simp

lemma join_slots_in:
  "\<forall>i \<in> set is. i < length t \<Longrightarrow> join_slots t is = Inr (concat (map (\<lambda>i. slot_text (t ! i)) is))"
  by (induction "is") (simp_all add: table_at_def)

lemma join_slots_range:
  "m < length t \<Longrightarrow> join_slots t [1 ..< Suc m] = Inr (concat (map (\<lambda>i. slot_text (t ! i)) [1 ..< Suc m]))"
  by (rule join_slots_in) auto

lemma slots_len_replicate [simp]: "slots_len (replicate n None) = 0"
  by (simp add: slots_len_def slot_text_def map_replicate_const)

lemma slots_len_range:
  "Suc n \<le> length t \<Longrightarrow> sum_list (map (\<lambda>i. length (slot_text (t ! i))) [1 ..< Suc n]) \<le> slots_len t"
proof -
  assume n: "Suc n \<le> length t"
  have "sum_list (map (\<lambda>i. length (slot_text (t ! i))) [1 ..< Suc n]) =
      (\<Sum>i = 1 ..< Suc n. length (slot_text (t ! i)))"
    by (simp only: interv_sum_list_conv_sum_set_nat set_upt)
  also have "\<dots> \<le> (\<Sum>i = 0 ..< length t. length (slot_text (t ! i)))"
    using n by (intro sum_mono2) auto
  also have "\<dots> = slots_len t" by (simp add: slots_len_def sum_list_sum_nth)
  finally show ?thesis .
qed

lemma assemble_result:
  assumes "\<And>i. fst (ns_parserr msg i) \<le> 0"
  shows "\<exists>r. assemble_jwt_from_dns msg n = Inr r \<and>
    (\<forall>jwt. r = Inr jwt \<longrightarrow> length jwt \<le> sum_list (map (rdata_len msg) [0 ..< n]))"
proof (cases "n \<le> MAX_RR_RECS")
  case False
  then show ?thesis by (simp add: assemble_jwt_from_dns_def get_rr_seq_table_def)
next
  case True
  define t0 where "t0 = replicate SEQ_TABLE_SIZE (None :: char list option)"
  have t0: "length t0 = SEQ_TABLE_SIZE" "slots_len t0 = 0" by (simp_all add: t0_def)
  from records_loop_result [OF t0(1) True assms, of "[0 ..< n]" 0] obtain r where
    r: "records_loop msg n [0 ..< n] 0 t0 = Inr r" and err: "\<And>err t'. r = Inl (err, t') \<Longrightarrow> err < 0" and
    res: "\<And>m t'. r = Inr (m, t') \<Longrightarrow> length t' = SEQ_TABLE_SIZE \<and> m \<le> n \<and>
      slots_len t' \<le> sum_list (map (rdata_len msg) [0 ..< n])"
    using t0(2) by auto
  note steps = assemble_jwt_from_dns_def get_rr_seq_table_def Let_def r [unfolded t0_def]
  show ?thesis
  proof (cases r)
    case (Inr p)
    obtain m t where p: "p = (m, t)" by fastforce
    with Inr res have t: "length t = SEQ_TABLE_SIZE" "m \<le> n" "slots_len t \<le> sum_list (map (rdata_len msg) [0 ..< n])"
      by auto
    have range: "Suc m \<le> length t" using t True by (simp add: SEQ_TABLE_SIZE_def)
    show ?thesis
    proof (cases "t ! 0 \<noteq> None")
      case None: False
      have "join_slots t [1 ..< Suc m] = Inr (concat (map (\<lambda>i. slot_text (t ! i)) [1 ..< Suc m]))"
        using range by (intro join_slots_range) simp
      with Inr p True None slots_len_range [OF range] t(3) show ?thesis
        by (auto simp: steps length_concat comp_def simp del: upt_Suc)
    next
      case Some: True
      have "length (slot_text (t ! 0)) \<le> slots_len t"
        using t(1) by (cases t) (simp_all add: slots_len_def SEQ_TABLE_SIZE_def)
      with Inr p True t Some show ?thesis
        unfolding steps by (cases "m = 0"; cases "m = 1") (auto simp: table_at_def SEQ_TABLE_SIZE_def)
    qed
  next
    case (Inl x)
    with err True show ?thesis by (cases x) (auto simp: steps)
  qed
qed

subsection \<open>Records in any order\<close>

text \<open>
  A record as the server sends it: a first byte, the number, the colon, the piece of the token, and at
  most two characters that are not part of it. A piece ends in a base64 character, or in one of the dots of the
  token behind a base64 character; \<open>kept_piece\<close> is what is left of it in front of the tail.
\<close>

definition two_digits :: "nat \<Rightarrow> string" where
  "two_digits k = [char_of (48 + k div 10), char_of (48 + k mod 10)]"

definition txt_record :: "char \<Rightarrow> nat \<Rightarrow> string \<Rightarrow> string \<Rightarrow> ns_rr" where
  "txt_record c k piece tail =
     \<lparr> ns_rr_type = ns_t_txt, ns_rr_rdata = c # two_digits k @ CHR '':'' # piece @ tail \<rparr>"

definition piece_ok :: "string \<Rightarrow> bool" where
  "piece_ok p \<longleftrightarrow> p \<noteq> [] \<and> nul_free p \<and>
     (valid_b64_char (last p) \<or> last p = CHR ''.'' \<and> butlast p \<noteq> [] \<and> valid_b64_char (last (butlast p)))"

definition kept_piece :: "string \<Rightarrow> string \<Rightarrow> string" where
  "kept_piece p tail = (if last p = CHR ''.'' \<and> length tail \<le> 1 then butlast p else p)"

definition tail_ok :: "string \<Rightarrow> bool" where
  "tail_ok s \<longleftrightarrow> length s \<le> 2 \<and> list_all (\<lambda>c. \<not> valid_b64_char c) s"

lemma drop_bad_last_simps:
  "\<not> valid_b64_char c \<Longrightarrow> drop_bad_last (xs @ [c]) = xs"
  "xs \<noteq> [] \<Longrightarrow> valid_b64_char (last xs) \<Longrightarrow> drop_bad_last xs = xs"
  by (simp_all add: drop_bad_last_def)

lemma tail_ok_cases:
  assumes "tail_ok tail"
  obtains "tail = []" | a where "tail = [a]" "\<not> valid_b64_char a"
  | a b where "tail = [a, b]" "\<not> valid_b64_char a" "\<not> valid_b64_char b"
  using assms by (cases tail; cases "tl tail"; cases "tl (tl tail)") (auto simp: tail_ok_def)

lemma drop_tail:
  assumes "xs \<noteq> []" "valid_b64_char (last xs)" "tail_ok tail"
  shows "drop_bad_last (drop_bad_last (xs @ tail)) = xs"
proof (rule tail_ok_cases [OF assms(3)])
  fix a b assume ab: "tail = [a, b]" "\<not> valid_b64_char a" "\<not> valid_b64_char b"
  have "drop_bad_last ((xs @ [a]) @ [b]) = xs @ [a]" by (rule drop_bad_last_simps(1) [OF ab(3)])
  with ab show ?thesis by (simp add: drop_bad_last_simps(1))
qed (use assms in \<open>simp_all add: drop_bad_last_simps\<close>)

text \<open>A dot at the end is dropped with the tail, unless the tail already has two characters.\<close>

lemma drop_tail_piece:
  assumes "piece_ok p" "tail_ok tail"
  shows "drop_bad_last (drop_bad_last (pre @ p @ tail)) = pre @ kept_piece p tail"
proof (cases "last p = CHR ''.''")
  case False
  with assms(1) have "valid_b64_char (last (pre @ p))" "pre @ p \<noteq> []" by (auto simp: piece_ok_def)
  from drop_tail [OF this(2,1) assms(2)] False show ?thesis by (simp add: kept_piece_def)
next
  case True
  have dot: "\<not> valid_b64_char CHR ''.''" by (simp add: valid_b64_char_def is_alpha_c_def is_digit_c_def)
  from True dot assms(1) have b: "butlast p \<noteq> []" "valid_b64_char (last (butlast p))" "p \<noteq> []"
    by (auto simp: piece_ok_def)
  then have p: "p = butlast p @ [CHR ''.'']" using True by (metis append_butlast_last_id)
  have q: "pre @ butlast p \<noteq> []" "valid_b64_char (last (pre @ butlast p))" using b by simp_all
  show ?thesis
  proof (cases "length tail \<le> 1")
    case short: True
    have "tail_ok (CHR ''.'' # tail)" using assms(2) short dot by (simp add: tail_ok_def)
    from drop_tail [OF q this] have "drop_bad_last (drop_bad_last (pre @ (butlast p @ [CHR ''.'']) @ tail)) = pre @ butlast p"
      by simp
    then show ?thesis unfolding p [symmetric] using True short by (simp add: kept_piece_def)
  next
    case False
    show ?thesis
    proof (rule tail_ok_cases [OF assms(2)])
      fix a b assume ab: "tail = [a, b]" "\<not> valid_b64_char a" "\<not> valid_b64_char b"
      have "drop_bad_last ((pre @ p @ [a]) @ [b]) = pre @ p @ [a]" by (rule drop_bad_last_simps(1) [OF ab(3)])
      with ab drop_bad_last_simps(1) [OF ab(2), of "pre @ p"] False show ?thesis by (simp add: kept_piece_def)
    qed (use False in simp_all)
  qed
qed

lemma digit_value: "d < 10 \<Longrightarrow> is_digit_c (char_of (48 + d)) \<and> (of_char (char_of (48 + d)) :: int) = 48 + int d"
  using of_nat_of_char [of "char_of (48 + d) :: char", where 'a = int]
  by (simp add: is_digit_c_def)

lemma two_digits_parse:
  assumes "k < 100"
  shows "find_seq_num (two_digits k @ CHR '':'' # r) = 0"
    "is_digit_c c \<Longrightarrow> find_seq_num (c # two_digits k @ CHR '':'' # r) = 1"
    "get_rr_seq_num (two_digits k @ CHR '':'' # r) = int k"
proof -
  let ?a = "char_of (48 + k div 10) :: char" and ?b = "char_of (48 + k mod 10) :: char"
  have d: "is_digit_c ?a" "is_digit_c ?b" "(of_char ?a :: int) = 48 + int (k div 10)"
    "(of_char ?b :: int) = 48 + int (k mod 10)"
    using digit_value [of "k div 10"] digit_value [of "k mod 10"] assms by auto
  have colon: "is_digit_c x \<Longrightarrow> x \<noteq> CHR '':''" for x by (auto simp: is_digit_c_def)
  show "find_seq_num (two_digits k @ CHR '':'' # r) = 0"
    "is_digit_c c \<Longrightarrow> find_seq_num (c # two_digits k @ CHR '':'' # r) = 1"
    using d(1,2) colon by (simp_all add: find_seq_num_def two_digits_def)
  show "get_rr_seq_num (two_digits k @ CHR '':'' # r) = int k"
    using d by (simp add: get_rr_seq_num_def two_digits_def) presburger
qed

lemma enter_txt_record:
  assumes "k < 100" "0 < k" "k \<le> n" "k < length t" "t ! k = None" "piece_ok p" "tail_ok tail"
  shows "enter_record n (ns_rr_rdata (txt_record c k p tail)) t = Inr (Inr (t[k := Some (kept_piece p tail)]))"
proof -
  let ?core = "two_digits k @ CHR '':'' # kept_piece p tail"
  have strip: "strip_rr_data (c # two_digits k @ CHR '':'' # p @ tail) = (if is_digit_c c then c # ?core else ?core)"
    using drop_tail_piece [OF assms(6,7), of "two_digits k @ '':''"] drop_tail_piece [OF assms(6,7), of "c # two_digits k @ '':''"]
    by (auto simp: strip_rr_data_def)
  have "drop 3 ?core = kept_piece p tail" by (simp add: two_digits_def)
  with strip show ?thesis
    using two_digits_parse(1,3) [OF assms(1)] two_digits_parse(2) [OF assms(1)] assms(2-5)
    by (auto simp: enter_record_def Let_def txt_record_def table_at_def)
qed

text \<open>The table after the first \<open>k\<close> records, where record \<open>i\<close> has the piece \<open>\<sigma> i\<close>.\<close>

definition filled :: "(nat \<Rightarrow> nat) \<Rightarrow> (nat \<Rightarrow> string) \<Rightarrow> nat \<Rightarrow> seq_table" where
  "filled \<sigma> piece k =
     map (\<lambda>s. if \<exists>j<k. Suc (\<sigma> j) = s then Some (piece (s - 1)) else None) [0 ..< SEQ_TABLE_SIZE]"

lemma filled_Suc:
  "Suc (\<sigma> k) < SEQ_TABLE_SIZE \<Longrightarrow> filled \<sigma> piece (Suc k) = (filled \<sigma> piece k)[Suc (\<sigma> k) := Some (piece (\<sigma> k))]"
  by (rule nth_equalityI) (auto simp: filled_def nth_list_update less_Suc_eq)

definition piece_records :: "ns_msg \<Rightarrow> nat \<Rightarrow> (nat \<Rightarrow> nat) \<Rightarrow> (nat \<Rightarrow> string) \<Rightarrow> (nat \<Rightarrow> string) \<Rightarrow> bool" where
  "piece_records msg n \<sigma> piece tail \<longleftrightarrow> \<sigma> ` {..<n} = {..<n} \<and>
     (\<forall>i<n. piece_ok (piece i) \<and> tail_ok (tail i) \<and>
        (\<exists>c. ns_parserr msg i = (0, txt_record c (Suc (\<sigma> i)) (piece (\<sigma> i)) (tail (\<sigma> i)))))"

lemma records_loop_filled:
  assumes "kept = (\<lambda>i. kept_piece (piece i) (tail i))"
    and "piece_records msg n \<sigma> piece tail" "n \<le> MAX_RR_RECS"
  shows "k \<le> n \<Longrightarrow> records_loop msg n [k ..< n] k (filled \<sigma> kept k) = Inr (Inr (n, filled \<sigma> kept n))"
proof (induction "n - k" arbitrary: k)
  case (Suc m)
  then have k: "k < n" by simp
  have img: "\<sigma> ` {..<n} = {..<n}" using assms(2) by (simp add: piece_records_def)
  then have inj: "inj_on \<sigma> {..<n}" by (intro eq_card_imp_inj_on) simp_all
  obtain c where rec: "ns_parserr msg k = (0, txt_record c (Suc (\<sigma> k)) (piece (\<sigma> k)) (tail (\<sigma> k)))"
    using assms(2) k by (auto simp: piece_records_def)
  have s: "\<sigma> k < n" "piece_ok (piece (\<sigma> k))" "tail_ok (tail (\<sigma> k))" using img assms(2) k by (auto simp: piece_records_def)
  have small: "Suc (\<sigma> k) < SEQ_TABLE_SIZE" "Suc (\<sigma> k) < 100"
    using s(1) assms(3) by (simp_all add: SEQ_TABLE_SIZE_def MAX_RR_RECS_def)
  have free: "filled \<sigma> kept k ! Suc (\<sigma> k) = None"
    using small k inj_onD [OF inj] by (fastforce simp: filled_def)
  have "enter_record n (ns_rr_rdata (txt_record c (Suc (\<sigma> k)) (piece (\<sigma> k)) (tail (\<sigma> k)))) (filled \<sigma> kept k) =
      Inr (Inr (filled \<sigma> kept (Suc k)))"
    unfolding filled_Suc [where \<sigma> = \<sigma> and k = k, OF small(1)] using enter_txt_record [OF small(2) _ _ _ free s(2,3)] s(1) small(1)
    by (simp add: filled_def assms(1))
  then show ?case
    using k rec Suc.hyps(1) [of "Suc k"] Suc.hyps(2) by (simp add: upt_rec [of k n] txt_record_def)
qed simp

lemma assemble_pieces:
  assumes "piece_records msg n \<sigma> piece tail" "n \<le> MAX_RR_RECS"
  shows "assemble_jwt_from_dns msg n = Inr (Inr (concat (map (\<lambda>i. kept_piece (piece i) (tail i)) [0 ..< n])))"
proof -
  define kept where "kept = (\<lambda>i. kept_piece (piece i) (tail i))"
  let ?t = "filled \<sigma> kept n"
  have "filled \<sigma> kept 0 = replicate SEQ_TABLE_SIZE None"
    by (simp add: filled_def map_replicate_const)
  with records_loop_filled [OF kept_def assms, of 0]
  have loop: "records_loop msg n [0 ..< n] 0 (replicate SEQ_TABLE_SIZE None) = Inr (Inr (n, ?t))" by simp
  have slot: "?t ! Suc i = Some (kept i)" if "i < n" for i
  proof -
    have "i \<in> \<sigma> ` {..<n}" using that assms(1) by (simp add: piece_records_def)
    then obtain j where j: "j < n" "\<sigma> j = i" by auto
    have "Suc i < SEQ_TABLE_SIZE" using that assms(2) by (simp add: SEQ_TABLE_SIZE_def)
    with j show ?thesis unfolding filled_def by (subst nth_map) (auto simp del: upt_Suc)
  qed
  have "0 < SEQ_TABLE_SIZE" by (simp add: SEQ_TABLE_SIZE_def)
  then have zero: "?t ! 0 = None" unfolding filled_def by (subst nth_map) (auto simp del: upt_Suc)
  have "list_all (\<lambda>i. ?t ! i \<noteq> None) [1 ..< n]"
    using slot by (auto simp: list_all_iff Ball_def) (metis Suc_le_D less_imp_Suc_add option.distinct(1) Suc_lessD)
  with loop zero assms(2)
  have table: "get_rr_seq_table msg n = Inr (int n, ?t)"
    by (simp add: get_rr_seq_table_def)
  have kept_nul: "cstr (kept i) = kept i" if "i < n" for i
  proof -
    have "nul_free (piece i)" using assms(1) that by (simp add: piece_records_def piece_ok_def)
    then have "nul_free (kept i)" by (auto simp: kept_def kept_piece_def nul_free_def list_all_iff dest: in_set_butlastD)
    then show ?thesis by (simp add: cstr_def nul_free_def list_all_iff takeWhile_eq_all_conv)
  qed
  have "map (\<lambda>i. slot_text (?t ! i)) [1 ..< Suc n] = map (\<lambda>i. slot_text (?t ! Suc i)) [0 ..< n]"
    by (simp only: One_nat_def map_Suc_upt [symmetric]) (simp add: comp_def)
  also have "\<dots> = map kept [0 ..< n]"
    using slot kept_nul by (auto simp: slot_text_def)
  finally have "concat (map (\<lambda>i. slot_text (?t ! i)) [1 ..< Suc n]) = concat (map kept [0 ..< n])" by simp
  moreover have "n < length ?t" using assms(2) by (simp add: filled_def SEQ_TABLE_SIZE_def)
  ultimately show ?thesis
    using table join_slots_range [of n ?t] unfolding kept_def by (simp add: assemble_jwt_from_dns_def del: upt_Suc)
qed

lemma analyze_jwt_parsed: "analyze_jwt J now jwt = Inr (Inr server) \<Longrightarrow> \<exists>url. parse_webpa_url url = Some server"
  by (auto simp: analyze_jwt_def then_run_Inr_iff split: option.splits if_splits)

lemma allow_insecure_conn_parsed:
  assumes "allow_insecure_conn E cfg = Inr (Inr server)"
  shows "\<exists>url. parse_webpa_url url = Some server"
proof -
  from assms obtain q where q: "(case q of Inl ret \<Rightarrow>
        Inr (Inl (if ret = token_err_code TOKEN_ERR_MEMORY_FAIL then TOKEN_ERR_MEMORY_FAIL else TOKEN_ERR_QUERY_DNS_FAIL))
     | Inr jwt_token \<Rightarrow>
         (case te_decode E jwt_token (jwt_key cfg) of (ret, jwt) \<Rightarrow>
            if ret \<noteq> 0 then Inr (Inl TOKEN_ERR_JWT_DECODE_FAIL)
            else then_run (deref jwt) (\<lambda>jwt.
              if validate_algo (te_cjwt E) cfg jwt then analyze_jwt (te_json E) (te_time E) jwt
              else Inr (Inl TOKEN_ERR_ALGO_NOT_ALLOWED)))) = Inr (Inr server)"
    unfolding allow_insecure_conn_def then_run_Inr_iff by blast
  then obtain tok ret j where "q = Inr tok" "te_decode E tok (jwt_key cfg) = (ret, j)"
    by (cases q) (auto split: prod.splits)
  with q show ?thesis
    by (auto simp: then_run_Inr_iff split: if_splits intro: analyze_jwt_parsed)
qed

subsection \<open>Properties\<close>

text \<open>
  What the resolver documents of a message it has parsed: \<open>ns_parserr\<close> returns \<open>0\<close> or a negative value, and the answer
  records, with their data, are one after the other in the \<open>len\<close> bytes of the message.
\<close>

definition dns_documented :: "dns_api \<Rightarrow> bool" where
  "dns_documented D \<longleftrightarrow> (\<forall>buf len msg. ns_initparse D buf len = (0, msg) \<longrightarrow>
     (\<forall>i. fst (ns_parserr msg i) \<le> 0) \<and> int (sum_list (map (rdata_len msg) [0 ..< ns_msg_count msg])) \<le> len)"

text \<open>
  C28. With a well-formed configuration and a resolver that hands out the records of a message as they lie in it
  (\<open>dns_documented\<close>), whatever their number, order and content, the name that is queried fits its buffer, putting the
  token together never leaves the sequence table, and the token fits its buffer of \<open>NS_MAXBUF\<close> bytes, because a
  message of that length or more is refused.
\<close>

theorem token_buffers:
  assumes "cfg_wf cfg" "dns_documented D"
  shows "\<exists>name r. get_dns_txt_record_id cfg = Inr name \<and> length name < TXT_REC_ID_MAXSIZE \<and>
    query_dns D name = Inr r \<and> (\<forall>jwt. r = Inr jwt \<longrightarrow> length jwt < NS_MAXBUF)"
proof -
  let ?name = "hw_mac cfg @ ''.'' @ dns_txt_url cfg"
  have name: "get_dns_txt_record_id cfg = Inr ?name" "length ?name < TXT_REC_ID_MAXSIZE"
    using assms(1) by (auto simp: get_dns_txt_record_id_def TXT_REC_ID_MAXSIZE_def cfg_wf_def)
  obtain l buf where q: "nquery D ?name = (l, buf)" by fastforce
  then have l: "l < int NS_MAXBUF" by (auto simp: nquery_def NS_MAXBUF_def split: if_splits prod.splits)
  obtain ret msg where p: "ns_initparse D buf l = (ret, msg)" by fastforce
  have "\<exists>r. query_dns D ?name = Inr r \<and> (\<forall>jwt. r = Inr jwt \<longrightarrow> length jwt < NS_MAXBUF)"
  proof (cases "ret = 0 \<and> 0 \<le> l")
    case True
    with p assms(2) have d: "\<And>i. fst (ns_parserr msg i) \<le> 0"
      "int (sum_list (map (rdata_len msg) [0 ..< ns_msg_count msg])) \<le> l"
      by (auto simp: dns_documented_def)
    from assemble_result [OF d(1), of "ns_msg_count msg"] d(2) l q p True show ?thesis
      by (fastforce simp: query_dns_def)
  qed (use q p in \<open>auto simp: query_dns_def\<close>)
  with name show ?thesis by blast
qed

text \<open>An answer with two records, the second piece first.\<close>

definition sample_msg :: ns_msg where
  "sample_msg = \<lparr> ns_msg_count = 2, ns_parserr = (\<lambda>i. (0,
     if i = 0 then txt_record (CHR ''.'') 2 ''ZZ'' [] else txt_record (CHR ''.'') 1 ''aa.b'' ''.'')) \<rparr>"

definition sample_dns :: dns_api where
  "sample_dns = \<lparr> res_ninit = 0, res_nquery = (\<lambda>name. (60, [])), ns_initparse = (\<lambda>buf len. (0, sample_msg)) \<rparr>"

text \<open>A resolver that refuses messages of less than 60 bytes; the records of the answer above take 17 of them.\<close>

definition small_dns :: dns_api where
  "small_dns = sample_dns\<lparr>ns_initparse := \<lambda>buf len. if len < 60 then (- 1, sample_msg) else (0, sample_msg)\<rparr>"

theorem token_buffers_witness:
  "\<exists>name r. get_dns_txt_record_id (zero_cfg\<lparr>hw_mac := ''112233445566'', dns_txt_url := ''test.com''\<rparr>) = Inr name \<and>
     query_dns small_dns name = Inr r"
proof -
  let ?cfg = "zero_cfg\<lparr>hw_mac := ''112233445566'', dns_txt_url := ''test.com''\<rparr>"
  have "cfg_wf ?cfg" by (simp add: cfg_wf_def zero_cfg_def)
  moreover have "dns_documented small_dns"
  proof -
    have "int (sum_list (map (rdata_len sample_msg) [0 ..< ns_msg_count sample_msg])) \<le> 60" by code_simp
    moreover have "fst (ns_parserr sample_msg i) \<le> 0" for i by (simp add: sample_msg_def)
    ultimately show ?thesis by (auto simp: dns_documented_def small_dns_def split: if_splits)
  qed
  ultimately show ?thesis using token_buffers [of ?cfg small_dns] by blast
qed

text \<open>
  C23. A token that the server has split over up to ten numbered text records is put together again, in
  whatever order the records arrive, when every piece ends in a base64 character. A piece that ends in a dot of the
  token keeps the dot only if two stray characters follow it in the record; otherwise exactly that dot is
  missing from the result.
\<close>

theorem token_reassembled:
  assumes "0 \<le> res_ninit D" "res_nquery D name = (len, buf)" "0 \<le> len" "len < int NS_MAXBUF"
    and "ns_initparse D buf len = (0, msg)" "ns_msg_count msg \<le> MAX_RR_RECS"
    and "piece_records msg (ns_msg_count msg) \<sigma> piece tail"
  shows "query_dns D name = Inr (Inr (concat (map
      (\<lambda>i. if last (piece i) = CHR ''.'' \<and> length (tail i) \<le> 1 then butlast (piece i) else piece i) [0 ..< ns_msg_count msg]))) \<and>
    ((\<forall>i < ns_msg_count msg. valid_b64_char (last (piece i))) \<longrightarrow>
      query_dns D name = Inr (Inr (concat (map piece [0 ..< ns_msg_count msg]))))"
proof -
  have "query_dns D name = Inr (Inr (concat (map (\<lambda>i. kept_piece (piece i) (tail i)) [0 ..< ns_msg_count msg])))"
    using assms assemble_pieces [OF assms(7,6)] by (simp add: query_dns_def nquery_def)
  moreover have "kept_piece p tl = p" if "valid_b64_char (last p)" for p tl
    using that by (auto simp: kept_piece_def valid_b64_char_def is_alpha_c_def is_digit_c_def)
  ultimately show ?thesis by (auto simp: kept_piece_def intro!: arg_cong [where f = concat])
qed

text \<open>Two records, the first piece last; it ends in a dot, which is lost.\<close>

definition dotted_msg :: ns_msg where
  "dotted_msg = \<lparr> ns_msg_count = 2, ns_parserr = (\<lambda>i. (0,
     if i = 0 then txt_record (CHR ''.'') 2 ''ZZ'' [] else txt_record (CHR ''.'') 1 ''aa.'' ''.'')) \<rparr>"

theorem token_reassembled_witness:
  "query_dns sample_dns ''1.test.com'' = Inr (Inr ''aa.bZZ'') \<and>
   query_dns (sample_dns\<lparr>ns_initparse := \<lambda>buf len. (0, dotted_msg)\<rparr>) ''1.test.com'' = Inr (Inr ''aaZZ'')"
proof -
  define pieces where "pieces = (\<lambda>u (i :: nat). if i = 0 then u else ''ZZ'' :: string)"
  define tails where "tails = (\<lambda>i :: nat. if i = 0 then ''.'' else [] :: string)"
  have two: "i = 0 \<or> i = 1" if "i < 2" for i :: nat using that by linarith
  have flip: "(\<lambda>i. 1 - i) ` {..<2} = {..<2 :: nat}" by (auto simp: numeral_2_eq_2 lessThan_Suc)
  have ok: "piece_ok ''aa.b''" "piece_ok ''aa.''" "piece_ok ''ZZ''" "tail_ok []" "tail_ok ''.''" by code_simp+
  have c: "ns_msg_count sample_msg = 2" by (simp add: sample_msg_def)
  have "piece_records sample_msg (ns_msg_count sample_msg) (\<lambda>i. 1 - i) (pieces ''aa.b'') tails"
    unfolding piece_records_def c using flip ok
    by (auto simp: sample_msg_def pieces_def tails_def numeral_2_eq_2 dest!: two)
  from token_reassembled [of sample_dns "''1.test.com''" 60 "[]" sample_msg, OF _ _ _ _ _ _ this]
  have 1: "query_dns sample_dns ''1.test.com'' = Inr (Inr ''aa.bZZ'')"
    by (simp add: sample_dns_def sample_msg_def NS_MAXBUF_def MAX_RR_RECS_def pieces_def tails_def upt_rec numeral_2_eq_2)
  let ?D = "sample_dns\<lparr>ns_initparse := \<lambda>buf len. (0, dotted_msg)\<rparr>"
  have c: "ns_msg_count dotted_msg = 2" by (simp add: dotted_msg_def)
  have "piece_records dotted_msg (ns_msg_count dotted_msg) (\<lambda>i. 1 - i) (pieces ''aa.'') tails"
    unfolding piece_records_def c using flip ok
    by (auto simp: dotted_msg_def pieces_def tails_def numeral_2_eq_2 dest!: two)
  from token_reassembled [of ?D "''1.test.com''" 60 "[]" dotted_msg, OF _ _ _ _ _ _ this]
  have 2: "query_dns ?D ''1.test.com'' = Inr (Inr ''aaZZ'')"
    by (simp add: sample_dns_def dotted_msg_def NS_MAXBUF_def MAX_RR_RECS_def pieces_def tails_def upt_rec numeral_2_eq_2)
  from 1 2 show ?thesis ..
qed

text \<open>
  C11. A token that is accepted was decoded with the configured key, is signed with an RSA algorithm of
  the configured list, has an expiry that has not passed, and the server address and port are those
  of its endpoint claim, with a port between 1 and 65535.
\<close>

theorem accepted_token:
  assumes "allow_insecure_conn E cfg = Inr (Inr (insecure, addr, port))"
    and "jwt_algo cfg = get_algo_mask (te_cjwt E) (Some algos)" "jwt_algo cfg \<noteq> - 1"
  shows "\<exists>name token jwt claims endpoint url. get_dns_txt_record_id cfg = Inr name \<and>
    query_dns (te_dns E) name = Inr (Inr token) \<and> te_decode E token (jwt_key cfg) = (0, Some jwt) \<and>
    nat (jwt_alg jwt) \<in> nat ` {alg_rs256 (te_cjwt E), alg_rs384 (te_cjwt E), alg_rs512 (te_cjwt E)} \<and>
    jwt_alg jwt \<in> cjwt_alg_str_to_enum (te_cjwt E) ` set (algo_tokens algos) \<and>
    jwt_exp jwt \<noteq> 0 \<and> te_time E \<le> jwt_exp jwt \<and> jwt_private_claims jwt = Some claims \<and>
    cJSON_GetObjectItem (te_json E) (Some claims) ''endpoint'' = Some endpoint \<and>
    cj_valuestring endpoint = Some url \<and> parse_webpa_url url = Some (insecure, addr, port) \<and>
    1 \<le> unat port \<and> unat port \<le> 65535"
proof -
  from assms(1) obtain name r where name: "get_dns_txt_record_id cfg = Inr name" "query_dns (te_dns E) name = Inr r"
    by (auto simp: allow_insecure_conn_def then_run_Inr_iff)
  obtain token where token: "r = Inr token" using assms(1) name by (cases r) (auto simp: allow_insecure_conn_def)
  obtain ret j where dec: "te_decode E token (jwt_key cfg) = (ret, j)" by fastforce
  note run = assms(1) [unfolded allow_insecure_conn_def name(1) then_run_simps name(2) token sum.case dec prod.case]
  have ret: "ret = 0" using run by (simp split: if_splits)
  obtain jwt where jwt: "j = Some jwt" using run ret by (cases j) auto
  have v: "validate_algo (te_cjwt E) cfg jwt" and
    a: "analyze_jwt (te_json E) (te_time E) jwt = Inr (Inr (insecure, addr, port))"
    using run ret jwt by (auto split: if_splits)
  note q = name(1) name(2) [unfolded token] dec [unfolded ret jwt]
  from a obtain claims endpoint url where
    "jwt_private_claims jwt = Some claims" "cJSON_GetObjectItem (te_json E) (Some claims) ''endpoint'' = Some endpoint"
    "jwt_exp jwt \<noteq> 0" "te_time E \<le> jwt_exp jwt" "cj_valuestring endpoint = Some url" and
    u: "parse_webpa_url url = Some (insecure, addr, port)"
    by (auto simp: analyze_jwt_def ENDPOINT_NAME_def then_run_Inr_iff deref_def split: option.splits if_splits)
  moreover have "0 \<le> jwt_alg jwt" "alg_bit (jwt_alg jwt) AND get_algo_mask (te_cjwt E) (Some algos) \<noteq> 0"
    using v assms(2) by (auto simp: validate_algo_def Let_def split: if_splits)
  ultimately show ?thesis
    using q algo_mask_bit [of "te_cjwt E" algos "jwt_alg jwt"] parse_webpa_url_bounds [OF u] assms(2,3) by auto
qed

definition sample_token_env :: token_env where
  "sample_token_env = \<lparr> te_dns = sample_dns, te_cjwt = sample_cjwt, te_json = ref_cjson (\<lambda>s. None) (\<lambda>j. None),
     te_decode = (\<lambda>tok key. (0, Some \<lparr> jwt_private_claims = Some (CJSON cJSON_Object None None 0
         [CJSON cJSON_String (Some ''endpoint'') (Some ''https://srv:8080'') 0 []]), jwt_exp = 100, jwt_alg = 10 \<rparr>)),
     te_time = 50 \<rparr>"

theorem accepted_token_witness:
  "allow_insecure_conn sample_token_env (zero_cfg\<lparr>jwt_algo := 5120\<rparr>) = Inr (Inr (0, ''srv'', 8080)) \<and>
   (\<exists>jwt token. te_decode sample_token_env token [] = (0, Some jwt) \<and> te_time sample_token_env \<le> jwt_exp jwt)"
proof -
  have run: "allow_insecure_conn sample_token_env (zero_cfg\<lparr>jwt_algo := 5120\<rparr>) = Inr (Inr (0, ''srv'', 8080))"
    by code_simp
  have "get_algo_mask (te_cjwt sample_token_env) (Some ''RS256:RS512'') = 5120" by code_simp
  with accepted_token [OF run, of "''RS256:RS512''"] run show ?thesis by (auto simp: zero_cfg_def)
qed

text \<open>
  The check for missing records stops before the last one. Where the answer also has a record of
  another type, the numbers 1 and 3 are accepted for two text records, and the second piece is lost.
\<close>

lemma missing_record_accepted:
  "assemble_jwt_from_dns \<lparr> ns_msg_count = 3, ns_parserr = (\<lambda>i. (0,
     if i = 0 then \<lparr> ns_rr_type = 5, ns_rr_rdata = ''x'' \<rparr>
     else if i = 1 then txt_record (CHR ''.'') 1 ''aa'' [] else txt_record (CHR ''.'') 3 ''bb'' [])) \<rparr> 3 =
   Inr (Inr ''aa'')"
  by code_simp

end
