(* ===== verification/Convey.thy ===== *)
theory Convey
  imports Crud
begin

text \<open>
  The convey header of the connection (\<open>getWebpaConveyHeader\<close> in \<^verbatim>\<open>ParodusInternal.c\<close>): a JSON object with facts
  about the device, printed, encoded in base64 into a static array of 1024 bytes, and stripped of its
  line breaks in place. Also \<open>readFromFile\<close> of the same file.

  The JSON library is the parameter \<open>cjson_api\<close>; \<open>nopoll_base64_encode\<close> is a function of the text and the array
  it writes to, which says whether it succeeded and what the array then holds.
\<close>

type_synonym base64 = "string \<Rightarrow> char list \<Rightarrow> bool \<times> char list"

subsection \<open>The object\<close>

definition add_text :: "cjson_api \<Rightarrow> string \<Rightarrow> string \<Rightarrow> cjson \<Rightarrow> cjson" where
  "add_text J key val response =
     (if length val \<noteq> 0 then cJSON_AddStringToObject J response (Some key) (Some val) else response)"

definition convey_object :: "cjson_api \<Rightarrow> ParodusCfg \<Rightarrow> string \<Rightarrow> cjson" where
  "convey_object J cfg reason =
     (let response = cJSON_CreateObject J;
          response = add_text J HW_MODELNAME (hw_model cfg) response;
          response = add_text J HW_SERIALNUMBER (hw_serial_number cfg) response;
          response = add_text J HW_MANUFACTURER (hw_manufacturer cfg) response;
          response = add_text J FIRMWARE_NAME (fw_name cfg) response;
          response = cJSON_AddNumberToObject J response (Some BOOT_TIME) (uint (boot_time cfg));
          response = add_text J WEBPA_PROTOCOL (webpa_protocol cfg) response;
          response = add_text J WEBPA_INTERFACE (webpa_interface_used cfg) response;
          response = add_text J HW_LAST_REBOOT_REASON (hw_last_reboot_reason cfg) response;
          response = cJSON_AddStringToObject J response (Some LAST_RECONNECT_REASON) (Some reason)
      in if 0 < boot_retry_wait cfg
         then cJSON_AddNumberToObject J response (Some BOOT_RETRY_WAIT) (uint (boot_retry_wait cfg))
         else response)"

subsection \<open>The array\<close>

definition newline :: char where "newline = CHR 0x0A"

text \<open>The loop that removes the line breaks, reading at \<open>i\<close> and writing at \<open>j\<close>.\<close>

function strip_newlines :: "char list \<Rightarrow> nat \<Rightarrow> nat \<Rightarrow> fault + char list" where
  "strip_newlines encodedData i j =
     (if length encodedData \<le> i then Inl OutOfBounds
      else if encodedData ! i \<noteq> NUL then
        if encodedData ! i = newline then strip_newlines encodedData (i + 1) j
        else strip_newlines (encodedData[j := encodedData ! i]) (i + 1) (j + 1)
      else Inr (encodedData[j := NUL]))"
  by pat_completeness auto
termination by (relation "measure (\<lambda>(d, i, j). length d - i)") auto

declare strip_newlines.simps [simp del]

text \<open>The result and the static array, which keeps its content between calls.\<close>

definition getWebpaConveyHeader ::
  "cjson_api \<Rightarrow> base64 \<Rightarrow> ParodusCfg \<Rightarrow> string \<Rightarrow> char list \<Rightarrow> fault + string option \<times> char list" where
  "getWebpaConveyHeader J nopoll_base64_encode cfg reason encodedData =
     then_run (deref (cJSON_PrintUnformatted J (Some (convey_object J cfg reason)))) (\<lambda>buffer.
     case nopoll_base64_encode buffer encodedData of (ok, encodedData) \<Rightarrow>
     then_run (if \<not> ok then Inr encodedData else strip_newlines encodedData 0 0) (\<lambda>encodedData.
     if NUL \<notin> set encodedData then Inl OutOfBounds
     else Inr (if 0 < length (cstr encodedData) then Some (cstr encodedData) else None, encodedData)))"

text \<open>
  \<open>readFromFile\<close>, for the content of the file if it can be opened; a text is what the string functions see of
  it.
\<close>

definition readFromFile :: "(string \<Rightarrow> char list option) \<Rightarrow> string \<Rightarrow> string option" where
  "readFromFile files file_name =
     (case files file_name of None \<Rightarrow> None | Some content \<Rightarrow> Some (cstr (content @ [NUL])))"

subsection \<open>Removing line breaks\<close>

lemma strip_newlines_run:
  assumes "i \<le> k" "k < length d" "d ! k = NUL" "\<forall>n. i \<le> n \<and> n < k \<longrightarrow> d ! n \<noteq> NUL" "j \<le> i"
    "take j d = filter (\<lambda>c. c \<noteq> newline) acc" "NUL \<notin> set acc"
  shows "\<exists>d'. strip_newlines d i j = Inr d' \<and> length d' = length d \<and>
    (\<exists>rest. d' = filter (\<lambda>c. c \<noteq> newline) (acc @ drop i (take k d)) @ NUL # rest)"
  using assms
proof (induction "k - i" arbitrary: d i j acc)
  case 0
  then have "i = k" by simp
  moreover have "d[j := NUL] = take j d @ NUL # drop (Suc j) d"
    using 0 by (simp add: upd_conv_take_nth_drop)
  ultimately show ?case
    using 0 by (subst strip_newlines.simps) (metis (no_types, lifting) append_Nil2 drop_all length_list_update
      length_take min.absorb4 not_le order_refl)
next
  case (Suc m)
  then have i: "i < k" "i < length d" "d ! i \<noteq> NUL" by auto
  have step: "drop i (take k d) = d ! i # drop (Suc i) (take k d)"
    using i Suc.prems(2) by (metis Cons_nth_drop_Suc length_take min.absorb4 nth_take)
  show ?case
  proof (cases "d ! i = newline")
    case True
    have "\<exists>d'. strip_newlines d (Suc i) j = Inr d' \<and> length d' = length d \<and>
        (\<exists>rest. d' = filter (\<lambda>c. c \<noteq> newline) ((acc @ [d ! i]) @ drop (Suc i) (take k d)) @ NUL # rest)"
      using Suc.prems Suc.hyps(2) i True by (intro Suc.hyps(1)) auto
    then show ?thesis
      using i True by (subst strip_newlines.simps) (simp add: step)
  next
    case False
    let ?d = "d[j := d ! i]"
    have "take (Suc j) ?d = take j d @ [d ! i]"
      using Suc.prems(5) i by (simp add: take_Suc_conv_app_nth)
    moreover have "drop (Suc i) (take k ?d) = drop (Suc i) (take k d)"
      using Suc.prems(5) by (simp add: take_update_swap drop_update_cancel)
    moreover have "?d ! k = NUL" using Suc.prems(3,5) i by simp
    moreover have "\<exists>d'. strip_newlines ?d (Suc i) (Suc j) = Inr d' \<and> length d' = length ?d \<and>
        (\<exists>rest. d' = filter (\<lambda>c. c \<noteq> newline) ((acc @ [d ! i]) @ drop (Suc i) (take k ?d)) @ NUL # rest)"
      using Suc.prems Suc.hyps(2) i False calculation by (intro Suc.hyps(1)) auto
    ultimately show ?thesis
      using i False by (subst strip_newlines.simps) (simp add: step)
  qed
qed

lemma strip_newlines_filter:
  assumes "NUL \<in> set d"
  shows "\<exists>d'. strip_newlines d 0 0 = Inr d' \<and> length d' = length d \<and> NUL \<in> set d' \<and>
    cstr d' = filter (\<lambda>c. c \<noteq> newline) (cstr d)"
proof -
  let ?k = "length (cstr d)"
  have k: "?k < length d" using assms by (rule length_cstr)
  have nul: "d ! ?k = NUL" using k nth_length_takeWhile [of "\<lambda>c. c \<noteq> NUL" d] by (simp add: cstr_def)
  have pre: "take ?k d = cstr d" unfolding cstr_def by (rule takeWhile_eq_take [symmetric])
  have "\<forall>n. 0 \<le> n \<and> n < ?k \<longrightarrow> d ! n \<noteq> NUL"
  proof (intro allI impI)
    fix n assume n: "0 \<le> n \<and> n < ?k"
    then have "cstr d ! n \<in> set (cstr d)" by simp
    then have "cstr d ! n \<noteq> NUL" unfolding cstr_def by (drule_tac set_takeWhileD) simp
    then show "d ! n \<noteq> NUL" using n by (simp add: cstr_def takeWhile_nth)
  qed
  from strip_newlines_run [of 0 ?k d 0 "[]", OF _ k nul this] obtain d' rest where
    d: "strip_newlines d 0 0 = Inr d'" "length d' = length d" "d' = filter (\<lambda>c. c \<noteq> newline) (cstr d) @ NUL # rest"
    using pre by auto
  have "nul_free (filter (\<lambda>c. c \<noteq> newline) (cstr d))"
    by (auto simp: nul_free_def list_all_iff cstr_def dest: set_takeWhileD)
  with d show ?thesis by (auto simp: cstr_nul_free)
qed

subsection \<open>The fields\<close>

text \<open>The keys of the header and the item under each; empty texts are left out.\<close>

definition text_item :: "string \<Rightarrow> cjson option" where
  "text_item s = (if s = [] then None else Some (CJSON cJSON_String None (Some s) 0 []))"

definition number_item :: "u32 \<Rightarrow> cjson" where
  "number_item n = CJSON cJSON_Number None None (uint n) []"

definition convey_table :: "ParodusCfg \<Rightarrow> string \<Rightarrow> (string \<times> cjson option) list" where
  "convey_table cfg reason =
     [(HW_MODELNAME, text_item (hw_model cfg)), (HW_SERIALNUMBER, text_item (hw_serial_number cfg)),
      (HW_MANUFACTURER, text_item (hw_manufacturer cfg)), (FIRMWARE_NAME, text_item (fw_name cfg)),
      (BOOT_TIME, Some (number_item (boot_time cfg))), (WEBPA_PROTOCOL, text_item (webpa_protocol cfg)),
      (WEBPA_INTERFACE, text_item (webpa_interface_used cfg)),
      (HW_LAST_REBOOT_REASON, text_item (hw_last_reboot_reason cfg)),
      (LAST_RECONNECT_REASON, Some (CJSON cJSON_String None (Some reason) 0 [])),
      (BOOT_RETRY_WAIT, if boot_retry_wait cfg = 0 then None else Some (number_item (boot_retry_wait cfg)))]"

definition table_items :: "(string \<times> cjson option) list \<Rightarrow> cjson list" where
  "table_items tbl = concat (map (\<lambda>(k, v). case v of None \<Rightarrow> [] | Some it \<Rightarrow> [with_key it k]) tbl)"

lemma add_text_item:
  assumes "cjson_documented J"
  shows "add_text J k s j = with_child j (cj_child j @ table_items [(k, text_item s)])"
  using documented_simps(7,9) [OF assms]
  by (cases j) (simp add: add_text_def cJSON_AddStringToObject_def table_items_def text_item_def with_child_def)

lemma convey_object_table:
  assumes "cjson_documented J"
  shows "convey_object J cfg reason = CJSON cJSON_Object None None 0 (table_items (convey_table cfg reason))"
  by (simp add: convey_object_def Let_def add_text_item [OF assms] cJSON_AddStringToObject_def
      cJSON_AddNumberToObject_def documented_simps [OF assms] convey_table_def word_neq_0_conv [symmetric])
     (simp add: table_items_def number_item_def with_child_def)

definition lowercase :: "string \<Rightarrow> bool" where
  "lowercase s \<longleftrightarrow> map tolower_c s = s"

lemma find_table_item:
  assumes "distinct (map fst tbl)" "list_all lowercase (map fst tbl)" "(key, v) \<in> set tbl"
  shows "find (has_key key) (table_items tbl) = map_option (\<lambda>it. with_key it key) v"
proof -
  have absent: "find (has_key key) (table_items tbl) = None"
    if "key \<notin> set (map fst tbl)" "list_all lowercase (map fst tbl)" "lowercase key" for tbl
    using that
    by (induction tbl) (auto simp: table_items_def has_key_def strcasecmp_eq_def lowercase_def split: option.splits)
  show ?thesis
    using assms
  proof (induction tbl)
    case (Cons kv tbl)
    obtain k w where kv: "kv = (k, w)" by fastforce
    have low: "lowercase key" using Cons.prems(2,3) by (auto simp: list_all_iff)
    show ?case
    proof (cases "k = key")
      case True
      then have "(key, v) \<notin> set tbl" "key \<notin> set (map fst tbl)" using Cons.prems(1) kv by force+
      moreover from this have "v = w" using Cons.prems(3) True kv by auto
      ultimately show ?thesis
        using absent [of tbl] Cons.prems(2) low kv True by (auto simp: table_items_def split: option.splits)
    next
      case False
      then have "(key, v) \<in> set tbl" "\<not> strcasecmp_eq k key"
        using Cons.prems kv low by (auto simp: lowercase_def strcasecmp_eq_def)
      with Cons kv show ?thesis
        by (auto simp: table_items_def has_key_def split: option.splits)
    qed
  qed simp
qed

lemma convey_table_keys:
  "distinct (map fst (convey_table cfg reason))" "list_all lowercase (map fst (convey_table cfg reason))"
proof -
  let ?keys = "[HW_MODELNAME, HW_SERIALNUMBER, HW_MANUFACTURER, FIRMWARE_NAME, BOOT_TIME, WEBPA_PROTOCOL,
    WEBPA_INTERFACE, HW_LAST_REBOOT_REASON, LAST_RECONNECT_REASON, BOOT_RETRY_WAIT]"
  have keys: "map fst (convey_table cfg reason) = ?keys" by (simp add: convey_table_def)
  have "distinct ?keys \<and> list_all lowercase ?keys" by code_simp
  then show "distinct (map fst (convey_table cfg reason))" "list_all lowercase (map fst (convey_table cfg reason))"
    unfolding keys by simp_all
qed

subsection \<open>Properties\<close>

text \<open>
  C33. The header that is sent is the base64 text of the printed object without its line breaks, so a server that
  decodes and parses it finds every fact about the device under its key: the texts that are not empty, the boot
  time, the reconnect reason, and the retry wait where there is one.
\<close>

theorem convey_header_carries:
  assumes "cjson_documented J" "cJSON_PrintUnformatted J (Some (convey_object J cfg reason)) = Some s"
    "cJSON_Parse J (Some s) = Some (convey_object J cfg reason)"
    and "b64 s buf = (True, enc)" "NUL \<in> set enc" "dec (filter (\<lambda>c. c \<noteq> newline) (cstr enc)) = s"
    "filter (\<lambda>c. c \<noteq> newline) (cstr enc) \<noteq> []"
  shows "\<exists>header buf' j. getWebpaConveyHeader J b64 cfg reason buf = Inr (Some header, buf') \<and>
    newline \<notin> set header \<and> cJSON_Parse J (Some (dec header)) = Some j \<and>
    (\<forall>(key, item)\<in>set (convey_table cfg reason).
       cJSON_GetObjectItem J (Some j) key = map_option (\<lambda>it. with_key it key) item)"
proof -
  let ?h = "filter (\<lambda>c. c \<noteq> newline) (cstr enc)" and ?j = "convey_object J cfg reason"
  obtain buf' where "strip_newlines enc 0 0 = Inr buf'" "NUL \<in> set buf'" "cstr buf' = ?h"
    using strip_newlines_filter [OF assms(5)] by blast
  then have "getWebpaConveyHeader J b64 cfg reason buf = Inr (Some ?h, buf')"
    using assms(2,4,7) by (simp add: getWebpaConveyHeader_def)
  moreover have "\<forall>(key, item)\<in>set (convey_table cfg reason).
      cJSON_GetObjectItem J (Some ?j) key = map_option (\<lambda>it. with_key it key) item"
    using find_table_item [OF convey_table_keys]
    by (auto simp: convey_object_table [OF assms(1)] documented_simps(5) [OF assms(1)])
  ultimately show ?thesis using assms(3,6) by auto
qed

text \<open>A coder that cuts its output into lines, and a library that prints one object.\<close>

definition sample_convey :: cjson_api where
  "sample_convey = ref_cjson
     (\<lambda>s. Some (CJSON cJSON_Object None None 0 (table_items (convey_table zero_cfg ''r'')))) (\<lambda>j. Some ''xy'')"

theorem convey_header_carries_witness:
  "\<exists>header buf' j. getWebpaConveyHeader sample_convey (\<lambda>s b. (True, ''eHk='' @ [newline, NUL] @ drop 6 b)) zero_cfg ''r''
       (replicate 1024 NUL) = Inr (Some header, buf') \<and> newline \<notin> set header \<and>
     cJSON_GetObjectItem sample_convey (Some j) HW_MODELNAME = None \<and>
     cJSON_GetObjectItem sample_convey (Some j) BOOT_TIME = Some (with_key (number_item 0) BOOT_TIME)"
proof -
  let ?b64 = "\<lambda>(s::string) b. (True, ''eHk='' @ [newline, NUL] @ drop 6 b)"
  have doc: "cjson_documented sample_convey" by (simp add: sample_convey_def ref_cjson_documented)
  have obj: "convey_object sample_convey zero_cfg ''r'' =
      CJSON cJSON_Object None None 0 (table_items (convey_table zero_cfg ''r''))"
    by (rule convey_object_table [OF doc])
  have pp: "cJSON_PrintUnformatted sample_convey (Some (convey_object sample_convey zero_cfg ''r'')) = Some ''xy''"
    "cJSON_Parse sample_convey (Some ''xy'') = Some (convey_object sample_convey zero_cfg ''r'')"
    unfolding obj by (simp_all add: sample_convey_def ref_cjson_def)
  have f: "filter (\<lambda>c. c \<noteq> newline) (cstr (''eHk='' @ [newline, NUL] @ drop 6 (replicate 1024 NUL))) = ''eHk=''"
    by (simp add: cstr_def newline_def)
  have tbl: "(HW_MODELNAME, None) \<in> set (convey_table zero_cfg ''r'')"
    "(BOOT_TIME, Some (number_item 0)) \<in> set (convey_table zero_cfg ''r'')"
    by (simp_all add: convey_table_def zero_cfg_def text_item_def)
  from convey_header_carries [OF doc pp, of ?b64 "replicate 1024 NUL" _ "\<lambda>_. ''xy''", OF refl] f
  obtain header buf' j where "getWebpaConveyHeader sample_convey ?b64 zero_cfg ''r'' (replicate 1024 NUL) =
      Inr (Some header, buf')" "newline \<notin> set header" and
    "\<forall>(key, item)\<in>set (convey_table zero_cfg ''r'').
       cJSON_GetObjectItem sample_convey (Some j) key = map_option (\<lambda>it. with_key it key) item" by auto
  with tbl show ?thesis by force
qed

text \<open>
  On an array that is terminated, the loop that removes the line breaks in place never leaves the array and
  is the filter of the text.
\<close>

lemma strip_newlines_is_filter:
  assumes "NUL \<in> set d"
  shows "\<exists>d'. strip_newlines d 0 0 = Inr d' \<and> length d' = length d \<and>
    cstr d' = filter (\<lambda>c. c \<noteq> newline) (cstr d)"
  using strip_newlines_filter [OF assms] by blast

lemma strip_newlines_is_filter_witness:
  "\<exists>d'. strip_newlines [CHR ''a'', newline, CHR ''b'', NUL, CHR ''x''] 0 0 = Inr d' \<and> cstr d' = ''ab''"
  using strip_newlines_is_filter [of "[CHR ''a'', newline, CHR ''b'', NUL, CHR ''x'']"]
  by (auto simp: cstr_def newline_def)

text \<open>When the encoding fails, the text of an earlier call is returned as the header.\<close>

lemma stale_header:
  assumes "cJSON_PrintUnformatted J (Some (convey_object J cfg reason)) = Some s" "b64 s buf = (False, buf)"
    "cstr buf = old" "old \<noteq> []" "NUL \<in> set buf"
  shows "getWebpaConveyHeader J b64 cfg reason buf = Inr (Some old, buf)"
  using assms by (simp add: getWebpaConveyHeader_def)

end
