(* ===== verification/Connection.thy ===== *)
theory Connection
  imports Convey Token Auth_Token Nopoll
begin

text \<open>
  \<^verbatim>\<open>connection.c\<close>: choosing a server, connecting to it with redirects and retries, and closing a connection; and
  \<open>checkHostIp\<close> of \<^verbatim>\<open>networking.c\<close>. The timers of the same file are in theory \<open>Timers\<close>.

  The world of the connecting thread (\<open>world\<close>) is the state of the connection, the static array of the convey
  header, \<open>g_response_code\<close>, \<open>init\<close>, and the state \<open>'e\<close> of everything outside. The record \<open>conn_api\<close> holds what
  the thread can ask and do outside: the flags other threads set (\<open>g_shutdown\<close> and the interface-down flag),
  clocks, waits, files, name resolution, curl, the resolver of the server token and the web socket library.
  Each question has an answer and a new state outside, so two reads of a flag may differ.

  The pointer \<open>current_server\<close> selects one of the three servers of the list. Fields of a server that were never
  assigned are \<open>None\<close>.
\<close>

subsection \<open>Servers\<close>

record server_t =
  allow_insecure :: "int option"
  server_addr :: "string option"
  sv_port :: "u32 option"

record server_list_t =
  sl_defaults :: server_t
  sl_jwt :: server_t
  sl_redirect :: server_t

definition set_server_null :: "server_t \<Rightarrow> server_t" where
  "set_server_null server = server\<lparr>server_addr := None\<rparr>"

definition set_server_list_null :: "server_list_t \<Rightarrow> server_list_t" where
  "set_server_list_null sl = sl\<lparr>sl_defaults := set_server_null (sl_defaults sl), sl_jwt := set_server_null (sl_jwt sl),
     sl_redirect := set_server_null (sl_redirect sl)\<rparr>"

definition server_is_null :: "server_t \<Rightarrow> bool" where
  "server_is_null server \<longleftrightarrow> server_addr server = None"

definition free_server :: "server_t \<Rightarrow> server_t" where
  "free_server server = server\<lparr>server_addr := None\<rparr>"

definition free_server_list :: "server_list_t \<Rightarrow> server_list_t" where
  "free_server_list sl = sl\<lparr>sl_redirect := free_server (sl_redirect sl), sl_jwt := free_server (sl_jwt sl),
     sl_defaults := free_server (sl_defaults sl)\<rparr>"

datatype server_ptr = DEFAULTS | JWT | REDIRECT

fun server_at :: "server_list_t \<Rightarrow> server_ptr \<Rightarrow> server_t" where
  "server_at sl DEFAULTS = sl_defaults sl"
| "server_at sl JWT = sl_jwt sl"
| "server_at sl REDIRECT = sl_redirect sl"

definition get_current_server :: "server_list_t \<Rightarrow> server_ptr" where
  "get_current_server sl =
     (if \<not> server_is_null (sl_redirect sl) then REDIRECT
      else if \<not> server_is_null (sl_jwt sl) then JWT
      else DEFAULTS)"

text \<open>The result is \<open>allow_insecure\<close> and the server.\<close>

definition parse_server_url :: "string \<Rightarrow> server_t \<Rightarrow> int \<times> server_t" where
  "parse_server_url full_url server =
     (case parse_webpa_url full_url of
        None \<Rightarrow> (- 1, server\<lparr>allow_insecure := Some (- 1), server_addr := None\<rparr>)
      | Some (insecure, addr, port) \<Rightarrow>
          (insecure, \<lparr> allow_insecure = Some insecure, server_addr = Some addr, sv_port = Some port \<rparr>))"

subsection \<open>The world of the connecting thread\<close>

record header_info_t =
  conveyHeader :: "string option"
  device_id :: "string option"
  user_agent :: "string option"

record create_connection_ctx_t =
  ctx_server_list :: server_list_t
  ctx_current_server :: "server_ptr option"
  ctx_header_info :: header_info_t
  ctx_extra_headers :: "string option"
  ctx_connect_timer :: expire_timer_t

record conn_opts =
  co_ssl_certs :: "(string option \<times> string option \<times> string) option"
  co_peer_verify :: bool
  co_tlsv1_2 :: bool
  co_interface :: string
  co_extra_headers :: "string option"

datatype conn_call = nopoll_conn_new_opts | nopoll_conn_tls_new6 | nopoll_conn_tls_new

record conn_request =
  cr_call :: conn_call
  cr_opts :: conn_opts
  cr_host :: "string option"
  cr_port :: string
  cr_url :: string

record ('c, 'e) conn_api =
  ca_shutdown :: "'e \<Rightarrow> bool \<times> 'e"               \<comment> \<open>\<open>g_shutdown\<close> is read\<close>
  ca_set_shutdown :: "'e \<Rightarrow> 'e"
  ca_interface_down :: "'e \<Rightarrow> bool \<times> 'e"         \<comment> \<open>the interface-down flag is read\<close>
  ca_clock :: "'e \<Rightarrow> timespec \<times> 'e"
  ca_time :: "'e \<Rightarrow> nat \<times> 'e"
  ca_random :: "'e \<Rightarrow> int \<times> 'e"
  ca_backoff_wait :: "'e \<Rightarrow> int \<times> 'e"            \<comment> \<open>\<^verbatim>\<open>pthread_cond_timedwait\<close>\<close>
  ca_interface_wait :: "'e \<Rightarrow> (int \<times> 'e) option" \<comment> \<open>\<^verbatim>\<open>pthread_cond_wait\<close>; \<open>None\<close> where no signal comes any more\<close>
  ca_open :: "string \<Rightarrow> 'e \<Rightarrow> bool \<times> 'e"          \<comment> \<open>whether the health file can be opened\<close>
  ca_write :: "string \<Rightarrow> string \<Rightarrow> 'e \<Rightarrow> 'e"
  ca_read_file :: "string \<Rightarrow> 'e \<Rightarrow> char list option \<times> 'e"
  ca_getaddrinfo :: "string option \<Rightarrow> 'e \<Rightarrow> string list option \<times> 'e"
  ca_sigterm :: "'e \<Rightarrow> 'e"
  ca_ping_status :: "(string \<Rightarrow> 'e \<Rightarrow> 'e) option" \<comment> \<open>\<open>on_ping_status_change\<close>\<close>
  ca_token_env :: "'e \<Rightarrow> token_env \<times> 'e"
  ca_dns_query :: bool                          \<comment> \<open>\<open>FEATURE_DNS_QUERY\<close>\<close>
  ca_curl :: "'e curl"
  ca_uuid :: "int \<Rightarrow> string option"
  ca_json :: cjson_api
  ca_base64 :: base64
  ca_conn_new :: "conn_request \<Rightarrow> 'e \<Rightarrow> 'c option \<times> 'e"
  ca_conn_is_ok :: "'c option \<Rightarrow> 'e \<Rightarrow> bool \<times> 'e"
  ca_wait_ready :: "'c option \<Rightarrow> 'e \<Rightarrow> (bool \<times> int \<times> string option) \<times> 'e"
  ca_close_ext :: "'c \<Rightarrow> int \<Rightarrow> string \<Rightarrow> 'e \<Rightarrow> 'e"

record ('c, 'e) world =
  w_conn :: "'c conn_state"
  w_encodedData :: "char list"
  w_response_code :: int
  w_init :: bool
  w_env :: 'e

text \<open>Asking, waiting and acting outside, and a step on the state of the connection. A wait may never end.\<close>

definition ask :: "('e \<Rightarrow> 'a \<times> 'e) \<Rightarrow> ('c, 'e) world \<Rightarrow> 'a \<times> ('c, 'e) world" where
  "ask f w = (case f (w_env w) of (a, e) \<Rightarrow> (a, w\<lparr>w_env := e\<rparr>))"

definition ask_waiting :: "('e \<Rightarrow> ('a \<times> 'e) option) \<Rightarrow> ('c, 'e) world \<Rightarrow> ('a \<times> ('c, 'e) world) option" where
  "ask_waiting f w = map_option (\<lambda>(a, e). (a, w\<lparr>w_env := e\<rparr>)) (f (w_env w))"

definition act :: "('e \<Rightarrow> 'e) \<Rightarrow> ('c, 'e) world \<Rightarrow> ('c, 'e) world" where
  "act f w = w\<lparr>w_env := f (w_env w)\<rparr>"

definition on_conn :: "('c conn_state \<Rightarrow> 'c conn_state) \<Rightarrow> ('c, 'e) world \<Rightarrow> ('c, 'e) world" where
  "on_conn f w = w\<lparr>w_conn := f (w_conn w)\<rparr>"

definition get_parodus_cfg :: "('c, 'e) world \<Rightarrow> ParodusCfg" where
  "get_parodus_cfg w = cs_cfg (w_conn w)"

definition get_global_conn :: "('c, 'e) world \<Rightarrow> 'c option" where
  "get_global_conn w = cs_conn (w_conn w)"

definition set_global_conn :: "'c option \<Rightarrow> ('c, 'e) world \<Rightarrow> ('c, 'e) world" where
  "set_global_conn c = on_conn (\<lambda>s. s\<lparr>cs_conn := c\<rparr>)"

text \<open>A value that must have been assigned.\<close>

definition assigned :: "'a option \<Rightarrow> fault + 'a" where
  "assigned v = (case v of None \<Rightarrow> Inl UninitRead | Some x \<Rightarrow> Inr x)"

subsection \<open>The health file\<close>

definition write_conn_in_prog_file ::
  "('c, 'e) conn_api \<Rightarrow> bool \<Rightarrow> nat \<Rightarrow> ('c, 'e) world \<Rightarrow> ('c, 'e) world" where
  "write_conn_in_prog_file api is_starting start_time w =
     (case connection_health_file (get_parodus_cfg w) of
        None \<Rightarrow> w
      | Some file \<Rightarrow>
          (case ask (ca_open api file) w of (opened, w) \<Rightarrow>
             if \<not> opened then w
             else case ask (ca_time api) w of (timestamp, w) \<Rightarrow>
               act (ca_write api file
                 (if is_starting then ''{START='' @ nat_text start_time @ '','' @ nat_text timestamp @ ''}'' @ [newline]
                  else ''{STOP='' @ nat_text timestamp @ ''}'' @ [newline])) w))"

definition start_conn_in_progress :: "('c, 'e) conn_api \<Rightarrow> nat \<Rightarrow> ('c, 'e) world \<Rightarrow> ('c, 'e) world" where
  "start_conn_in_progress api start_time = write_conn_in_prog_file api True start_time"

definition stop_conn_in_progress :: "('c, 'e) conn_api \<Rightarrow> ('c, 'e) world \<Rightarrow> ('c, 'e) world" where
  "stop_conn_in_progress api = write_conn_in_prog_file api False 0"

subsection \<open>Backoff\<close>

text \<open>
  \<open>backoff_delay\<close> of theory \<open>Timers\<close> with its clock, random numbers, wait and flag asked for; a health file
  that is due is written before the wait.
\<close>

definition take_backoff ::
  "('c, 'e) conn_api \<Rightarrow> backoff_timer_t \<Rightarrow> ('c, 'e) world \<Rightarrow> fault + backoff_result \<times> backoff_timer_t \<times> ('c, 'e) world" where
  "take_backoff api timer w =
     (case ask (ca_clock api) w of (now, w) \<Rightarrow>
      let w = (if UPDATE_HEALTH_FILE_INTERVAL_SECS \<le> tv_sec now - tv_sec (bt_ts timer)
               then start_conn_in_progress api (bt_start_time timer) w else w)
      in case ask (ca_random api) w of (r1, w) \<Rightarrow>
         case ask (ca_random api) w of (r2, w) \<Rightarrow>
         case ask (ca_backoff_wait api) w of (rtn, w) \<Rightarrow>
         case ask (ca_shutdown api) w of (stop, w) \<Rightarrow>
         then_run (backoff_delay \<lparr> be_now = now, be_random1 = r1, be_random2 = r2, be_wait_rtn = rtn, be_shutdown = stop \<rparr> timer)
           (\<lambda>(res, timer, _, _). Inr (res, timer, w)))"

subsection \<open>Headers\<close>

definition cfg_param :: "string \<Rightarrow> string" where
  "cfg_param s = (if length s \<noteq> 0 then s else ''unknown'')"

text \<open>\<open>getWebpaConveyHeader\<close> on the world.\<close>

definition convey_header :: "('c, 'e) conn_api \<Rightarrow> ('c, 'e) world \<Rightarrow> fault + string option \<times> ('c, 'e) world" where
  "convey_header api w =
     then_run (getWebpaConveyHeader (ca_json api) (ca_base64 api) (get_parodus_cfg w)
         (cs_reconnect_reason (w_conn w)) (w_encodedData w))
       (\<lambda>(header, buf). Inr (header, w\<lparr>w_encodedData := buf\<rparr>))"

text \<open>The result is the return value and the header information; allocation succeeds.\<close>

definition init_header_info ::
  "('c, 'e) conn_api \<Rightarrow> ('c, 'e) world \<Rightarrow> fault + int \<times> header_info_t \<times> ('c, 'e) world" where
  "init_header_info api w =
     (let cfg = get_parodus_cfg w;
          protocol = cfg_param (webpa_protocol cfg);
          fw = cfg_param (fw_name cfg);
          model = cfg_param (hw_model cfg);
          manufacturer = cfg_param (hw_manufacturer cfg);
          user_agent_len = length protocol + length fw + length model + length manufacturer +
            length ''%s (%s; %s/%s;)'' + 1;
          agent = take (user_agent_len - 1)
            (protocol @ '' ('' @ fw @ ''; '' @ model @ ''/'' @ manufacturer @ '';)'');
          device_id_len = length (hw_mac cfg) + 5;
          device = take (device_id_len - 1) (''mac:'' @ hw_mac cfg)
      in then_run (convey_header api w) (\<lambda>(header, w).
         if header = None
         then Inr (- 1, \<lparr> conveyHeader = None, device_id = None, user_agent = None \<rparr>, w)
         else Inr (0, \<lparr> conveyHeader = header, device_id = Some device, user_agent = Some agent \<rparr>, w)))"

definition crlf :: string where "crlf = [CHR 0x0D, CHR 0x0A]"

text \<open>A null pointer printed with \<^verbatim>\<open>%s\<close> is undefined.\<close>

definition build_extra_headers ::
  "string option \<Rightarrow> string option \<Rightarrow> string option \<Rightarrow> string option \<Rightarrow> fault + string" where
  "build_extra_headers auth device agent convey =
     then_run (deref device) (\<lambda>device.
     then_run (deref agent) (\<lambda>agent.
     Inr ((case auth of None \<Rightarrow> [] | Some a \<Rightarrow> crlf @ ''Authorization: Bearer '' @ a) @
          crlf @ ''X-WebPA-Device-Name: '' @ device @
          crlf @ ''X-WebPA-Device-Protocols: wrp-0.11,getset-0.1'' @
          crlf @ ''User-Agent: '' @ agent @
          (case convey of None \<Rightarrow> [] | Some c \<Rightarrow> crlf @ ''X-WebPA-Convey: '' @ c))))"

definition build_extra_hdrs :: "ParodusCfg \<Rightarrow> header_info_t \<Rightarrow> fault + string" where
  "build_extra_hdrs cfg header_info =
     (let auth_token = webpa_auth_token cfg
      in build_extra_headers (if 0 < length auth_token then Some auth_token else None)
           (device_id header_info) (user_agent header_info) (conveyHeader header_info))"

definition set_current_server :: "create_connection_ctx_t \<Rightarrow> create_connection_ctx_t" where
  "set_current_server ctx = ctx\<lparr>ctx_current_server := Some (get_current_server (ctx_server_list ctx))\<rparr>"

definition fetch_token :: "('c, 'e) conn_api \<Rightarrow> ('c, 'e) world \<Rightarrow> fault + ('c, 'e) world" where
  "fetch_token api w =
     then_run (getAuthToken (ca_curl api) (cs_reconnect_reason (w_conn w)) (ca_uuid api) (get_parodus_cfg w)
         (w_response_code w, w_env w))
       (\<lambda>(cfg, code, e). Inr ((on_conn (\<lambda>s. s\<lparr>cs_cfg := cfg\<rparr>) w)\<lparr>w_response_code := code, w_env := e\<rparr>))"

definition set_extra_headers ::
  "('c, 'e) conn_api \<Rightarrow> create_connection_ctx_t \<Rightarrow> ('c, 'e) world \<Rightarrow>
     fault + create_connection_ctx_t \<times> ('c, 'e) world" where
  "set_extra_headers api ctx w =
     (let cfg = get_parodus_cfg w in
      then_run (if length (webpa_auth_token cfg) = 0 \<and>
                   (case client_cert_path cfg of None \<Rightarrow> False | Some p \<Rightarrow> 0 < length p)
                then fetch_token api w else Inr w) (\<lambda>w.
      then_run (build_extra_hdrs (get_parodus_cfg w) (ctx_header_info ctx)) (\<lambda>hdrs.
      Inr (ctx\<lparr>ctx_extra_headers := Some hdrs\<rparr>, w))))"

subsection \<open>Finding the servers\<close>

datatype find_rtn = FIND_SUCCESS | FIND_INVALID_DEFAULT | FIND_JWT_FAIL

definition find_servers ::
  "('c, 'e) conn_api \<Rightarrow> server_list_t \<Rightarrow> ('c, 'e) world \<Rightarrow> fault + find_rtn \<times> server_list_t \<times> ('c, 'e) world" where
  "find_servers api sl w =
     (let sl = free_server_list sl; cfg = get_parodus_cfg w in
      case parse_server_url (webpa_url cfg) (sl_defaults sl) of (r, server) \<Rightarrow>
      let sl = sl\<lparr>sl_defaults := server\<rparr> in
      if r < 0 then Inr (FIND_INVALID_DEFAULT, sl, w)
      else if ca_dns_query api \<and> acquire_jwt cfg \<noteq> 0 then
        (case ask (ca_token_env api) w of (E, w) \<Rightarrow>
         then_run (allow_insecure_conn E cfg) (\<lambda>res.
           case res of
             Inl err \<Rightarrow> Inr (FIND_JWT_FAIL, sl\<lparr>sl_jwt := (sl_jwt sl)\<lparr>allow_insecure := Some (token_err_code err)\<rparr>\<rparr>, w)
           | Inr (insecure, addr, port) \<Rightarrow>
               Inr (FIND_SUCCESS, sl\<lparr>sl_jwt := \<lparr> allow_insecure = Some insecure, server_addr = Some addr,
                                              sv_port = Some port \<rparr>\<rparr>, w)))
      else Inr (FIND_SUCCESS, sl, w))"

subsection \<open>The address check\<close>

text \<open>The loop over the addresses of the host, with \<open>status\<close>.\<close>

fun host_status :: "string list \<Rightarrow> int \<Rightarrow> int" where
  "host_status [] status = status"
| "host_status (addrstr # res) status = (if addrstr = ''10.0.0.1'' then host_status res (- 2) else 0)"

definition checkHostIp ::
  "('c, 'e) conn_api \<Rightarrow> string option \<Rightarrow> ('c, 'e) world \<Rightarrow> int \<times> ('c, 'e) world" where
  "checkHostIp api serverIP w =
     (case ask (ca_getaddrinfo api serverIP) w of (result, w) \<Rightarrow>
        (case result of None \<Rightarrow> - 1 | Some res \<Rightarrow> host_status res (- 1), w))"

subsection \<open>Closing\<close>

definition CloseNormalClosure :: int where "CloseNormalClosure = 1000"
definition SHUTDOWN_REASON_SYSTEM_RESTART :: string where "SHUTDOWN_REASON_SYSTEM_RESTART = ''system_restarting''"
definition SHUTDOWN_REASON_SIGTERM :: string where "SHUTDOWN_REASON_SIGTERM = ''SIGTERM''"

text \<open>Whether the process is shutting down is only logged.\<close>

definition close_conn :: "('c, 'e) conn_api \<Rightarrow> 'c \<Rightarrow> ('c, 'e) world \<Rightarrow> ('c, 'e) world" where
  "close_conn api conn w =
     (case cs_shutdown_reason (w_conn w) of
        None \<Rightarrow> act (ca_close_ext api conn CloseNormalClosure SHUTDOWN_REASON_SYSTEM_RESTART) w
      | Some effective_reason \<Rightarrow>
          if effective_reason = SHUTDOWN_REASON_SIGTERM then
            (case close_reason_file (get_parodus_cfg w) of
               None \<Rightarrow> act (ca_close_ext api conn CloseNormalClosure SHUTDOWN_REASON_SYSTEM_RESTART) w
             | Some reason_file \<Rightarrow>
                 (case ask (ca_read_file api reason_file) w of (content, w) \<Rightarrow>
                    (case readFromFile (\<lambda>_. content) reason_file of
                       None \<Rightarrow> act (ca_close_ext api conn CloseNormalClosure SHUTDOWN_REASON_SYSTEM_RESTART) w
                     | Some sigterm_reason \<Rightarrow>
                         if length sigterm_reason \<noteq> 0
                         then act (ca_close_ext api conn CloseNormalClosure sigterm_reason) w
                         else act (ca_close_ext api conn CloseNormalClosure SHUTDOWN_REASON_SYSTEM_RESTART) w)))
          else act (ca_close_ext api conn CloseNormalClosure effective_reason) w)"

definition close_and_unref_connection ::
  "('c, 'e) conn_api \<Rightarrow> 'c option \<Rightarrow> ('c, 'e) world \<Rightarrow> ('c, 'e) world" where
  "close_and_unref_connection api conn w =
     (case conn of
        None \<Rightarrow> w
      | Some c \<Rightarrow> on_conn (\<lambda>s. s\<lparr>cs_cfg := (cs_cfg s)\<lparr>cloud_status := Some CLOUD_STATUS_OFFLINE\<rparr>\<rparr>) (close_conn api c w))"

subsection \<open>One attempt\<close>

definition createConnOpts :: "ParodusCfg \<Rightarrow> string option \<Rightarrow> bool \<Rightarrow> conn_opts" where
  "createConnOpts cfg extra_headers secure =
     (let non_empty = (\<lambda>p. p \<noteq> None \<and> p \<noteq> Some []);
          mtls = non_empty (mtls_client_cert_path cfg) \<and> non_empty (mtls_client_key_path cfg)
      in \<lparr> co_ssl_certs =
             (if secure \<and> 0 < length (cert_path cfg)
              then Some (if mtls then mtls_client_cert_path cfg else None,
                         if mtls then mtls_client_key_path cfg else None, cert_path cfg)
              else None),
           co_peer_verify = secure, co_tlsv1_2 = secure,
           co_interface = webpa_interface_used cfg, co_extra_headers = extra_headers \<rparr>)"

text \<open>What happens when no connection could be made with IPv4 and the host resolves to 10.0.0.1.\<close>

definition dns_local_check ::
  "('c, 'e) conn_api \<Rightarrow> create_connection_ctx_t \<Rightarrow> string option \<Rightarrow> ('c, 'e) world \<Rightarrow>
     create_connection_ctx_t \<times> ('c, 'e) world" where
  "dns_local_check api ctx host w =
     (case checkHostIp api host w of (status, w) \<Rightarrow>
        if status = - 2 then
          (case ask (ca_clock api) w of (now, w) \<Rightarrow>
           case check_timer_expired now (15 * 60 * 1000) (ctx_connect_timer ctx) of (expired, timer) \<Rightarrow>
           let ctx = ctx\<lparr>ctx_connect_timer := timer\<rparr> in
           if expired then
             (case ask (ca_interface_down api) w of (down, w) \<Rightarrow>
                if \<not> down then
                  (ctx, act (ca_sigterm api)
                     (on_conn (set_global_reconnect_status True \<circ> set_global_reconnect_reason ''Dns_Res_webpa_reconnect'') w))
                else (ctx, w))
           else (ctx, w))
        else (ctx, w))"

definition nopoll_connect ::
  "('c, 'e) conn_api \<Rightarrow> create_connection_ctx_t \<Rightarrow> bool \<Rightarrow> ('c, 'e) world \<Rightarrow>
     fault + bool \<times> create_connection_ctx_t \<times> ('c, 'e) world" where
  "nopoll_connect api ctx is_ipv6 w =
     then_run (deref (ctx_current_server ctx)) (\<lambda>ptr.
     let server = server_at (ctx_server_list ctx) ptr; cfg = get_parodus_cfg w in
     then_run (assigned (sv_port server)) (\<lambda>port.
     then_run (assigned (allow_insecure server)) (\<lambda>insecure.
       let req = \<lparr> cr_call = (if 0 < insecure then nopoll_conn_new_opts
                             else if is_ipv6 then nopoll_conn_tls_new6 else nopoll_conn_tls_new),
                  cr_opts = createConnOpts cfg (ctx_extra_headers ctx) (\<not> 0 < insecure),
                  cr_host = server_addr server, cr_port = nat_text (unat port), cr_url = webpa_path_url cfg \<rparr>
       in case ask (ca_conn_new api req) w of (connection, w) \<Rightarrow>
          case (if connection = None \<and> \<not> is_ipv6 then dns_local_check api ctx (server_addr server) w
                else (ctx, w)) of (ctx, w) \<Rightarrow>
          Inr (connection \<noteq> None, ctx, set_global_conn connection w))))"

datatype wait_rtn = WAIT_SUCCESS | WAIT_ACTION_RETRY | WAIT_FAIL

text \<open>The part of a redirect url that is parsed.\<close>

definition redirect_target :: "string \<Rightarrow> string" where
  "redirect_target url = (if strncmp_eq url ''Redirect:'' 9 then drop 9 url else url)"

definition wait_connection_ready ::
  "('c, 'e) conn_api \<Rightarrow> create_connection_ctx_t \<Rightarrow> ('c, 'e) world \<Rightarrow>
     fault + wait_rtn \<times> create_connection_ctx_t \<times> ('c, 'e) world" where
  "wait_connection_ready api ctx w =
     (case ask (ca_wait_ready api (get_global_conn w)) w of ((ready, wait_status, redirectURL), w) \<Rightarrow>
      if ready then Inr (WAIT_SUCCESS, ctx, w)
      else if wait_status = 307 \<or> wait_status = 302 \<or> wait_status = 303 then
        then_run (deref redirectURL) (\<lambda>url.
        let sl = ctx_server_list ctx in
        case parse_server_url (redirect_target url) (free_server (sl_redirect sl)) of (r, server) \<Rightarrow>
        let ctx = ctx\<lparr>ctx_server_list := sl\<lparr>sl_redirect := server\<rparr>\<rparr> in
        if r < 0 then Inr (WAIT_FAIL, ctx, w)
        else Inr (WAIT_ACTION_RETRY, set_current_server ctx, w))
      else if wait_status = 403 then
        Inr (WAIT_ACTION_RETRY, ctx, on_conn (\<lambda>s. s\<lparr>cs_cfg := (cs_cfg s)\<lparr>webpa_auth_token := []\<rparr>\<rparr>) w)
      else Inr (WAIT_FAIL, ctx, w))"

datatype conn_wait_rtn = CONN_WAIT_SUCCESS | CONN_WAIT_ACTION_RETRY | CONN_WAIT_FAIL

text \<open>The body of the loop up to the second close: the result of the wait and whether there was a connection.\<close>

definition connect_try ::
  "('c, 'e) conn_api \<Rightarrow> create_connection_ctx_t \<Rightarrow> bool \<Rightarrow> ('c, 'e) world \<Rightarrow>
     fault + wait_rtn \<times> create_connection_ctx_t \<times> ('c, 'e) world" where
  "connect_try api ctx is_ipv6 w =
     then_run (nopoll_connect api ctx is_ipv6 w) (\<lambda>(nopoll_connected, ctx, w).
       if nopoll_connected then
         (case ask (ca_conn_is_ok api (get_global_conn w)) w of (ok, w) \<Rightarrow>
          then_run (if ok then wait_connection_ready api ctx w else Inr (WAIT_FAIL, ctx, w)) (\<lambda>(wait_rtn, ctx, w).
            if wait_rtn = WAIT_SUCCESS then Inr (wait_rtn, ctx, w)
            else Inr (wait_rtn, ctx, set_global_conn None (close_and_unref_connection api (get_global_conn w) w))))
       else Inr (WAIT_FAIL, ctx, w))"

function connect_loop ::
  "('c, 'e) conn_api \<Rightarrow> u32 \<Rightarrow> create_connection_ctx_t \<Rightarrow> bool \<Rightarrow> ('c, 'e) world \<Rightarrow>
     fault + conn_wait_rtn \<times> create_connection_ctx_t \<times> ('c, 'e) world" where
  "connect_loop api force_flags ctx is_ipv6 w =
     then_run (connect_try api ctx is_ipv6 w) (\<lambda>(wait_rtn, ctx, w).
       case wait_rtn of
         WAIT_SUCCESS \<Rightarrow> Inr (CONN_WAIT_SUCCESS, ctx, w)
       | WAIT_ACTION_RETRY \<Rightarrow> Inr (CONN_WAIT_ACTION_RETRY, ctx, w)
       | WAIT_FAIL \<Rightarrow>
           if force_flags = 0 then
             then_run (deref (ctx_current_server ctx)) (\<lambda>ptr.
             then_run (assigned (allow_insecure (server_at (ctx_server_list ctx) ptr))) (\<lambda>insecure.
               if insecure = 0 \<and> is_ipv6 then connect_loop api force_flags ctx False w
               else Inr (CONN_WAIT_FAIL, ctx, w)))
           else Inr (CONN_WAIT_FAIL, ctx, w))"
  by pat_completeness auto
termination by (relation "measure (\<lambda>(api, f, ctx, is_ipv6, w). if is_ipv6 then 1 else 0)") auto

declare connect_loop.simps [simp del]

definition connect_and_wait ::
  "('c, 'e) conn_api \<Rightarrow> create_connection_ctx_t \<Rightarrow> ('c, 'e) world \<Rightarrow>
     fault + conn_wait_rtn \<times> create_connection_ctx_t \<times> ('c, 'e) world" where
  "connect_and_wait api ctx w =
     (let force_flags = cfg_flags (get_parodus_cfg w)
      in connect_loop api force_flags ctx (FLAGS_IPV4_ONLY \<noteq> FLAGS_IPV4_ONLY AND force_flags) w)"

subsection \<open>Loops\<close>

text \<open>
  The loops may run forever, and the wait for the interface may never be woken, so their result is an option
  (\<open>None\<close> where they do not end) of an execution that may fault.
\<close>

abbreviation run_bind ::
  "(fault + 'a) option \<Rightarrow> ('a \<Rightarrow> (fault + 'b) option) \<Rightarrow> (fault + 'b) option" where
  "run_bind m k \<equiv> Option.bind m (\<lambda>r. case r of Inl f \<Rightarrow> Some (Inl f) | Inr x \<Rightarrow> k x)"

partial_function (option) interface_wait_loop ::
  "('c, 'e) conn_api \<Rightarrow> ('c, 'e) world \<Rightarrow> (bool \<times> ('c, 'e) world) option" where
  "interface_wait_loop api w =
     (case ask (ca_interface_down api) w of (down, w) \<Rightarrow>
      if \<not> down then Some (True, w)
      else Option.bind (ask_waiting (ca_interface_wait api) w) (\<lambda>(rtn, w).
           if rtn \<noteq> 0 then Some (False, w)
           else case ask (ca_shutdown api) w of (stop, w) \<Rightarrow>
                if stop then Some (False, w) else interface_wait_loop api w))"

text \<open>The result is whether the function returns \<open>0\<close>.\<close>

definition wait_while_interface_down ::
  "('c, 'e) conn_api \<Rightarrow> ('c, 'e) world \<Rightarrow> (bool \<times> ('c, 'e) world) option" where
  "wait_while_interface_down api w =
     interface_wait_loop api (set_global_conn None (close_and_unref_connection api (get_global_conn w) w))"

text \<open>
  What follows a failed attempt: waiting for the interface and a new convey header, or a backoff. The flag
  says whether the loop goes on to its last test.
\<close>

definition after_failure ::
  "('c, 'e) conn_api \<Rightarrow> create_connection_ctx_t \<Rightarrow> backoff_timer_t \<Rightarrow> ('c, 'e) world \<Rightarrow>
     (fault + bool \<times> create_connection_ctx_t \<times> backoff_timer_t \<times> ('c, 'e) world) option" where
  "after_failure api ctx timer w =
     (case ask (ca_interface_down api) w of (down, w) \<Rightarrow>
      if down then
        Option.bind (wait_while_interface_down api w) (\<lambda>(up, w).
          if \<not> up then Some (Inr (False, ctx, timer, w))
          else Some (then_run (convey_header api (start_conn_in_progress api (bt_start_time timer) w)) (\<lambda>(header, w).
            Inr (True, ctx\<lparr>ctx_header_info := (ctx_header_info ctx)\<lparr>conveyHeader := header\<rparr>\<rparr>, timer, w))))
      else
        Some (then_run (take_backoff api timer w) (\<lambda>(res, timer, w).
          Inr (res = BACKOFF_DELAY_TAKEN, ctx, timer, w))))"

partial_function (option) keep_trying_to_connect ::
  "('c, 'e) conn_api \<Rightarrow> create_connection_ctx_t \<Rightarrow> backoff_timer_t \<Rightarrow> ('c, 'e) world \<Rightarrow>
     (fault + bool \<times> create_connection_ctx_t \<times> backoff_timer_t \<times> ('c, 'e) world) option" where
  "keep_trying_to_connect api ctx timer w =
     (case ask (ca_shutdown api) w of (stop, w) \<Rightarrow>
      if stop then Some (Inr (False, ctx, timer, w))
      else run_bind (Some (set_extra_headers api ctx w)) (\<lambda>(ctx, w).
           run_bind (Some (connect_and_wait api ctx w)) (\<lambda>(rtn, ctx, w).
             if rtn = CONN_WAIT_SUCCESS then Some (Inr (True, ctx, timer, w))
             else if rtn = CONN_WAIT_ACTION_RETRY then keep_trying_to_connect api ctx timer w
             else run_bind (after_failure api ctx timer w) (\<lambda>(go_on, ctx, timer, w).
               if \<not> go_on then Some (Inr (False, ctx, timer, w))
               else if rtn = CONN_WAIT_FAIL then Some (Inr (False, ctx, timer, w))
               else keep_trying_to_connect api ctx timer w))))"

definition free_redirect :: "create_connection_ctx_t \<Rightarrow> create_connection_ctx_t" where
  "free_redirect ctx = ctx\<lparr>ctx_server_list := (ctx_server_list ctx)\<lparr>sl_redirect := free_server (sl_redirect (ctx_server_list ctx))\<rparr>\<rparr>"

text \<open>Looking up the server token again before the next round.\<close>

definition find_jwt_again ::
  "('c, 'e) conn_api \<Rightarrow> create_connection_ctx_t \<Rightarrow> ('c, 'e) world \<Rightarrow>
     fault + create_connection_ctx_t \<times> ('c, 'e) world" where
  "find_jwt_again api ctx w =
     (if ca_dns_query api \<and> server_is_null (sl_jwt (ctx_server_list ctx)) then
        then_run (find_servers api (ctx_server_list ctx) w) (\<lambda>(rtn, sl, w).
          Inr (ctx\<lparr>ctx_server_list := sl\<rparr>, if rtn = FIND_INVALID_DEFAULT then act (ca_set_shutdown api) w else w))
      else Inr (ctx, w))"

partial_function (option) connection_loop ::
  "('c, 'e) conn_api \<Rightarrow> create_connection_ctx_t \<Rightarrow> backoff_timer_t \<Rightarrow> ('c, 'e) world \<Rightarrow>
     (fault + create_connection_ctx_t \<times> ('c, 'e) world) option" where
  "connection_loop api ctx timer w =
     (case ask (ca_shutdown api) w of (stop, w) \<Rightarrow>
      if stop then Some (Inr (ctx, w))
      else run_bind (keep_trying_to_connect api (set_current_server ctx) timer w) (\<lambda>(connected, ctx, timer, w).
        if connected then Some (Inr (free_redirect ctx, w))
        else run_bind (Some (find_jwt_again api (free_redirect ctx) w)) (\<lambda>(ctx, w).
          connection_loop api ctx timer w)))"

declare interface_wait_loop.simps [code] keep_trying_to_connect.simps [code] connection_loop.simps [code]

subsection \<open>createNopollConnection\<close>

text \<open>What follows the loop; the first read of the current server is for a log line.\<close>

definition connection_done ::
  "('c, 'e) conn_api \<Rightarrow> create_connection_ctx_t \<Rightarrow> ('c, 'e) world \<Rightarrow> fault + ('c, 'e) world" where
  "connection_done api ctx w =
     then_run (deref (ctx_current_server ctx)) (\<lambda>ptr.
     then_run (assigned (allow_insecure (server_at (ctx_server_list ctx) ptr))) (\<lambda>_.
       let w = on_conn (\<lambda>s. s\<lparr>cs_cfg := (cs_cfg s)\<lparr>cloud_status := Some CLOUD_STATUS_ONLINE\<rparr>\<rparr>) w;
           w = (case ca_ping_status api of None \<Rightarrow> w | Some f \<Rightarrow> act (f ''received'') w);
           w = (if boot_time (get_parodus_cfg w) \<noteq> 0 \<and> w_init w
                then (snd (ask (ca_clock api) w))\<lparr>w_init := False\<rparr> else w);
           w = on_conn (\<lambda>s. s\<lparr>cs_flags := reset_heartBeatTimer (reset_close_retry (cs_flags s))\<rparr>) w;
           w = on_conn (set_global_reconnect_status False \<circ> set_global_reconnect_reason ''webpa_process_starts'') w;
           w = on_conn setMessageHandlers w
       in Inr (stop_conn_in_progress api w)))"

definition zero_timespec :: timespec where "zero_timespec = \<lparr> tv_sec = 0, tv_nsec = 0 \<rparr>"

text \<open>
  The part before the loop: \<open>None\<close> where \<open>nopoll_false\<close> is returned. The list of servers belongs to the caller.
\<close>

definition connection_setup ::
  "('c, 'e) conn_api \<Rightarrow> server_list_t \<Rightarrow> ('c, 'e) world \<Rightarrow>
     fault + (create_connection_ctx_t \<times> backoff_timer_t) option \<times> server_list_t \<times> ('c, 'e) world" where
  "connection_setup api server_list w =
     (let max_retry_count = sint (webpa_backoff_max (get_parodus_cfg w));
          timer = init_expire_timer \<lparr> running = False, et_start_time = zero_timespec, et_end_time = zero_timespec \<rparr>
      in then_run (init_header_info api w) (\<lambda>(_, header_info, w).
         then_run (if server_is_null (sl_defaults server_list)
                   then find_servers api server_list w else Inr (FIND_SUCCESS, server_list, w)) (\<lambda>(rtn, sl, w).
           if rtn = FIND_INVALID_DEFAULT then Inr (None, sl, w)
           else case ask (ca_clock api) w of (now, w) \<Rightarrow>
                case ask (ca_time api) w of (secs, w) \<Rightarrow>
                Inr (Some (\<lparr> ctx_server_list = sl, ctx_current_server = None, ctx_header_info = header_info,
                            ctx_extra_headers = None, ctx_connect_timer = timer \<rparr>,
                          init_backoff_timer max_retry_count now secs),
                     sl, start_conn_in_progress api secs w))))"

text \<open>The return value, the list of servers and the world. \<open>has_ctx\<close> says that the nopoll context is not null.\<close>

definition createNopollConnection ::
  "('c, 'e) conn_api \<Rightarrow> bool \<Rightarrow> server_list_t \<Rightarrow> ('c, 'e) world \<Rightarrow>
     (fault + bool \<times> server_list_t \<times> ('c, 'e) world) option" where
  "createNopollConnection api has_ctx server_list w =
     (if \<not> has_ctx then Some (Inr (False, server_list, w))
      else run_bind (Some (connection_setup api server_list w)) (\<lambda>(start, sl, w).
        case start of
          None \<Rightarrow> Some (Inr (False, sl, w))
        | Some (ctx, timer) \<Rightarrow>
            run_bind (connection_loop api ctx timer w) (\<lambda>(ctx, w).
              Some (then_run (connection_done api ctx w) (\<lambda>w. Inr (True, ctx_server_list ctx, w))))))"

end
