(* ===== verification/Connection_Inv.thy ===== *)
theory Connection_Inv
  imports Connection
begin

text \<open>
  What holds all along while the connecting thread runs. A property of its world that no step outside breaks
  and that depends on the state of the connection only through the parts of the configuration that stay fixed
  is an invariant of every function of \<^verbatim>\<open>connection.c\<close> (locale \<open>world_invariant\<close>). It is used for the states outside
  that can be reached and for the fixed parts of the configuration (\<open>later\<close>).
\<close>

subsection \<open>Steps outside\<close>

inductive env_step :: "('c, 'e) conn_api \<Rightarrow> 'e \<Rightarrow> 'e \<Rightarrow> bool" for api where
  step_shutdown: "env_step api e (snd (ca_shutdown api e))"
| step_set_shutdown: "env_step api e (ca_set_shutdown api e)"
| step_interface_down: "env_step api e (snd (ca_interface_down api e))"
| step_clock: "env_step api e (snd (ca_clock api e))"
| step_time: "env_step api e (snd (ca_time api e))"
| step_random: "env_step api e (snd (ca_random api e))"
| step_backoff_wait: "env_step api e (snd (ca_backoff_wait api e))"
| step_interface_wait: "ca_interface_wait api e = Some (rtn, e') \<Longrightarrow> env_step api e e'"
| step_open: "env_step api e (snd (ca_open api f e))"
| step_write: "env_step api e (ca_write api f s e)"
| step_read_file: "env_step api e (snd (ca_read_file api f e))"
| step_getaddrinfo: "env_step api e (snd (ca_getaddrinfo api h e))"
| step_sigterm: "env_step api e (ca_sigterm api e)"
| step_ping_status: "ca_ping_status api = Some g \<Longrightarrow> env_step api e (g s e)"
| step_token_env: "env_step api e (snd (ca_token_env api e))"
| step_curl: "env_step api e (snd (ca_curl api rq e))"
| step_conn_new: "env_step api e (snd (ca_conn_new api cr e))"
| step_conn_is_ok: "env_step api e (snd (ca_conn_is_ok api c e))"
| step_wait_ready: "env_step api e (snd (ca_wait_ready api c e))"
| step_close_ext: "env_step api e (ca_close_ext api c' n s e)"

lemmas env_steps = env_step.intros

text \<open>The configuration that an attempt to connect may leave behind.\<close>

definition cfg_kept :: "ParodusCfg \<Rightarrow> ParodusCfg \<Rightarrow> bool" where
  "cfg_kept c c' \<longleftrightarrow> (\<exists>t s. c' = c\<lparr>webpa_auth_token := t, cloud_status := s\<rparr>)"

lemma cfg_kept_refl [simp]: "cfg_kept c c"
proof -
  have "c = c\<lparr>webpa_auth_token := webpa_auth_token c, cloud_status := cloud_status c\<rparr>" by simp
  then show ?thesis unfolding cfg_kept_def by blast
qed

lemma cfg_kept_upd [simp]: "cfg_kept c (c\<lparr>webpa_auth_token := t\<rparr>)" "cfg_kept c (c\<lparr>cloud_status := s\<rparr>)"
proof -
  have "c\<lparr>webpa_auth_token := t\<rparr> = c\<lparr>webpa_auth_token := t, cloud_status := cloud_status c\<rparr>"
    "c\<lparr>cloud_status := s\<rparr> = c\<lparr>webpa_auth_token := webpa_auth_token c, cloud_status := s\<rparr>" by simp_all
  then show "cfg_kept c (c\<lparr>webpa_auth_token := t\<rparr>)" "cfg_kept c (c\<lparr>cloud_status := s\<rparr>)"
    unfolding cfg_kept_def by blast+
qed

lemma cfg_kept_trans: "cfg_kept a b \<Longrightarrow> cfg_kept b c \<Longrightarrow> cfg_kept a c"
  by (fastforce simp: cfg_kept_def)

text \<open>Fetching a token changes only the token, and what is outside by curl.\<close>

lemma getAuthToken_steps:
  "\<exists>rc' t rqs. getAuthToken curl reason uuid cfg (rc, e) =
     Inr (cfg\<lparr>webpa_auth_token := t\<rparr>, rc', snd (first_token curl rqs e))"
proof (cases "may_ask_token cfg")
  case True
  then have "\<exists>rc'. getAuthToken curl reason uuid cfg (rc, e) =
      (let r = first_token curl (map (\<lambda>i. token_request cfg reason (uuid i) i) [0, 1, 2]) e
       in Inr (cfg\<lparr>webpa_auth_token := fst r\<rparr>, rc', snd r))"
    using getAuthToken_first [of curl reason uuid cfg rc e] by (simp only: if_True)
  then show ?thesis unfolding Let_def by blast
next
  case False
  then have "\<exists>rc'. getAuthToken curl reason uuid cfg (rc, e) =
      Inr (cfg\<lparr>webpa_auth_token := []\<rparr>, rc', snd (first_token curl [] e))"
    using getAuthToken_first [of curl reason uuid cfg rc e] by (simp add: Let_def)
  then show ?thesis by blast
qed

subsection \<open>Servers and the context\<close>

text \<open>
  A server with an address has a valid protocol and port. In a context, the default server and the current
  one have been assigned.
\<close>

definition valid_server :: "server_t \<Rightarrow> bool" where
  "valid_server s \<longleftrightarrow> server_addr s = None \<or>
     (\<exists>a p. allow_insecure s = Some a \<and> sv_port s = Some p \<and> (a = 0 \<or> a = 1) \<and> 1 \<le> unat p \<and> unat p \<le> 65535)"

definition servers_ok :: "server_list_t \<Rightarrow> bool" where
  "servers_ok sl \<longleftrightarrow> valid_server (sl_defaults sl) \<and> valid_server (sl_jwt sl) \<and> valid_server (sl_redirect sl)"

definition readable :: "server_t \<Rightarrow> bool" where
  "readable s \<longleftrightarrow> allow_insecure s \<noteq> None \<and> sv_port s \<noteq> None"

definition ctx_ok :: "create_connection_ctx_t \<Rightarrow> bool" where
  "ctx_ok ctx \<longleftrightarrow> servers_ok (ctx_server_list ctx) \<and> readable (sl_defaults (ctx_server_list ctx)) \<and>
     (\<forall>p. ctx_current_server ctx = Some p \<longrightarrow> readable (server_at (ctx_server_list ctx) p))"

lemma valid_readable: "valid_server s \<Longrightarrow> server_addr s \<noteq> None \<Longrightarrow> readable s"
  by (auto simp: valid_server_def readable_def)

lemma free_server_simps [simp]:
  "valid_server (free_server s)" "readable (free_server s) = readable s" "server_addr (free_server s) = None"
  by (simp_all add: valid_server_def readable_def free_server_def)

lemma parse_server_url_ok:
  assumes "parse_server_url url s = (r, s')"
  shows "valid_server s'" "readable s \<Longrightarrow> readable s'" "0 \<le> r \<Longrightarrow> server_addr s' \<noteq> None" "0 \<le> r \<Longrightarrow> readable s'"
    "0 \<le> r \<longleftrightarrow> parse_webpa_url url \<noteq> None"
proof -
  have b: "(i = 0 \<or> i = 1) \<and> 1 \<le> unat q \<and> unat q \<le> 65535" if "parse_webpa_url url = Some (i, a, q)" for i a q
    using parse_webpa_url_bounds [OF that] by auto
  show "valid_server s'" "readable s \<Longrightarrow> readable s'" "0 \<le> r \<Longrightarrow> server_addr s' \<noteq> None" "0 \<le> r \<Longrightarrow> readable s'"
    "0 \<le> r \<longleftrightarrow> parse_webpa_url url \<noteq> None"
    using assms b by (auto simp: parse_server_url_def valid_server_def readable_def split: option.splits prod.splits)
qed

lemma ctx_ok_current: "ctx_ok ctx \<Longrightarrow> ctx_ok (set_current_server ctx)"
  by (auto simp: ctx_ok_def set_current_server_def get_current_server_def server_is_null_def servers_ok_def
      intro: valid_readable)

lemma server_at_upd: "server_at (sl\<lparr>sl_redirect := r\<rparr>) p = (if p = REDIRECT then r else server_at sl p)"
  "server_at (sl\<lparr>sl_defaults := r\<rparr>) p = (if p = DEFAULTS then r else server_at sl p)"
  "server_at (sl\<lparr>sl_jwt := r\<rparr>) p = (if p = JWT then r else server_at sl p)"
  by (cases p; simp)+

lemma ctx_ok_redirect:
  assumes "ctx_ok ctx" "valid_server r" "readable (sl_redirect (ctx_server_list ctx)) \<Longrightarrow> readable r"
  shows "ctx_ok (ctx\<lparr>ctx_server_list := (ctx_server_list ctx)\<lparr>sl_redirect := r\<rparr>\<rparr>)"
  using assms by (auto simp: ctx_ok_def servers_ok_def server_at_upd)

lemma ctx_ok_other [simp]:
  "ctx_ok (ctx\<lparr>ctx_extra_headers := h\<rparr>) = ctx_ok ctx" "ctx_ok (ctx\<lparr>ctx_connect_timer := t\<rparr>) = ctx_ok ctx"
  "ctx_ok (ctx\<lparr>ctx_header_info := i\<rparr>) = ctx_ok ctx"
  by (simp_all add: ctx_ok_def)

lemma ctx_ok_free_redirect: "ctx_ok ctx \<Longrightarrow> ctx_ok (free_redirect ctx)"
  unfolding free_redirect_def by (intro ctx_ok_redirect) simp_all

text \<open>A new search keeps what has been assigned, and succeeds exactly when the url of the configuration is valid.\<close>

lemma all_server_ptr: "(\<forall>p. P p) \<longleftrightarrow> P DEFAULTS \<and> P JWT \<and> P REDIRECT"
  by (metis server_ptr.exhaust)

text \<open>How a search ends: without a default server, without a server token, with the server of a token, or without one.\<close>

lemma find_servers_cases:
  assumes run: "find_servers api sl w = Inr (rtn, sl', w')"
    and p: "parse_server_url (webpa_url (get_parodus_cfg w)) (free_server (sl_defaults sl)) = (r, s)"
  obtains "r < 0" "rtn = FIND_INVALID_DEFAULT" "sl' = free_server_list sl\<lparr>sl_defaults := s\<rparr>"
  | i where "0 \<le> r" "rtn = FIND_JWT_FAIL"
      "sl' = free_server_list sl\<lparr>sl_defaults := s, sl_jwt := (sl_jwt (free_server_list sl))\<lparr>allow_insecure := Some i\<rparr>\<rparr>"
  | i a q where "0 \<le> r" "rtn = FIND_SUCCESS" "\<exists>url. parse_webpa_url url = Some (i, a, q)"
      "sl' = free_server_list sl\<lparr>sl_defaults := s,
         sl_jwt := \<lparr> allow_insecure = Some i, server_addr = Some a, sv_port = Some q \<rparr>\<rparr>"
  | "0 \<le> r" "rtn = FIND_SUCCESS" "sl' = free_server_list sl\<lparr>sl_defaults := s\<rparr>"
proof (cases "r < 0 \<or> \<not> (ca_dns_query api \<and> acquire_jwt (get_parodus_cfg w) \<noteq> 0)")
  case True
  have "sl_defaults (free_server_list sl) = free_server (sl_defaults sl)" by (simp add: free_server_list_def)
  with True run p that(1,4) show ?thesis by (auto simp: find_servers_def Let_def split: if_splits)
next
  case False
  let ?sl = "free_server_list sl\<lparr>sl_defaults := s\<rparr>"
  have d: "sl_defaults (free_server_list sl) = free_server (sl_defaults sl)" by (simp add: free_server_list_def)
  obtain E w1 where e: "ask (ca_token_env api) w = (E, w1)" by fastforce
  have "then_run (allow_insecure_conn E (get_parodus_cfg w)) (\<lambda>res. (case res of
         Inl err \<Rightarrow> Inr (FIND_JWT_FAIL, ?sl\<lparr>sl_jwt := (sl_jwt (free_server_list sl))\<lparr>allow_insecure := Some (token_err_code err)\<rparr>\<rparr>, w1)
       | Inr (insecure, addr, port) \<Rightarrow>
           Inr (FIND_SUCCESS, ?sl\<lparr>sl_jwt := \<lparr> allow_insecure = Some insecure, server_addr = Some addr,
                                          sv_port = Some port \<rparr>\<rparr>, w1))) = Inr (rtn, sl', w')"
    using run p d False e by (simp add: find_servers_def Let_def)
  then obtain res where res: "allow_insecure_conn E (get_parodus_cfg w) = Inr res"
    "(case res of
         Inl err \<Rightarrow> Inr (FIND_JWT_FAIL, ?sl\<lparr>sl_jwt := (sl_jwt (free_server_list sl))\<lparr>allow_insecure := Some (token_err_code err)\<rparr>\<rparr>, w1)
       | Inr (insecure, addr, port) \<Rightarrow>
           Inr (FIND_SUCCESS, ?sl\<lparr>sl_jwt := \<lparr> allow_insecure = Some insecure, server_addr = Some addr,
                                          sv_port = Some port \<rparr>\<rparr>, w1)) = (Inr (rtn, sl', w') :: fault + _)"
    unfolding then_run_Inr_iff by blast
  show ?thesis
  proof (cases res)
    case (Inl err)
    with res(2) False that(2) [of "token_err_code err"] show ?thesis by auto
  next
    case (Inr server)
    obtain i a q where server: "server = (i, a, q)" by (cases server)
    with res Inr False that(3) [of i a q] allow_insecure_conn_parsed [of E "get_parodus_cfg w" server]
    show ?thesis by auto
  qed
qed

lemma find_servers_ok:
  "on_return (\<lambda>(rtn, sl', w'). servers_ok sl' \<and> (\<forall>p. readable (server_at sl p) \<longrightarrow> readable (server_at sl' p)) \<and>
     (rtn = FIND_INVALID_DEFAULT \<longleftrightarrow> parse_webpa_url (webpa_url (get_parodus_cfg w)) = None) \<and>
     (rtn \<noteq> FIND_INVALID_DEFAULT \<longrightarrow> readable (sl_defaults sl') \<and> server_addr (sl_defaults sl') \<noteq> None) \<and>
     server_addr (sl_redirect sl') = None) (find_servers api sl w)"
proof -
  obtain r s where p: "parse_server_url (webpa_url (get_parodus_cfg w)) (free_server (sl_defaults sl)) = (r, s)"
    by fastforce
  note q = parse_server_url_ok [OF p]
  have fresh: "readable (server_at (free_server_list sl) p) = readable (server_at sl p)" for p
    by (cases p) (simp_all add: free_server_list_def)
  have v: "valid_server (sl_jwt (free_server_list sl))" "valid_server (sl_redirect (free_server_list sl))"
    "server_addr (sl_redirect (free_server_list sl)) = None"
    by (simp_all add: free_server_list_def)
  have fresh': "\<forall>p. readable (server_at sl p) \<longrightarrow> readable (server_at (free_server_list sl\<lparr>sl_defaults := s\<rparr>) p)"
    using fresh q(2) by (auto simp: server_at_upd)
  have fail: "valid_server ((sl_jwt (free_server_list sl))\<lparr>allow_insecure := Some i\<rparr>)"
    "readable (sl_jwt (free_server_list sl)) \<Longrightarrow> readable ((sl_jwt (free_server_list sl))\<lparr>allow_insecure := Some i\<rparr>)" for i
    by (simp_all add: valid_server_def readable_def free_server_list_def free_server_def)
  have "servers_ok sl' \<and> (\<forall>p. readable (server_at sl p) \<longrightarrow> readable (server_at sl' p)) \<and>
     (rtn = FIND_INVALID_DEFAULT \<longleftrightarrow> r < 0) \<and>
     (rtn \<noteq> FIND_INVALID_DEFAULT \<longrightarrow> readable (sl_defaults sl') \<and> server_addr (sl_defaults sl') \<noteq> None) \<and>
     server_addr (sl_redirect sl') = None" if run: "find_servers api sl w = Inr (rtn, sl', w')" for rtn sl' w'
  proof (rule find_servers_cases [OF run p], goal_cases)
    case (2 i)
    with q v fresh' fail show ?case by (auto simp: servers_ok_def all_server_ptr)
  next
    case (3 i a pt)
    then have "(i = 0 \<or> i = 1) \<and> 1 \<le> unat pt \<and> unat pt \<le> 65535" using parse_webpa_url_bounds by blast
    with 3 q v fresh' show ?case
      by (auto simp: servers_ok_def server_at_upd valid_server_def readable_def)
  qed (use q v fresh' in \<open>simp_all add: servers_ok_def\<close>)
  moreover have "parse_webpa_url (webpa_url (get_parodus_cfg w)) = None \<longleftrightarrow> r < 0" using q(5) by linarith
  ultimately show ?thesis by (cases "find_servers api sl w") (simp_all split: prod.splits)
qed

text \<open>The context along an attempt, and the connection it leaves.\<close>

lemma ask_keeps: "ask f w = (a, w') \<Longrightarrow> w_conn w' = w_conn w"
  by (auto simp: ask_def split: prod.splits)

lemma act_keeps [simp]: "w_conn (act f w) = w_conn w"
  by (simp add: act_def)

lemma global_conn_simps [simp]:
  "get_global_conn (set_global_conn c w) = c" "get_global_conn (act f w) = get_global_conn w"
  by (simp_all add: get_global_conn_def set_global_conn_def on_conn_def)

lemma ask_global_conn: "ask f w = (a, w') \<Longrightarrow> get_global_conn w' = get_global_conn w"
  by (simp add: get_global_conn_def ask_keeps)

lemma dns_local_check_ctx: "dns_local_check api ctx host w = (ctx', w') \<Longrightarrow> ctx_ok ctx' = ctx_ok ctx"
  by (auto simp: dns_local_check_def Let_def split: prod.splits if_splits)

lemma nopoll_connect_ctx:
  "ctx_ok ctx \<Longrightarrow> on_return (\<lambda>(b, c, w'). ctx_ok c \<and> (b \<longleftrightarrow> get_global_conn w' \<noteq> None)) (nopoll_connect api ctx v6 w)"
  unfolding nopoll_connect_def Let_def
  by (auto split: prod.splits intro!: on_return_then dest!: dns_local_check_ctx)

lemma wait_ready_ctx:
  assumes "ctx_ok ctx"
  shows "on_return (\<lambda>(_, c, w'). ctx_ok c \<and> get_global_conn w' = get_global_conn w) (wait_connection_ready api ctx w)"
proof -
  let ?r = "sl_redirect (ctx_server_list ctx)"
  have p: "ctx_ok (ctx\<lparr>ctx_server_list := (ctx_server_list ctx)\<lparr>sl_redirect := s\<rparr>\<rparr>)"
    if "parse_server_url u (free_server ?r) = (q, s)" for u q s
    using parse_server_url_ok(1,2) [OF that] assms by (intro ctx_ok_redirect) simp_all
  show ?thesis
    unfolding wait_connection_ready_def Let_def using assms
    by (auto simp: on_conn_def get_global_conn_def split: prod.splits intro!: on_return_then ctx_ok_current dest!: ask_keeps p)
qed

lemma connect_try_ctx:
  assumes "ctx_ok ctx"
  shows "on_return (\<lambda>(r, c, w'). ctx_ok c \<and> (r = WAIT_SUCCESS \<longrightarrow> get_global_conn w' \<noteq> None)) (connect_try api ctx v6 w)"
  unfolding connect_try_def
proof (rule on_return_then, clarify)
  fix b c1 w1 assume "nopoll_connect api ctx v6 w = Inr (b, c1, w1)"
  then have n: "ctx_ok c1" "b \<longleftrightarrow> get_global_conn w1 \<noteq> None"
    using on_returnD [OF nopoll_connect_ctx [OF assms]] by fastforce+
  show "on_return (\<lambda>(r, c, w'). ctx_ok c \<and> (r = WAIT_SUCCESS \<longrightarrow> get_global_conn w' \<noteq> None))
      (if b then case ask (ca_conn_is_ok api (get_global_conn w1)) w1 of (ok, w) \<Rightarrow>
          then_run (if ok then wait_connection_ready api c1 w else Inr (WAIT_FAIL, c1, w)) (\<lambda>(wait_rtn, ctx, w).
            if wait_rtn = WAIT_SUCCESS then Inr (wait_rtn, ctx, w)
            else Inr (wait_rtn, ctx, set_global_conn None (close_and_unref_connection api (get_global_conn w) w)))
       else Inr (WAIT_FAIL, c1, w1))"
    using n by (auto split: prod.splits if_splits intro!: on_return_then dest!: ask_global_conn
        on_returnD [OF wait_ready_ctx [OF n(1)]])
qed

lemma connect_try_ctxD:
  "connect_try api ctx v6 w = Inr (r, c, w') \<Longrightarrow> ctx_ok ctx \<Longrightarrow> ctx_ok c \<and> (r = WAIT_SUCCESS \<longrightarrow> get_global_conn w' \<noteq> None)"
  using on_returnD [OF connect_try_ctx] by fast

lemma connect_loop_ctx:
  "ctx_ok ctx \<Longrightarrow> on_return (\<lambda>(r, c, w'). ctx_ok c \<and> (r = CONN_WAIT_SUCCESS \<longrightarrow> get_global_conn w' \<noteq> None))
     (connect_loop api fl ctx v6 w)"
proof -
  let ?Q = "\<lambda>(r, c, w'). ctx_ok c \<and> (r = CONN_WAIT_SUCCESS \<longrightarrow> get_global_conn w' \<noteq> None)"
  have v4: "ctx_ok ctx \<Longrightarrow> on_return ?Q (connect_loop api fl ctx False w)" for fl ctx w
    by (subst connect_loop.simps)
       (auto split: wait_rtn.splits intro!: on_return_then dest!: connect_try_ctxD)
  show "ctx_ok ctx \<Longrightarrow> on_return ?Q (connect_loop api fl ctx v6 w)"
    by (subst connect_loop.simps)
       (auto split: wait_rtn.splits simp del: not_None_eq intro!: on_return_then v4 dest!: connect_try_ctxD)
qed

subsection \<open>Invariants of the world\<close>

lemma on_return_pair: "(\<And>a w'. p = (a, w') \<Longrightarrow> on_return Q (k a w')) \<Longrightarrow> on_return Q (case p of (a, w') \<Rightarrow> k a w')"
  by (cases p) simp

locale world_invariant =
  fixes api :: "('c, 'e) conn_api" and I :: "('c, 'e) world \<Rightarrow> bool"
  assumes env: "I w \<Longrightarrow> env_step api (w_env w) e \<Longrightarrow> I (w\<lparr>w_env := e\<rparr>)"
    and conn: "I w \<Longrightarrow> cfg_kept (cs_cfg (w_conn w)) (cs_cfg s) \<Longrightarrow> I (w\<lparr>w_conn := s\<rparr>)"
    and other: "I w \<Longrightarrow> I (w\<lparr>w_encodedData := buf\<rparr>)" "I w \<Longrightarrow> I (w\<lparr>w_response_code := n\<rparr>)"
      "I w \<Longrightarrow> I (w\<lparr>w_init := b\<rparr>)"
begin

lemma inv_ask: "I w \<Longrightarrow> ask f w = (a, w') \<Longrightarrow> (\<And>e. env_step api e (snd (f e))) \<Longrightarrow> I w'"
  using env [of w "snd (f (w_env w))"] by (auto simp: ask_def split: prod.splits)

lemma inv_act: "I w \<Longrightarrow> (\<And>e. env_step api e (f e)) \<Longrightarrow> I (act f w)"
  using env [of w "f (w_env w)"] by (simp add: act_def)

lemma inv_asks:
  "ask (ca_shutdown api) w = (a0, w') \<Longrightarrow> I w \<Longrightarrow> I w'"
  "ask (ca_interface_down api) w = (a1, w') \<Longrightarrow> I w \<Longrightarrow> I w'"
  "ask (ca_clock api) w = (a2, w') \<Longrightarrow> I w \<Longrightarrow> I w'"
  "ask (ca_time api) w = (a3, w') \<Longrightarrow> I w \<Longrightarrow> I w'"
  "ask (ca_random api) w = (a4, w') \<Longrightarrow> I w \<Longrightarrow> I w'"
  "ask (ca_backoff_wait api) w = (a5, w') \<Longrightarrow> I w \<Longrightarrow> I w'"
  "ask (ca_open api file) w = (a7, w') \<Longrightarrow> I w \<Longrightarrow> I w'"
  "ask (ca_read_file api file) w = (a8, w') \<Longrightarrow> I w \<Longrightarrow> I w'"
  "ask (ca_getaddrinfo api host) w = (a9, w') \<Longrightarrow> I w \<Longrightarrow> I w'"
  "ask (ca_token_env api) w = (a10, w') \<Longrightarrow> I w \<Longrightarrow> I w'"
  "ask (ca_conn_new api req) w = (a11, w') \<Longrightarrow> I w \<Longrightarrow> I w'"
  "ask (ca_conn_is_ok api c) w = (a12, w') \<Longrightarrow> I w \<Longrightarrow> I w'"
  "ask (ca_wait_ready api c) w = (a13, w') \<Longrightarrow> I w \<Longrightarrow> I w'"
  by (rule inv_ask, assumption, assumption, rule env_steps)+

lemma inv_interface_wait: "ask_waiting (ca_interface_wait api) w = Some (rtn, w') \<Longrightarrow> I w \<Longrightarrow> I w'"
  by (auto simp: ask_waiting_def intro!: env step_interface_wait)

lemma inv_acts:
  "I w \<Longrightarrow> I (act (ca_set_shutdown api) w)" "I w \<Longrightarrow> I (act (ca_write api file txt) w)"
  "I w \<Longrightarrow> I (act (ca_sigterm api) w)" "I w \<Longrightarrow> ca_ping_status api = Some g \<Longrightarrow> I (act (g txt) w)"
  "I w \<Longrightarrow> I (act (ca_close_ext api c' n txt) w)"
  by (erule inv_act, rule env_steps, assumption?)+

lemma inv_on_conn: "I w \<Longrightarrow> cfg_kept (cs_cfg (w_conn w)) (cs_cfg (f (w_conn w))) \<Longrightarrow> I (on_conn f w)"
  by (simp add: on_conn_def conn)

lemma inv_set_global_conn: "I w \<Longrightarrow> I (set_global_conn c w)"
  by (simp add: set_global_conn_def inv_on_conn)

lemma inv_write: "I w \<Longrightarrow> I (write_conn_in_prog_file api b n w)"
  unfolding write_conn_in_prog_file_def
  by (auto split: option.splits prod.splits intro!: inv_acts dest!: inv_asks)

lemma inv_start: "I w \<Longrightarrow> I (start_conn_in_progress api n w)" and inv_stop: "I w \<Longrightarrow> I (stop_conn_in_progress api w)"
  by (simp_all add: start_conn_in_progress_def stop_conn_in_progress_def inv_write)

lemma inv_curl: "I w \<Longrightarrow> I (w\<lparr>w_env := snd (first_token (ca_curl api) rqs (w_env w))\<rparr>)"
proof (induction rqs arbitrary: w)
  case (Cons rq rqs)
  obtain answer e where a: "ca_curl api rq (w_env w) = (answer, e)" by fastforce
  then have "I (w\<lparr>w_env := e\<rparr>)" using env [OF Cons.prems step_curl [of api "w_env w" rq]] by simp
  with Cons.IH [of "w\<lparr>w_env := e\<rparr>"] a show ?case by (simp split: option.splits)
qed simp

lemma inv_fetch_token: "I w \<Longrightarrow> on_return I (fetch_token api w)"
proof -
  assume w: "I w"
  obtain rc t rqs where t: "getAuthToken (ca_curl api) (cs_reconnect_reason (w_conn w)) (ca_uuid api) (get_parodus_cfg w)
      (w_response_code w, w_env w) =
      Inr ((get_parodus_cfg w)\<lparr>webpa_auth_token := t\<rparr>, rc, snd (first_token (ca_curl api) rqs (w_env w)))"
    using getAuthToken_steps [of "ca_curl api" "cs_reconnect_reason (w_conn w)" "ca_uuid api" "get_parodus_cfg w"
        "w_response_code w" "w_env w"] by blast
  have "I (on_conn (\<lambda>s. s\<lparr>cs_cfg := (get_parodus_cfg w)\<lparr>webpa_auth_token := t\<rparr>\<rparr>)
      (w\<lparr>w_env := snd (first_token (ca_curl api) rqs (w_env w)), w_response_code := rc\<rparr>))"
    by (rule inv_on_conn [OF other(2) [OF inv_curl [OF w]]]) (simp add: get_parodus_cfg_def)
  with t show ?thesis by (cases w) (simp add: fetch_token_def on_conn_def)
qed

lemma inv_take_backoff: "I w \<Longrightarrow> on_return (\<lambda>(_, _, w'). I w') (take_backoff api timer w)"
  unfolding take_backoff_def Let_def
  by (auto split: prod.splits intro!: on_return_then inv_start dest!: inv_asks)

lemma inv_convey: "I w \<Longrightarrow> on_return (\<lambda>(_, w'). I w') (convey_header api w)"
  unfolding convey_header_def by (auto split: prod.splits intro!: on_return_then other)

lemma inv_init_header_info: "I w \<Longrightarrow> on_return (\<lambda>(_, _, w'). I w') (init_header_info api w)"
  unfolding init_header_info_def Let_def
  by (auto split: prod.splits intro!: on_return_then dest: on_returnD [OF inv_convey])

lemma inv_set_extra_headers: "I w \<Longrightarrow> on_return (\<lambda>(_, w'). I w') (set_extra_headers api ctx w)"
  unfolding set_extra_headers_def Let_def
  by (intro on_return_then) (auto split: if_splits dest: on_returnD [OF inv_fetch_token])

lemma inv_find_servers: "I w \<Longrightarrow> on_return (\<lambda>(_, _, w'). I w') (find_servers api sl w)"
  unfolding find_servers_def Let_def
  by (auto split: prod.splits sum.splits intro!: on_return_then dest!: inv_asks)

lemma inv_close: "I w \<Longrightarrow> I (close_and_unref_connection api c w)"
  unfolding close_and_unref_connection_def close_conn_def
  by (auto split: option.splits prod.splits intro!: inv_on_conn inv_acts dest!: inv_asks)

lemma inv_checkHostIp: "checkHostIp api host w = (status, w') \<Longrightarrow> I w \<Longrightarrow> I w'"
  unfolding checkHostIp_def by (auto split: prod.splits dest!: inv_asks)

lemma inv_dns_local_check: "dns_local_check api ctx host w = (ctx', w') \<Longrightarrow> I w \<Longrightarrow> I w'"
  unfolding dns_local_check_def Let_def
  by (auto split: prod.splits if_splits simp: set_global_reconnect_reason_def set_global_reconnect_status_def
      intro!: inv_on_conn inv_acts dest!: inv_asks inv_checkHostIp)

lemma inv_nopoll_connect: "I w \<Longrightarrow> on_return (\<lambda>(_, _, w'). I w') (nopoll_connect api ctx v6 w)"
  unfolding nopoll_connect_def Let_def
  by (auto split: prod.splits intro!: on_return_then inv_set_global_conn dest!: inv_asks inv_dns_local_check)

lemma inv_wait_ready: "I w \<Longrightarrow> on_return (\<lambda>(_, _, w'). I w') (wait_connection_ready api ctx w)"
  unfolding wait_connection_ready_def Let_def
  by (auto split: prod.splits intro!: on_return_then inv_on_conn dest!: inv_asks)

lemma inv_runs:
  "take_backoff api timer w = Inr (a1, b1, w') \<Longrightarrow> I w \<Longrightarrow> I w'"
  "convey_header api w = Inr (a2, w') \<Longrightarrow> I w \<Longrightarrow> I w'"
  "init_header_info api w = Inr (a3, b3, w') \<Longrightarrow> I w \<Longrightarrow> I w'"
  "set_extra_headers api ctx w = Inr (a4, w') \<Longrightarrow> I w \<Longrightarrow> I w'"
  "find_servers api sl w = Inr (a5, b5, w') \<Longrightarrow> I w \<Longrightarrow> I w'"
  "nopoll_connect api ctx v6 w = Inr (a6, b6, w') \<Longrightarrow> I w \<Longrightarrow> I w'"
  "wait_connection_ready api ctx w = Inr (a7, b7, w') \<Longrightarrow> I w \<Longrightarrow> I w'"
  using on_returnD [OF inv_take_backoff] on_returnD [OF inv_convey] on_returnD [OF inv_init_header_info] on_returnD [OF inv_set_extra_headers] on_returnD [OF inv_find_servers] on_returnD [OF inv_nopoll_connect] on_returnD [OF inv_wait_ready]
  by fast+

lemma inv_connect_try: "I w \<Longrightarrow> on_return (\<lambda>(_, _, w'). I w') (connect_try api ctx v6 w)"
  unfolding connect_try_def
  by (auto split: prod.splits if_splits intro!: on_return_then inv_set_global_conn inv_close
      dest!: inv_asks inv_runs)

lemma inv_connect_tryD: "connect_try api ctx v6 w = Inr (a, b, w') \<Longrightarrow> I w \<Longrightarrow> I w'"
  using on_returnD [OF inv_connect_try] by fast

lemma inv_connect_loop: "I w \<Longrightarrow> on_return (\<lambda>(_, _, w'). I w') (connect_loop api fl ctx v6 w)"
proof -
  have v4: "I w \<Longrightarrow> on_return (\<lambda>(_, _, w'). I w') (connect_loop api fl ctx False w)" for fl ctx w
    by (subst connect_loop.simps) (auto split: wait_rtn.splits intro!: on_return_then dest!: inv_connect_tryD)
  show "I w \<Longrightarrow> on_return (\<lambda>(_, _, w'). I w') (connect_loop api fl ctx v6 w)"
    by (subst connect_loop.simps) (auto split: wait_rtn.splits intro!: on_return_then v4 dest!: inv_connect_tryD)
qed

lemma inv_connect_and_wait: "I w \<Longrightarrow> on_return (\<lambda>(_, _, w'). I w') (connect_and_wait api ctx w)"
  by (simp add: connect_and_wait_def Let_def inv_connect_loop)

lemma inv_interface_wait_loop:
  assumes "interface_wait_loop api w = Some r" "I w"
  shows "I (snd r)"
proof -
  have "api = api \<longrightarrow> I w \<longrightarrow> I (snd r)"
    by (rule interface_wait_loop.raw_induct [of "\<lambda>a w r. a = api \<longrightarrow> I w \<longrightarrow> I (snd r)", OF _ assms(1)])
       (auto split: prod.splits if_splits bind_splits dest!: inv_asks inv_interface_wait)
  with assms(2) show ?thesis by simp
qed

lemma inv_wait_while_interface_down: "wait_while_interface_down api w = Some r \<Longrightarrow> I w \<Longrightarrow> I (snd r)"
  unfolding wait_while_interface_down_def by (erule inv_interface_wait_loop) (intro inv_set_global_conn inv_close)
end

end
