(* ===== verification/Connection_Loops.thy ===== *)
theory Connection_Loops
  imports Connection_Inv
begin

text \<open>
  The loops of \<^verbatim>\<open>connection.c\<close> and \<open>createNopollConnection\<close>: a rule for each loop, what holds when they end
  (in the locale \<open>world_invariant\<close>, interpreted on what is reached from a world), and that they end once a
  shutdown is requested, unless the wait for the interface is never woken (\<open>wait_blocks\<close>).
\<close>

subsection \<open>When the loops end\<close>

text \<open>What holds of the result of a loop, when it ends without a fault.\<close>

definition ends :: "('a \<Rightarrow> bool) \<Rightarrow> (fault + 'a) option \<Rightarrow> bool" where
  "ends Q r \<longleftrightarrow> (case r of None \<Rightarrow> True | Some x \<Rightarrow> on_return Q x)"

lemma ends_simps [simp]: "ends Q None" "ends Q (Some x) = on_return Q x"
  by (simp_all add: ends_def)

lemma ends_bind: "(\<And>x. m = Some (Inr x) \<Longrightarrow> ends Q (k x)) \<Longrightarrow> ends Q (run_bind m k)"
  by (cases m) (auto split: sum.splits)

lemma ends_case: "(\<And>x. r = Inr x \<Longrightarrow> ends Q (k x)) \<Longrightarrow> ends Q (case r of Inl f \<Rightarrow> Some (Inl f) | Inr x \<Rightarrow> k x)"
  by (cases r) simp_all

text \<open>
  The bodies of the two loops, with the call of the loop itself as a parameter, and one rule for each: what a
  body keeps, whatever the further rounds do, holds of the loop.
\<close>

definition keep_trying_body ::
  "('c, 'e) conn_api \<Rightarrow>
   (create_connection_ctx_t \<Rightarrow> backoff_timer_t \<Rightarrow> ('c, 'e) world \<Rightarrow>
      (fault + bool \<times> create_connection_ctx_t \<times> backoff_timer_t \<times> ('c, 'e) world) option) \<Rightarrow>
   create_connection_ctx_t \<Rightarrow> backoff_timer_t \<Rightarrow> ('c, 'e) world \<Rightarrow>
     (fault + bool \<times> create_connection_ctx_t \<times> backoff_timer_t \<times> ('c, 'e) world) option" where
  "keep_trying_body api rec ctx timer w =
     (case ask (ca_shutdown api) w of (stop, w) \<Rightarrow>
      if stop then Some (Inr (False, ctx, timer, w))
      else run_bind (Some (set_extra_headers api ctx w)) (\<lambda>(ctx, w).
           run_bind (Some (connect_and_wait api ctx w)) (\<lambda>(rtn, ctx, w).
             if rtn = CONN_WAIT_SUCCESS then Some (Inr (True, ctx, timer, w))
             else if rtn = CONN_WAIT_ACTION_RETRY then rec ctx timer w
             else run_bind (after_failure api ctx timer w) (\<lambda>(go_on, ctx, timer, w).
               if \<not> go_on then Some (Inr (False, ctx, timer, w))
               else if rtn = CONN_WAIT_FAIL then Some (Inr (False, ctx, timer, w))
               else rec ctx timer w))))"

lemma keep_trying_rule:
  assumes step: "\<And>rec ctx timer w. (\<And>ctx timer w. C ctx timer w \<Longrightarrow> R (rec ctx timer w)) \<Longrightarrow> C ctx timer w \<Longrightarrow>
      R (keep_trying_body api rec ctx timer w)"
    and "R None" "C ctx timer w"
  shows "R (keep_trying_to_connect api ctx timer w)"
proof (cases "keep_trying_to_connect api ctx timer w")
  case (Some r)
  have "api = api \<longrightarrow> C ctx timer w \<longrightarrow> R (Some r)"
  proof (rule keep_trying_to_connect.raw_induct [of "\<lambda>a ctx timer w r. a = api \<longrightarrow> C ctx timer w \<longrightarrow> R (Some r)", OF _ Some],
      intro impI)
    fix rec a ctx timer w r
    assume IH: "\<And>a ctx timer w r. rec a ctx timer w = Some r \<Longrightarrow> a = api \<longrightarrow> C ctx timer w \<longrightarrow> R (Some r)"
      and run: "(case ask (ca_shutdown a) w of (stop, w) \<Rightarrow>
        if stop then Some (Inr (False, ctx, timer, w))
        else run_bind (Some (set_extra_headers a ctx w)) (\<lambda>(ctx, w).
             run_bind (Some (connect_and_wait a ctx w)) (\<lambda>(rtn, ctx, w).
               if rtn = CONN_WAIT_SUCCESS then Some (Inr (True, ctx, timer, w))
               else if rtn = CONN_WAIT_ACTION_RETRY then rec a ctx timer w
               else run_bind (after_failure a ctx timer w) (\<lambda>(go_on, ctx, timer, w).
                 if \<not> go_on then Some (Inr (False, ctx, timer, w))
                 else if rtn = CONN_WAIT_FAIL then Some (Inr (False, ctx, timer, w))
                 else rec a ctx timer w)))) = Some r" "a = api" "C ctx timer w"
    have "R (rec api ctx timer w)" if "C ctx timer w" for ctx timer w
      using IH [of api ctx timer w] that assms(2) by (cases "rec api ctx timer w") auto
    from step [where rec = "rec api", OF this run(3)] show "R (Some r)"
      unfolding keep_trying_body_def using run(1) unfolding run(2) by simp
  qed
  with Some assms(3) show ?thesis by simp
qed (simp add: assms(2))

definition connection_body ::
  "('c, 'e) conn_api \<Rightarrow>
   (create_connection_ctx_t \<Rightarrow> backoff_timer_t \<Rightarrow> ('c, 'e) world \<Rightarrow>
      (fault + create_connection_ctx_t \<times> ('c, 'e) world) option) \<Rightarrow>
   create_connection_ctx_t \<Rightarrow> backoff_timer_t \<Rightarrow> ('c, 'e) world \<Rightarrow>
     (fault + create_connection_ctx_t \<times> ('c, 'e) world) option" where
  "connection_body api rec ctx timer w =
     (case ask (ca_shutdown api) w of (stop, w) \<Rightarrow>
      if stop then Some (Inr (ctx, w))
      else run_bind (keep_trying_to_connect api (set_current_server ctx) timer w) (\<lambda>(connected, ctx, timer, w).
        if connected then Some (Inr (free_redirect ctx, w))
        else run_bind (Some (find_jwt_again api (free_redirect ctx) w)) (\<lambda>(ctx, w). rec ctx timer w)))"

lemma connection_loop_rule:
  assumes step: "\<And>rec ctx timer w. (\<And>ctx timer w. C ctx timer w \<Longrightarrow> R (rec ctx timer w)) \<Longrightarrow> C ctx timer w \<Longrightarrow>
      R (connection_body api rec ctx timer w)"
    and "R None" "C ctx timer w"
  shows "R (connection_loop api ctx timer w)"
proof (cases "connection_loop api ctx timer w")
  case (Some r)
  have "api = api \<longrightarrow> C ctx timer w \<longrightarrow> R (Some r)"
  proof (rule connection_loop.raw_induct [of "\<lambda>a ctx timer w r. a = api \<longrightarrow> C ctx timer w \<longrightarrow> R (Some r)", OF _ Some],
      intro impI)
    fix rec a ctx timer w r
    assume IH: "\<And>a ctx timer w r. rec a ctx timer w = Some r \<Longrightarrow> a = api \<longrightarrow> C ctx timer w \<longrightarrow> R (Some r)"
      and run: "(case ask (ca_shutdown a) w of (stop, w) \<Rightarrow>
        if stop then Some (Inr (ctx, w))
        else run_bind (keep_trying_to_connect a (set_current_server ctx) timer w) (\<lambda>(connected, ctx, timer, w).
          if connected then Some (Inr (free_redirect ctx, w))
          else run_bind (Some (find_jwt_again a (free_redirect ctx) w)) (\<lambda>(ctx, w). rec a ctx timer w))) = Some r"
        "a = api" "C ctx timer w"
    have "R (rec api ctx timer w)" if "C ctx timer w" for ctx timer w
      using IH [of api ctx timer w] that assms(2) by (cases "rec api ctx timer w") auto
    from step [where rec = "rec api", OF this run(3)] show "R (Some r)"
      unfolding connection_body_def using run(1) unfolding run(2) by simp
  qed
  with Some assms(3) show ?thesis by simp
qed (simp add: assms(2))

lemma after_failure_ctx: "after_failure api ctx timer w = Some (Inr (b, ctx', r)) \<Longrightarrow> ctx_ok ctx' = ctx_ok ctx"
  unfolding after_failure_def
  by (auto simp: then_run_Inr_iff split: prod.splits if_splits option.splits bind_splits)

lemma set_extra_headers_ctx: "set_extra_headers api ctx w = Inr (ctx', w') \<Longrightarrow> ctx_ok ctx' = ctx_ok ctx"
  unfolding set_extra_headers_def Let_def then_run_Inr_iff by auto

lemma find_jwt_again_ctx: "ctx_ok ctx \<Longrightarrow> on_return (\<lambda>(c, _). ctx_ok c) (find_jwt_again api ctx w)"
  unfolding find_jwt_again_def
  by (auto simp: ctx_ok_def all_server_ptr intro!: on_return_then dest!: on_returnD [OF find_servers_ok])

text \<open>The state a successful return leaves.\<close>

definition connected_state :: "'c conn_state \<Rightarrow> bool" where
  "connected_state s \<longleftrightarrow> cloud_status (cs_cfg s) = Some CLOUD_STATUS_ONLINE \<and> \<not> get_close_retry (cs_flags s) \<and>
     get_heartBeatTimer (cs_flags s) = 0 \<and> cs_reconnect_reason s = ''webpa_process_starts'' \<and>
     \<not> cs_reconnect_status s \<and> cs_handlers s = cs_conn s"

lemma ask_snd_keeps [simp]: "w_conn (snd (ask f w)) = w_conn w"
  by (simp add: ask_def split: prod.splits)

lemma write_keeps [simp]: "w_conn (write_conn_in_prog_file api b n w) = w_conn w"
  by (auto simp: write_conn_in_prog_file_def split: option.splits prod.splits dest!: ask_keeps)

lemma connection_done_state:
  "on_return (\<lambda>w'. connected_state (w_conn w') \<and> get_global_conn w' = get_global_conn w) (connection_done api ctx w)"
  unfolding connection_done_def Let_def
  by (intro on_return_then)
     (auto simp: connected_state_def get_global_conn_def on_conn_def stop_conn_in_progress_def setMessageHandlers_def
       set_global_reconnect_reason_def set_global_reconnect_status_def reset_heartBeatTimer_def reset_close_retry_def
       get_close_retry_def get_heartBeatTimer_def split: option.splits)

lemma connection_setup_ctx:
  "servers_ok sl \<Longrightarrow> on_return (\<lambda>(start, sl', _). servers_ok sl' \<and>
     (\<forall>ctx timer. start = Some (ctx, timer) \<longrightarrow> ctx_ok ctx \<and> ctx_server_list ctx = sl')) (connection_setup api sl w)"
  unfolding connection_setup_def Let_def
  by (auto simp: ctx_ok_def servers_ok_def server_is_null_def split: prod.splits if_splits intro!: on_return_then
      dest: valid_readable [OF _ option.discI] dest!: on_returnD [OF find_servers_ok])

lemma free_redirect_null [simp]: "server_addr (sl_redirect (ctx_server_list (free_redirect ctx))) = None"
  by (simp add: free_redirect_def)

context world_invariant begin

lemma inv_after_failure: "after_failure api ctx timer w = Some (Inr (b, ctx', timer', w')) \<Longrightarrow> I w \<Longrightarrow> I w'"
  unfolding after_failure_def
  by (auto simp: then_run_Inr_iff split: prod.splits if_splits option.splits bind_splits
      dest!: inv_asks inv_runs inv_wait_while_interface_down intro!: inv_start)

lemma inv_find_jwt_again: "find_jwt_again api ctx w = Inr (ctx', w') \<Longrightarrow> I w \<Longrightarrow> I w'"
  unfolding find_jwt_again_def
  by (auto simp: then_run_Inr_iff split: if_splits dest!: inv_runs intro!: inv_acts)

lemma inv_set_extra_headersD:
  "set_extra_headers api ctx w = Inr (ctx', w') \<Longrightarrow> I w \<Longrightarrow> ctx_ok ctx \<Longrightarrow> I w' \<and> ctx_ok ctx'"
  using inv_runs(4) set_extra_headers_ctx by blast

lemma inv_after_failureD:
  "after_failure api ctx timer w = Some (Inr (b, ctx', timer', w')) \<Longrightarrow> I w \<Longrightarrow> ctx_ok ctx \<Longrightarrow> I w' \<and> ctx_ok ctx'"
  using inv_after_failure after_failure_ctx by blast

lemma inv_find_jwt_againD:
  "find_jwt_again api ctx w = Inr (ctx', w') \<Longrightarrow> I w \<Longrightarrow> ctx_ok ctx \<Longrightarrow> I w' \<and> ctx_ok ctx'"
  using inv_find_jwt_again on_returnD [OF find_jwt_again_ctx] by fast

lemma inv_connect_and_waitD:
  "connect_and_wait api ctx w = Inr (rtn, ctx', w') \<Longrightarrow> I w \<Longrightarrow> ctx_ok ctx \<Longrightarrow>
     I w' \<and> ctx_ok ctx' \<and> (rtn = CONN_WAIT_SUCCESS \<longrightarrow> get_global_conn w' \<noteq> None)"
  using on_returnD [OF inv_connect_and_wait [of w ctx]] on_returnD [OF connect_loop_ctx [of ctx api _ _ w]]
  unfolding connect_and_wait_def Let_def by fastforce

lemma keep_trying_end:
  assumes "I w" "ctx_ok ctx"
  shows "ends (\<lambda>(b, ctx', _, w'). I w' \<and> ctx_ok ctx' \<and> (b \<longrightarrow> get_global_conn w' \<noteq> None))
    (keep_trying_to_connect api ctx timer w)"
proof -
  define Q where "Q = (\<lambda>(b, ctx', _ :: backoff_timer_t, w'). I w' \<and> ctx_ok ctx' \<and> (b \<longrightarrow> get_global_conn w' \<noteq> None))"
  have leaf: "Q (b, ctx', t, w')" if "I w'" "ctx_ok ctx'" "b \<Longrightarrow> get_global_conn w' \<noteq> None" for b ctx' t w'
    using that by (simp add: Q_def)
  have "ends Q (keep_trying_to_connect api ctx timer w)"
    by (rule keep_trying_rule [where C = "\<lambda>ctx timer w. I w \<and> ctx_ok ctx"])
       (auto simp: keep_trying_body_def assms split: prod.splits simp del: not_None_eq
         intro!: ends_bind ends_case leaf dest!: inv_asks inv_set_extra_headersD inv_after_failureD inv_connect_and_waitD)
  then show ?thesis by (simp add: Q_def)
qed

text \<open>At the end of the outer loop there is a connection, or its last step has read \<open>g_shutdown\<close> as true.\<close>

lemma connection_loop_end:
  assumes "I w" "ctx_ok ctx"
  shows "ends (\<lambda>(ctx', w'). I w' \<and> ctx_ok ctx' \<and>
      (get_global_conn w' \<noteq> None \<and> server_addr (sl_redirect (ctx_server_list ctx')) = None \<or>
       (\<exists>w1. I w1 \<and> ask (ca_shutdown api) w1 = (True, w'))))
    (connection_loop api ctx timer w)"
proof -
  have tries: "I w' \<and> ctx_ok ctx' \<and> (b \<longrightarrow> get_global_conn w' \<noteq> None)"
    if "keep_trying_to_connect api (set_current_server ctx) timer w = Some (Inr (b, ctx', timer', w'))"
      "I w" "ctx_ok ctx" for ctx timer w b ctx' timer' w'
    using keep_trying_end [OF that(2) ctx_ok_current [OF that(3)], of timer] that(1) by simp
  define Q where "Q = (\<lambda>(ctx', w'). I w' \<and> ctx_ok ctx' \<and>
      (get_global_conn w' \<noteq> None \<and> server_addr (sl_redirect (ctx_server_list ctx')) = None \<or>
       (\<exists>w1. I w1 \<and> ask (ca_shutdown api) w1 = (True, w'))))"
  have leaf: "Q (ctx', w')" if "I w'" "ctx_ok ctx'"
    "\<forall>w1. I w1 \<longrightarrow> ask (ca_shutdown api) w1 \<noteq> (True, w') \<Longrightarrow>
      get_global_conn w' \<noteq> None \<and> server_addr (sl_redirect (ctx_server_list ctx')) = None" for ctx' w'
    using that by (auto simp: Q_def)
  have "ends Q (connection_loop api ctx timer w)"
    by (rule connection_loop_rule [where C = "\<lambda>ctx timer w. I w \<and> ctx_ok ctx"])
       (auto simp: connection_body_def assms split: prod.splits simp del: not_None_eq
         intro!: ends_bind ends_case leaf ctx_ok_free_redirect dest: inv_asks(1) dest!: tries inv_find_jwt_againD)
  then show ?thesis by (simp add: Q_def)
qed

lemma inv_connection_setup: "I w \<Longrightarrow> on_return (\<lambda>(_, _, w'). I w') (connection_setup api sl w)"
  unfolding connection_setup_def Let_def
  by (auto split: prod.splits if_splits intro!: on_return_then inv_start dest!: inv_runs inv_asks)

lemma inv_snd_clock: "I w \<Longrightarrow> I (snd (ask (ca_clock api) w))"
  using inv_asks(3) [of w] by (cases "ask (ca_clock api) w") simp

lemma inv_connection_done: "I w \<Longrightarrow> on_return I (connection_done api ctx w)"
  unfolding connection_done_def Let_def
  by (auto split: option.splits prod.splits simp: set_global_reconnect_reason_def set_global_reconnect_status_def
      setMessageHandlers_def get_parodus_cfg_def intro!: on_return_then inv_stop inv_on_conn inv_acts other inv_snd_clock dest!: inv_asks)

end

text \<open>What is reached from a world, and the configuration it keeps.\<close>

definition later :: "('c, 'e) conn_api \<Rightarrow> ('c, 'e) world \<Rightarrow> ('c, 'e) world \<Rightarrow> bool" where
  "later api w0 w \<longleftrightarrow> (env_step api)\<^sup>*\<^sup>* (w_env w0) (w_env w) \<and> cfg_kept (get_parodus_cfg w0) (get_parodus_cfg w)"

interpretation later: world_invariant api "later api w0" for api w0
proof
  show "later api w0 (w\<lparr>w_env := e\<rparr>)" if "later api w0 w" "env_step api (w_env w) e" for w e
    using that by (auto simp: later_def get_parodus_cfg_def)
  show "later api w0 (w\<lparr>w_conn := s\<rparr>)" if "later api w0 w" "cfg_kept (cs_cfg (w_conn w)) (cs_cfg s)" for w s
    using that by (auto simp: later_def get_parodus_cfg_def intro: cfg_kept_trans)
qed (simp_all add: later_def get_parodus_cfg_def)

lemma later_refl [simp]: "later api w w"
  by (simp add: later_def)

text \<open>\<open>g_shutdown\<close> was read as true on the way from one world to another.\<close>

definition shutdown_between :: "('c, 'e) conn_api \<Rightarrow> ('c, 'e) world \<Rightarrow> ('c, 'e) world \<Rightarrow> bool" where
  "shutdown_between api w w' \<longleftrightarrow> (\<exists>e. (env_step api)\<^sup>*\<^sup>* (w_env w) e \<and> fst (ca_shutdown api e) \<and>
     (env_step api)\<^sup>*\<^sup>* (snd (ca_shutdown api e)) (w_env w'))"

lemma create_end:
  assumes "servers_ok sl"
  shows "ends (\<lambda>(b, sl', w'). later api w w' \<and> servers_ok sl' \<and> (b \<longrightarrow> connected_state (w_conn w') \<and>
      (get_global_conn w' \<noteq> None \<and> server_addr (sl_redirect sl') = None \<or> shutdown_between api w w')))
    (createNopollConnection api has_ctx sl w)"
proof -
  let ?Q = "\<lambda>(b, sl', w'). later api w w' \<and> servers_ok sl' \<and> (b \<longrightarrow> connected_state (w_conn w') \<and>
      (get_global_conn w' \<noteq> None \<and> server_addr (sl_redirect sl') = None \<or> shutdown_between api w w'))"
  have begun: "later api w w' \<and> servers_ok sl' \<and> (\<forall>ctx timer. start = Some (ctx, timer) \<longrightarrow> ctx_ok ctx)"
    if "connection_setup api sl w = Inr (start, sl', w')" for start sl' w'
    using on_returnD [OF later.inv_connection_setup [OF later_refl] that] on_returnD [OF connection_setup_ctx [OF assms] that]
    by auto
  have loop: "later api w w' \<and> ctx_ok ctx' \<and>
      (get_global_conn w' \<noteq> None \<and> server_addr (sl_redirect (ctx_server_list ctx')) = None \<or>
       (\<exists>w1. later api w w1 \<and> ask (ca_shutdown api) w1 = (True, w')))"
    if "connection_loop api ctx timer w2 = Some (Inr (ctx', w'))" "later api w w2" "ctx_ok ctx" for ctx timer w2 ctx' w'
    using later.connection_loop_end [OF that(2,3), of timer] that(1) by auto
  have fin: "later api w w2 \<and> connected_state (w_conn w2) \<and> get_global_conn w2 = get_global_conn w1 \<and>
      (\<forall>w0. ask (ca_shutdown api) w0 = (True, w1) \<and> later api w w0 \<longrightarrow> shutdown_between api w w2)"
    if "connection_done api ctx w1 = Inr w2" "later api w w1" for ctx w1 w2
  proof -
    have "later api w1 w2" using on_returnD [OF later.inv_connection_done [OF later_refl] that(1)] .
    then have "shutdown_between api w w2" if "ask (ca_shutdown api) w0 = (True, w1)" "later api w w0" for w0
      using that by (auto simp: shutdown_between_def later_def ask_def split: prod.splits)
    then show ?thesis
      using on_returnD [OF later.inv_connection_done [OF that(2)] that(1)] on_returnD [OF connection_done_state that(1)] by auto
  qed
  have "ends ?Q (createNopollConnection api True sl w)"
    unfolding createNopollConnection_def
    by (auto split: option.splits simp del: not_None_eq simp: ctx_ok_def
        intro!: ends_bind ends_case on_return_then dest!: begun loop fin)
  moreover have "ends ?Q (createNopollConnection api False sl w)"
    using assms by (simp add: createNopollConnection_def)
  ultimately show ?thesis by (cases has_ctx) simp_all
qed

subsection \<open>The loops end once a shutdown is requested\<close>

text \<open>
  A shutdown is requested when \<open>g_shutdown\<close> can be read as false only so many more times, whatever else
  happens: \<open>m\<close> bounds the number of such reads.
\<close>

definition shutdown_within :: "('c, 'e) conn_api \<Rightarrow> ('e \<Rightarrow> nat) \<Rightarrow> bool" where
  "shutdown_within api m \<longleftrightarrow> (\<forall>e e'. env_step api e e' \<longrightarrow> m e' \<le> m e) \<and>
     (\<forall>e. \<not> fst (ca_shutdown api e) \<longrightarrow> m (snd (ca_shutdown api e)) < m e)"

text \<open>
  The wait for the interface blocks forever: a state outside can be reached in which the interface-down flag is
  read as true and the wait that follows is never woken.
\<close>

definition wait_blocks :: "('c, 'e) conn_api \<Rightarrow> 'e \<Rightarrow> bool" where
  "wait_blocks api e \<longleftrightarrow> (\<exists>e'. (env_step api)\<^sup>*\<^sup>* e e' \<and> fst (ca_interface_down api e') \<and>
     ca_interface_wait api (snd (ca_interface_down api e')) = None)"

lemma wait_blocks_later: "later api w w' \<Longrightarrow> wait_blocks api (w_env w') \<Longrightarrow> wait_blocks api (w_env w)"
  unfolding wait_blocks_def later_def by (meson rtranclp_trans)

lemma later_measure:
  assumes "shutdown_within api m" "later api w w'"
  shows "m (w_env w') \<le> m (w_env w)"
proof -
  have "(env_step api)\<^sup>*\<^sup>* (w_env w) (w_env w')" using assms(2) by (simp add: later_def)
  then show ?thesis
    using assms(1) by (induction rule: rtranclp_induct) (auto simp: shutdown_within_def intro: order_trans)
qed

lemma shutdown_read:
  assumes "shutdown_within api m" "ask (ca_shutdown api) w = (False, w')"
  shows "m (w_env w') < m (w_env w)"
  using assms by (auto simp: shutdown_within_def ask_def split: prod.splits) (metis fst_conv snd_conv)

lemma interface_wait_ends:
  assumes "shutdown_within api m" "\<not> wait_blocks api (w_env w)"
  shows "\<exists>r. interface_wait_loop api w = Some r"
  using assms(2)
proof (induction "m (w_env w)" arbitrary: w rule: less_induct)
  case less
  obtain down w1 where 1: "ask (ca_interface_down api) w = (down, w1)" by fastforce
  show ?case
  proof (cases down)
    case True
    have "ask_waiting (ca_interface_wait api) w1 \<noteq> None"
    proof
      assume "ask_waiting (ca_interface_wait api) w1 = None"
      with 1 True have "fst (ca_interface_down api (w_env w))"
        "ca_interface_wait api (snd (ca_interface_down api (w_env w))) = None"
        by (auto simp: ask_def ask_waiting_def split: prod.splits)
      then have "wait_blocks api (w_env w)" unfolding wait_blocks_def by blast
      with less.prems show False ..
    qed
    then obtain rtn w2 where 2: "ask_waiting (ca_interface_wait api) w1 = Some (rtn, w2)" by auto
    obtain stop w3 where 3: "ask (ca_shutdown api) w2 = (stop, w3)" by fastforce
    have l: "later api w w2" using later.inv_asks(2) [OF 1] later.inv_interface_wait [OF 2] later_refl by blast
    have "m (w_env w2) \<le> m (w_env w)" by (rule later_measure [OF assms(1) l])
    moreover have "m (w_env w3) < m (w_env w2)" if "\<not> stop" using shutdown_read [OF assms(1), of w2 w3] 3 that by simp
    moreover have "\<not> wait_blocks api (w_env w3)"
      using less.prems wait_blocks_later [OF later.inv_asks(1) [OF 3 l]] by blast
    ultimately have "\<exists>r. interface_wait_loop api w3 = Some r" if "\<not> stop" using less.hyps that by fastforce
    then show ?thesis by (subst interface_wait_loop.simps) (auto simp: 1 2 3)
  qed (subst interface_wait_loop.simps, simp add: 1 del: split_paired_Ex)
qed

lemma after_failure_ends:
  assumes "shutdown_within api m" "\<not> wait_blocks api (w_env w)"
  shows "\<exists>r. after_failure api ctx timer w = Some r"
proof -
  obtain down w1 where 1: "ask (ca_interface_down api) w = (down, w1)" by fastforce
  have "later api w (set_global_conn None (close_and_unref_connection api (get_global_conn w1) w1))"
    by (intro later.inv_set_global_conn later.inv_close later.inv_asks(2) [OF 1] later_refl)
  then obtain r where "wait_while_interface_down api w1 = Some r"
    using interface_wait_ends [OF assms(1)] assms(2) wait_blocks_later unfolding wait_while_interface_down_def by blast
  then show ?thesis by (cases r) (auto simp: after_failure_def 1)
qed

lemma keep_trying_ends:
  assumes "shutdown_within api m" "\<not> wait_blocks api (w_env w)"
  shows "\<exists>r. keep_trying_to_connect api ctx timer w = Some r"
  using assms(2)
proof (induction "m (w_env w)" arbitrary: ctx timer w rule: less_induct)
  case less
  obtain stop w1 where 1: "ask (ca_shutdown api) w = (stop, w1)" by fastforce
  show ?case
  proof (cases stop)
    case False
    then have m: "m (w_env w1) < m (w_env w)" using shutdown_read [OF assms(1), of w w1] 1 by simp
    have nb: "\<not> wait_blocks api (w_env w1)"
      using less.prems wait_blocks_later [OF later.inv_asks(1) [OF 1 later_refl]] by blast
    have rec: "\<exists>r. keep_trying_to_connect api ctx timer w' = Some r" if "later api w1 w'" for ctx timer w'
      using less.hyps [of w' ctx timer] later_measure [OF assms(1) that] m nb wait_blocks_later [OF that] by auto
    have l2: "later api w1 w2" if "set_extra_headers api ctx w1 = Inr (c, w2)" for c w2
      using later.inv_runs(4) [OF that] by simp
    have l3: "later api w1 w3" if "connect_and_wait api c w2 = Inr (rtn, c', w3)" "later api w1 w2" for c w2 rtn c' w3
      using on_returnD [OF later.inv_connect_and_wait [OF that(2)] that(1)] by simp
    have l4: "later api w1 w4" if "after_failure api c t w3 = Some (Inr (b, c', t', w4))" "later api w1 w3"
      for c t w3 b c' t' w4
      using later.inv_after_failure [OF that] .
    have some: "False" if "after_failure api c t w' = None" "later api w1 w'" for c t w'
      using after_failure_ends [OF assms(1), of w' c t] that nb wait_blocks_later [OF that(2)] by auto
    show ?thesis
      using False
      by (subst keep_trying_to_connect.simps)
         (auto simp: 1 split: sum.splits bind_splits prod.splits intro!: rec dest: l2 l3 l4 some)
  qed (subst keep_trying_to_connect.simps, simp add: 1)
qed

lemma connection_loop_ends:
  assumes "shutdown_within api m" "ctx_ok ctx" "\<not> wait_blocks api (w_env w)"
  shows "\<exists>r. connection_loop api ctx timer w = Some r"
  using assms(2,3)
proof (induction "m (w_env w)" arbitrary: ctx timer w rule: less_induct)
  case less
  obtain stop w1 where 1: "ask (ca_shutdown api) w = (stop, w1)" by fastforce
  have nb: "\<not> wait_blocks api (w_env w1)"
    using less.prems(2) wait_blocks_later [OF later.inv_asks(1) [OF 1 later_refl]] by blast
  obtain k where k: "keep_trying_to_connect api (set_current_server ctx) timer w1 = Some k"
    using keep_trying_ends [OF assms(1) nb] by blast
  show ?case
  proof (cases stop)
    case False
    then have m: "m (w_env w1) < m (w_env w)" using shutdown_read [OF assms(1), of w w1] 1 by simp
    have rec: "\<exists>r. connection_loop api ctx timer w' = Some r" if "later api w1 w' \<and> ctx_ok ctx" for ctx timer w'
      using less.hyps [of w' ctx timer] later_measure [OF assms(1)] that m nb wait_blocks_later by (meson le_less_trans)
    have l2: "later api w1 w2 \<and> ctx_ok (free_redirect c)" if "k = Inr (b, c, t, w2)" for b c t w2
      using later.keep_trying_end [OF later_refl [of _ w1] ctx_ok_current [OF less.prems(1)], where api = api and timer = timer] that k
      by (fastforce intro: ctx_ok_free_redirect)
    have l3: "later api w1 w3 \<and> ctx_ok c'" if "find_jwt_again api c w2 = Inr (c', w3)" "later api w1 w2 \<and> ctx_ok c"
      for c w2 c' w3
      using later.inv_find_jwt_againD [OF that(1)] that(2) by blast
    show ?thesis
      using False
      by (subst connection_loop.simps)
         (auto simp: 1 k split: sum.splits prod.splits intro!: rec dest: l2 l3)
  qed (subst connection_loop.simps, simp add: 1)
qed

lemma create_ends:
  assumes "shutdown_within api m" "servers_ok sl" "\<not> wait_blocks api (w_env w)"
  shows "\<exists>r. createNopollConnection api has_ctx sl w = Some r"
proof (cases "has_ctx \<and> runs (connection_setup api sl w)")
  case True
  then obtain start sl' w1 where s: "connection_setup api sl w = Inr (start, sl', w1)"
    by (cases "connection_setup api sl w") auto
  have nb: "\<not> wait_blocks api (w_env w1)"
    using on_returnD [OF later.inv_connection_setup [OF later_refl] s] assms(3) wait_blocks_later by fastforce
  show ?thesis
  proof (cases start)
    case (Some ct)
    then have "ctx_ok (fst ct)" using on_returnD [OF connection_setup_ctx [OF assms(2)] s] by (cases ct) auto
    from connection_loop_ends [OF assms(1) this nb, of "snd ct"] s Some True show ?thesis
      by (auto simp: createNopollConnection_def split: prod.splits sum.splits)
  qed (use s True in \<open>simp add: createNopollConnection_def\<close>)
next
  case False
  then show ?thesis by (cases "connection_setup api sl w") (auto simp: createNopollConnection_def)
qed

end
