(* ===== verification/Connection_Props.thy ===== *)
theory Connection_Props
  imports Connection_Loops
begin

text \<open>
  When connecting runs without faults (\<open>connecting_runs\<close>), the properties of \<open>createNopollConnection\<close>, and runs
  that go wrong.
\<close>

subsection \<open>No faults\<close>

text \<open>
  The conditions: an object is printed, a header can be encoded, a redirect has a url, and the search for the
  server token does not fault, which it does when a claim is not a text. The retry limit is at most 31. The
  libraries do not document all of this; the runs at the end of the theory break the conditions one by one.
\<close>

definition api_total :: "('c, 'e) conn_api \<Rightarrow> ParodusCfg \<Rightarrow> bool" where
  "api_total api cfg \<longleftrightarrow>
     (\<forall>j. cJSON_PrintUnformatted (ca_json api) (Some j) \<noteq> None) \<and>
     (\<forall>s buf. \<exists>enc. ca_base64 api s buf = (True, enc) \<and> NUL \<in> set enc \<and> filter (\<lambda>c. c \<noteq> newline) (cstr enc) \<noteq> []) \<and>
     (\<forall>c e st url e'. ca_wait_ready api c e = ((False, st, url), e') \<and> (st = 307 \<or> st = 302 \<or> st = 303) \<longrightarrow> url \<noteq> None) \<and>
     (\<forall>e c. cfg_kept cfg c \<longrightarrow> runs (allow_insecure_conn (fst (ca_token_env api e)) c)) \<and>
     sint (webpa_backoff_max cfg) \<le> 31"

lemma api_totalD:
  assumes "api_total api cfg"
  shows "\<exists>s. cJSON_PrintUnformatted (ca_json api) (Some j) = Some s"
    "\<exists>enc. ca_base64 api s buf = (True, enc) \<and> NUL \<in> set enc \<and> filter (\<lambda>c. c \<noteq> newline) (cstr enc) \<noteq> []"
    "ca_wait_ready api c e = ((False, st, url), e') \<Longrightarrow> st = 307 \<or> st = 302 \<or> st = 303 \<Longrightarrow> url \<noteq> None"
    "cfg_kept cfg c' \<Longrightarrow> runs (allow_insecure_conn (fst (ca_token_env api e)) c')"
    "sint (webpa_backoff_max cfg) \<le> 31"
  using assms unfolding api_total_def by blast+

definition header_ok :: "create_connection_ctx_t \<Rightarrow> bool" where
  "header_ok ctx \<longleftrightarrow> device_id (ctx_header_info ctx) \<noteq> None \<and> user_agent (ctx_header_info ctx) \<noteq> None"

definition timer_ok :: "backoff_timer_t \<Rightarrow> bool" where
  "timer_ok t \<longleftrightarrow> bt_ok t \<and> bt_max_count t \<le> 31"

text \<open>An execution that returns a value of which \<open>Q\<close> holds.\<close>

definition ok_run :: "('a \<Rightarrow> bool) \<Rightarrow> fault + 'a \<Rightarrow> bool" where
  "ok_run Q r \<longleftrightarrow> (\<exists>x. r = Inr x \<and> Q x)"

lemma ok_run_Inr [simp]: "ok_run Q (Inr x) = Q x"
  by (simp add: ok_run_def)

lemma ok_then: "ok_run P m \<Longrightarrow> (\<And>x. P x \<Longrightarrow> ok_run Q (k x)) \<Longrightarrow> ok_run Q (then_run m k)"
  by (auto simp: ok_run_def)

lemma ok_run_split: "runs r \<Longrightarrow> on_return Q r \<Longrightarrow> ok_run Q r"
  by (cases r) simp_all

lemma ok_run_runs: "ok_run Q r \<Longrightarrow> runs r"
  by (auto simp: ok_run_def)

lemma ok_run_weaken: "ok_run P r \<Longrightarrow> (\<And>x. P x \<Longrightarrow> Q x) \<Longrightarrow> ok_run Q r"
  by (auto simp: ok_run_def)

lemma backoff_delay_ok: "timer_ok t \<Longrightarrow> ok_run (\<lambda>(_, t', _). timer_ok t') (backoff_delay E t)"
proof -
  assume t: "timer_ok t"
  have calc: "ok_run (\<lambda>(t', _). timer_ok t') (calc_random_expiration r1 r2 (t\<lparr>bt_ts := s\<rparr>) ts)" for r1 r2 s ts
  proof -
    have "bt_ok (t\<lparr>bt_ts := s\<rparr>)" "bt_max_count (t\<lparr>bt_ts := s\<rparr>) \<le> 31" using t by (simp_all add: timer_ok_def bt_ok_def)
    from update_backoff_delay_ok [OF this] this(2) show ?thesis
      by (simp add: calc_random_expiration_def Let_def timer_ok_def)
  qed
  have "t = t\<lparr>bt_ts := bt_ts t\<rparr>" by simp
  with calc [of "be_random1 E" "be_random2 E" "bt_ts t" "be_now E"]
  have "ok_run (\<lambda>(t', _). timer_ok t') (calc_random_expiration (be_random1 E) (be_random2 E) t (be_now E))" by simp
  with calc show ?thesis
    unfolding backoff_delay_def Let_def by (auto intro!: ok_then split: prod.splits)
qed

lemma take_backoff_ok: "timer_ok t \<Longrightarrow> ok_run (\<lambda>(_, t', _). timer_ok t') (take_backoff api t w)"
  unfolding take_backoff_def Let_def
  by (auto split: prod.splits intro!: ok_then [OF backoff_delay_ok])

lemma convey_header_ok: "api_total api cfg \<Longrightarrow> ok_run (\<lambda>(h, w'). h \<noteq> None) (convey_header api w)"
proof -
  assume total: "api_total api cfg"
  let ?j = "convey_object (ca_json api) (get_parodus_cfg w) (cs_reconnect_reason (w_conn w))"
  obtain s where s: "cJSON_PrintUnformatted (ca_json api) (Some ?j) = Some s"
    using api_totalD(1) [OF total] by blast
  obtain enc where enc: "ca_base64 api s (w_encodedData w) = (True, enc)" "NUL \<in> set enc"
    "filter (\<lambda>c. c \<noteq> newline) (cstr enc) \<noteq> []" using api_totalD(2) [OF total] by blast
  from strip_newlines_filter [OF enc(2)] enc(3) s enc(1) show ?thesis
    by (auto simp: convey_header_def getWebpaConveyHeader_def)
qed

lemma init_header_info_ok:
  "api_total api cfg \<Longrightarrow> ok_run (\<lambda>(_, hi, _). device_id hi \<noteq> None \<and> user_agent hi \<noteq> None) (init_header_info api w)"
  unfolding init_header_info_def Let_def by (intro ok_then [OF convey_header_ok]) auto

lemma set_extra_headers_ok: "header_ok ctx \<Longrightarrow> ok_run (\<lambda>(ctx', _). header_ok ctx' \<and>
    ctx_current_server ctx' = ctx_current_server ctx) (set_extra_headers api ctx w)"
proof -
  assume h: "header_ok ctx"
  then obtain d u where du: "device_id (ctx_header_info ctx) = Some d" "user_agent (ctx_header_info ctx) = Some u"
    by (auto simp: header_ok_def)
  have "ok_run (\<lambda>_. True) (fetch_token api w)"
    using getAuthToken_steps [of "ca_curl api" "cs_reconnect_reason (w_conn w)" "ca_uuid api" "get_parodus_cfg w"
        "w_response_code w" "w_env w"] by (auto simp: fetch_token_def)
  then have f: "ok_run (\<lambda>_. True) (if b then fetch_token api w else Inr w)" for b by simp
  show ?thesis
    unfolding set_extra_headers_def Let_def
    by (rule ok_then [OF f]) (use h du in \<open>simp add: build_extra_hdrs_def Let_def build_extra_headers_def header_ok_def\<close>)
qed

lemma find_servers_runs:
  "api_total api cfg \<Longrightarrow> cfg_kept cfg (get_parodus_cfg w) \<Longrightarrow> runs (find_servers api sl w)"
  unfolding find_servers_def Let_def
  by (auto simp: api_total_def ask_def split: prod.splits sum.splits intro!: runs_then) (metis fst_conv)+

text \<open>A context with which an attempt can be made.\<close>

definition good_ctx :: "create_connection_ctx_t \<Rightarrow> bool" where
  "good_ctx ctx \<longleftrightarrow> ctx_ok ctx \<and> header_ok ctx \<and> ctx_current_server ctx \<noteq> None"

lemma good_ctx_current:
  assumes "good_ctx ctx"
  obtains p a q where "ctx_current_server ctx = Some p" "allow_insecure (server_at (ctx_server_list ctx) p) = Some a"
    "sv_port (server_at (ctx_server_list ctx) p) = Some q"
  using assms by (auto simp: good_ctx_def ctx_ok_def readable_def)

lemma dns_local_check_good:
  "dns_local_check api ctx host w = (ctx', w') \<Longrightarrow> good_ctx ctx' = good_ctx ctx"
  by (auto simp: dns_local_check_def good_ctx_def header_ok_def Let_def split: prod.splits if_splits)

lemma nopoll_connect_good: "good_ctx ctx \<Longrightarrow> ok_run (\<lambda>(_, ctx', _). good_ctx ctx') (nopoll_connect api ctx v6 w)"
proof -
  assume g: "good_ctx ctx"
  then obtain p a q where "ctx_current_server ctx = Some p"
    "allow_insecure (server_at (ctx_server_list ctx) p) = Some a" "sv_port (server_at (ctx_server_list ctx) p) = Some q"
    by (rule good_ctx_current)
  with g show ?thesis
    unfolding nopoll_connect_def Let_def
    by (auto simp: assigned_def split: prod.splits dest!: dns_local_check_good)
qed

lemma header_ok_list [simp]: "header_ok (ctx\<lparr>ctx_server_list := sl\<rparr>) = header_ok ctx"
  by (simp add: header_ok_def)

lemma set_current_server_simps [simp]:
  "header_ok (set_current_server ctx) = header_ok ctx" "ctx_current_server (set_current_server ctx) = Some (get_current_server (ctx_server_list ctx))"
  by (simp_all add: set_current_server_def header_ok_def)

lemma wait_ready_good:
  assumes "api_total api cfg" "good_ctx ctx"
  shows "ok_run (\<lambda>(_, ctx', _). good_ctx ctx') (wait_connection_ready api ctx w)"
proof -
  obtain ready st url w1 where a: "ask (ca_wait_ready api (get_global_conn w)) w = ((ready, st, url), w1)"
    by (metis prod_cases4 surj_pair)
  have url: "url \<noteq> None" if "\<not> ready" "st = 307 \<or> st = 302 \<or> st = 303"
  proof -
    have "\<exists>e'. ca_wait_ready api (get_global_conn w) (w_env w) = ((ready, st, url), e')"
      using a by (cases "ca_wait_ready api (get_global_conn w) (w_env w)") (simp add: ask_def)
    with that(1) have "\<exists>e'. ca_wait_ready api (get_global_conn w) (w_env w) = ((False, st, url), e')" by simp
    then show ?thesis using api_totalD(3) [OF assms(1) _ that(2)] by blast
  qed
  then have "runs (wait_connection_ready api ctx w)"
    unfolding wait_connection_ready_def a prod.case Let_def
    by (auto split: prod.splits simp: deref_def intro!: runs_then)
  moreover have "on_return (\<lambda>(_, c, _). ctx_ok c) (wait_connection_ready api ctx w)"
    using wait_ready_ctx [where ctx = ctx and api = api and w = w] assms(2) by (cases "wait_connection_ready api ctx w") (auto simp: good_ctx_def)
  moreover have "on_return (\<lambda>(_, c, _). header_ok c \<and> ctx_current_server c \<noteq> None) (wait_connection_ready api ctx w)"
    unfolding wait_connection_ready_def a prod.case Let_def
    using assms(2) by (auto simp: good_ctx_def split: prod.splits intro!: on_return_then)
  ultimately show ?thesis
    by (intro ok_run_split) (auto simp: good_ctx_def on_return_def split: sum.splits prod.splits)
qed

lemma connect_try_good:
  assumes "api_total api cfg" "good_ctx ctx"
  shows "ok_run (\<lambda>(_, ctx', _). good_ctx ctx') (connect_try api ctx v6 w)"
  unfolding connect_try_def
  by (rule ok_then [OF nopoll_connect_good [OF assms(2)]])
     (auto split: prod.splits intro!: ok_then [OF wait_ready_good [OF assms(1)]])

lemma connect_loop_good:
  assumes "api_total api cfg" "good_ctx ctx"
  shows "ok_run (\<lambda>(_, ctx', _). good_ctx ctx') (connect_loop api fl ctx v6 w)"
proof -
  let ?Q = "\<lambda>(_, ctx', _). good_ctx ctx'"
  have step: "ok_run ?Q (connect_loop api fl ctx v6 w)"
    if "good_ctx ctx" "\<And>ctx w. v6 \<Longrightarrow> good_ctx ctx \<Longrightarrow> ok_run ?Q (connect_loop api fl ctx False w)" for ctx w v6
  proof (subst connect_loop.simps, rule ok_then [OF connect_try_good [OF assms(1) that(1)]], clarify)
    fix r c w' assume c: "good_ctx c"
    then obtain p a where p: "ctx_current_server c = Some p" "allow_insecure (server_at (ctx_server_list c) p) = Some a"
      by (rule good_ctx_current)
    show "ok_run ?Q (case r of WAIT_SUCCESS \<Rightarrow> Inr (CONN_WAIT_SUCCESS, c, w')
       | WAIT_ACTION_RETRY \<Rightarrow> Inr (CONN_WAIT_ACTION_RETRY, c, w')
       | WAIT_FAIL \<Rightarrow>
           if fl = 0 then
             then_run (deref (ctx_current_server c)) (\<lambda>ptr.
             then_run (assigned (allow_insecure (server_at (ctx_server_list c) ptr))) (\<lambda>insecure.
               if insecure = 0 \<and> v6 then connect_loop api fl c False w'
               else Inr (CONN_WAIT_FAIL, c, w')))
           else Inr (CONN_WAIT_FAIL, c, w'))"
      using c p that(2) [of c w'] by (cases r; cases "fl = 0") (simp_all add: assigned_def)
  qed
  show ?thesis by (rule step [OF assms(2)]) (rule step, simp_all)
qed

text \<open>The same for the result of a loop.\<close>

definition ends_ok :: "('a \<Rightarrow> bool) \<Rightarrow> (fault + 'a) option \<Rightarrow> bool" where
  "ends_ok Q r \<longleftrightarrow> (case r of None \<Rightarrow> True | Some x \<Rightarrow> ok_run Q x)"

lemma ends_ok_simps [simp]: "ends_ok Q None" "ends_ok Q (Some x) = ok_run Q x"
  by (simp_all add: ends_ok_def)

lemma ends_ok_bind: "ends_ok P m \<Longrightarrow> (\<And>x. P x \<Longrightarrow> ends_ok Q (k x)) \<Longrightarrow> ends_ok Q (run_bind m k)"
  by (cases m) (auto simp: ok_run_def)

lemma after_failure_good:
  assumes "api_total api cfg" "good_ctx ctx" "timer_ok timer"
  shows "ends_ok (\<lambda>(_, ctx', timer', _). good_ctx ctx' \<and> timer_ok timer') (after_failure api ctx timer w)"
proof -
  have g: "good_ctx (ctx\<lparr>ctx_header_info := (ctx_header_info ctx)\<lparr>conveyHeader := h\<rparr>\<rparr>)" for h
    using assms(2) by (simp add: good_ctx_def header_ok_def)
  show ?thesis
    unfolding after_failure_def using assms g
    by (auto split: prod.splits bind_splits option.splits simp: ends_ok_def
        intro!: ok_then [OF take_backoff_ok] ok_then [OF convey_header_ok [OF assms(1)]])
qed

lemma keep_trying_good:
  assumes "api_total api cfg" "good_ctx ctx" "timer_ok timer"
  shows "ends_ok (\<lambda>(_, ctx', timer', _). good_ctx ctx' \<and> timer_ok timer') (keep_trying_to_connect api ctx timer w)"
proof -
  define Q where "Q = (\<lambda>(_ :: bool, ctx', timer', _ :: ('a, 'b) world). good_ctx ctx' \<and> timer_ok timer')"
  have leaf: "Q (b, c, t, w')" if "good_ctx c" "timer_ok t" for b c t w' using that by (simp add: Q_def)
  have headers: "ends_ok (\<lambda>(c, _). good_ctx c) (Some (set_extra_headers api c w))" if "good_ctx c" for c w
  proof -
    have "on_return (\<lambda>(c', _). ctx_ok c') (set_extra_headers api c w)"
      using that set_extra_headers_ctx [of api c w]
      by (cases "set_extra_headers api c w") (auto simp: good_ctx_def)
    with set_extra_headers_ok [of c api w] that show ?thesis
      by (auto simp: ok_run_def good_ctx_def)
  qed
  have wait: "ends_ok (\<lambda>(_, c', _). good_ctx c') (Some (connect_and_wait api c w))" if "good_ctx c" for c w
    using connect_loop_good [OF assms(1) that] by (simp add: connect_and_wait_def Let_def)
  have after: "ends_ok (\<lambda>(_, c', t', _). good_ctx c' \<and> timer_ok t') (after_failure api c t w)"
    if "good_ctx c" "timer_ok t" for c t w
    using after_failure_good [OF assms(1) that] .
  have "ends_ok Q (keep_trying_to_connect api ctx timer w)"
  proof (rule keep_trying_rule [where C = "\<lambda>ctx timer w. good_ctx ctx \<and> timer_ok timer"])
    fix rec ctx timer and w :: "('a, 'b) world"
    assume rec: "\<And>ctx timer (w :: ('a, 'b) world). good_ctx ctx \<and> timer_ok timer \<Longrightarrow> ends_ok Q (rec ctx timer w)"
      and start: "good_ctx ctx \<and> timer_ok timer"
    obtain stop w1 where s: "ask (ca_shutdown api) w = (stop, w1)" by fastforce
    have body: "ends_ok Q (run_bind (Some (set_extra_headers api ctx w1)) (\<lambda>(ctx, w).
           run_bind (Some (connect_and_wait api ctx w)) (\<lambda>(rtn, ctx, w).
             if rtn = CONN_WAIT_SUCCESS then Some (Inr (True, ctx, timer, w))
             else if rtn = CONN_WAIT_ACTION_RETRY then rec ctx timer w
             else run_bind (after_failure api ctx timer w) (\<lambda>(go_on, ctx, timer, w).
               if \<not> go_on then Some (Inr (False, ctx, timer, w))
               else if rtn = CONN_WAIT_FAIL then Some (Inr (False, ctx, timer, w))
               else rec ctx timer w))))"
      by (rule ends_ok_bind [OF headers], use start in simp, clarify,
          rule ends_ok_bind [OF wait], assumption, clarify)
         (use start in \<open>auto intro!: leaf rec ends_ok_bind [OF after]\<close>)
    show "ends_ok Q (keep_trying_body api rec ctx timer w)"
    proof (cases stop)
      case True
      then show ?thesis using start by (simp add: keep_trying_body_def s leaf)
    next
      case False
      with body show ?thesis unfolding keep_trying_body_def s prod.case by (simp only: if_False)
    qed
  qed (simp_all add: assms)
  then show ?thesis by (simp add: Q_def)
qed

text \<open>The two parts of a turn of the loop.\<close>

lemma find_jwt_again_good:
  assumes "api_total api (get_parodus_cfg w0)" "good_ctx c" "later api w0 w"
  shows "ends_ok (\<lambda>(c', w'). later api w0 w' \<and> good_ctx c') (Some (find_jwt_again api (free_redirect c) w))"
proof -
  have c: "ctx_ok (free_redirect c)" using assms(2) by (simp add: good_ctx_def ctx_ok_free_redirect)
  have "cfg_kept (get_parodus_cfg w0) (get_parodus_cfg w)" using assms(3) by (simp add: later_def)
  from find_servers_runs [OF assms(1) this]
  have runs: "runs (find_jwt_again api (free_redirect c) w)" unfolding find_jwt_again_def by (auto intro!: runs_then)
  moreover have "on_return (\<lambda>(c', w'). later api w0 w' \<and> ctx_ok c') (find_jwt_again api (free_redirect c) w)"
    using later.inv_find_jwt_againD [OF _ assms(3) c] by (cases "find_jwt_again api (free_redirect c) w") auto
  moreover have "on_return (\<lambda>(c', _). header_ok c' \<and> ctx_current_server c' \<noteq> None) (find_jwt_again api (free_redirect c) w)"
    using assms(2) unfolding find_jwt_again_def
    by (auto simp: good_ctx_def free_redirect_def intro!: on_return_then)
  ultimately show ?thesis
    by (cases "find_jwt_again api (free_redirect c) w") (auto simp: good_ctx_def)
qed

lemma keep_trying_later:
  assumes "api_total api (get_parodus_cfg w0)" "ctx_ok c" "header_ok c" "timer_ok t" "later api w0 w"
  shows "ends_ok (\<lambda>(_, c', t', w'). good_ctx c' \<and> timer_ok t' \<and> later api w0 w')
    (keep_trying_to_connect api (set_current_server c) t w)"
proof -
  have g: "good_ctx (set_current_server c)" using assms ctx_ok_current by (simp add: good_ctx_def)
  from keep_trying_good [OF assms(1) g assms(4), of w]
    later.keep_trying_end [OF assms(5) ctx_ok_current [OF assms(2)], where timer = t]
  show ?thesis
    by (cases "keep_trying_to_connect api (set_current_server c) t w") (auto simp: ok_run_def)
qed

text \<open>The turn after \<open>g_shutdown\<close> was read as false, with the rest of the loop as \<open>rec\<close>.\<close>

lemma connection_turn_good:
  assumes "api_total api (get_parodus_cfg w0)" "ctx_ok c" "header_ok c" "timer_ok t" "later api w0 w"
    and leaf: "\<And>c w. ctx_ok c \<Longrightarrow> ctx_current_server c \<noteq> None \<Longrightarrow> Q (c, w)"
    and rec: "\<And>c t w. good_ctx c \<Longrightarrow> timer_ok t \<Longrightarrow> later api w0 w \<Longrightarrow> ends_ok Q (rec c t w)"
  shows "ends_ok Q (run_bind (keep_trying_to_connect api (set_current_server c) t w) (\<lambda>(connected, ctx, timer, w).
    if connected then Some (Inr (free_redirect ctx, w))
    else run_bind (Some (find_jwt_again api (free_redirect ctx) w)) (\<lambda>(ctx, w). rec ctx timer w)))"
proof (rule ends_ok_bind [OF keep_trying_later [OF assms(1-5)]])
  fix x assume "case x of (_ :: bool, c', t', w') \<Rightarrow> good_ctx c' \<and> timer_ok t' \<and> later api w0 w'"
  then obtain connected c2 t2 w2 where x: "x = (connected, c2, t2, w2)"
    and 2: "good_ctx c2" "timer_ok t2" "later api w0 w2" by (cases x) auto
  have "ends_ok Q (run_bind (Some (find_jwt_again api (free_redirect c2) w2)) (\<lambda>(ctx, w). rec ctx t2 w))"
    by (rule ends_ok_bind [OF find_jwt_again_good [OF assms(1) 2(1,3)]]) (auto simp: 2(2) intro!: rec)
  moreover have "Q (free_redirect c2, w2)"
    using 2(1) ctx_ok_free_redirect [of c2] by (auto simp: good_ctx_def free_redirect_def intro!: leaf)
  ultimately show "ends_ok Q (case x of (connected, ctx, timer, w) \<Rightarrow>
      if connected then Some (Inr (free_redirect ctx, w))
      else run_bind (Some (find_jwt_again api (free_redirect ctx) w)) (\<lambda>(ctx, w). rec ctx timer w))"
    unfolding x prod.case by (cases connected) (simp_all only: if_True if_False ends_ok_simps ok_run_Inr)
qed

lemma connection_loop_good:
  assumes "api_total api cfg" "later api w0 w" "cfg = get_parodus_cfg w0" "ctx_ok ctx" "header_ok ctx" "timer_ok timer"
    and "ctx_current_server ctx \<noteq> None \<or> \<not> fst (ca_shutdown api (w_env w))"
  shows "ends_ok (\<lambda>(ctx', _). ctx_ok ctx' \<and> ctx_current_server ctx' \<noteq> None) (connection_loop api ctx timer w)"
proof -
  define Q where "Q = (\<lambda>(ctx', _ :: ('a, 'b) world). ctx_ok ctx' \<and> ctx_current_server ctx' \<noteq> None)"
  define C where "C = (\<lambda>c t (w :: ('a, 'b) world). ctx_ok c \<and> header_ok c \<and> timer_ok t \<and> later api w0 w \<and>
      (ctx_current_server c \<noteq> None \<or> \<not> fst (ca_shutdown api (w_env w))))"
  have "ends_ok Q (connection_loop api ctx timer w)"
  proof (rule connection_loop_rule [where C = C])
    fix rec c t and w :: "('a, 'b) world"
    assume rec: "\<And>c t (w :: ('a, 'b) world). C c t w \<Longrightarrow> ends_ok Q (rec c t w)" and "C c t w"
    then have start: "ctx_ok c" "header_ok c" "timer_ok t" "later api w0 w"
      and cur: "ctx_current_server c \<noteq> None \<or> \<not> fst (ca_shutdown api (w_env w))" by (simp_all add: C_def)
    obtain stop w1 where s: "ask (ca_shutdown api) w = (stop, w1)" by fastforce
    have w1: "later api w0 w1" using later.inv_asks(1) [OF s] start(4) by blast
    show "ends_ok Q (connection_body api rec c t w)"
    proof (cases stop)
      case True
      then have "fst (ca_shutdown api (w_env w))" using s by (auto simp: ask_def split: prod.splits)
      with start cur True show ?thesis by (auto simp: connection_body_def s Q_def)
    next
      case False
      have "Q (c', w')" if "ctx_ok c'" "ctx_current_server c' \<noteq> None" for c' w' using that by (simp add: Q_def)
      moreover have "ends_ok Q (rec c' t' w')" if "good_ctx c'" "timer_ok t'" "later api w0 w'" for c' t' w'
        using that by (intro rec) (auto simp: C_def good_ctx_def)
      ultimately have "ends_ok Q (run_bind (keep_trying_to_connect api (set_current_server c) t w1)
          (\<lambda>(connected, ctx, timer, w). if connected then Some (Inr (free_redirect ctx, w))
             else run_bind (Some (find_jwt_again api (free_redirect ctx) w)) (\<lambda>(ctx, w). rec ctx timer w)))"
        by (rule connection_turn_good [OF assms(1) [unfolded assms(3)] start(1-3) w1])
      with False show ?thesis unfolding connection_body_def s prod.case by (simp only: if_False)
    qed
  qed (use assms in \<open>simp_all add: C_def\<close>)
  then show ?thesis by (simp add: Q_def)
qed

text \<open>Once a context is set up, its header is complete and its timer has the limit of the configuration.\<close>

lemma connection_setup_good:
  assumes "api_total api (get_parodus_cfg w)" "servers_ok sl"
  shows "ok_run (\<lambda>(start, sl', w'). later api w w' \<and>
     (\<forall>ctx timer. start = Some (ctx, timer) \<longrightarrow> ctx_ok ctx \<and> header_ok ctx \<and> timer_ok timer)) (connection_setup api sl w)"
proof -
  from init_header_info_ok [OF assms(1), of w] later.inv_init_header_info [OF later_refl [of api w]]
  obtain n hi w1 where h: "init_header_info api w = Inr (n, hi, w1)" "device_id hi \<noteq> None" "user_agent hi \<noteq> None"
    "later api w w1" by (auto simp: ok_run_def)
  have "runs (if server_is_null (sl_defaults sl) then find_servers api sl w1 else Inr (FIND_SUCCESS, sl, w1))"
    using find_servers_runs [OF assms(1)] h(4) by (simp add: later_def)
  then obtain rtn sl1 w2 where f:
    "(if server_is_null (sl_defaults sl) then find_servers api sl w1 else Inr (FIND_SUCCESS, sl, w1)) = Inr (rtn, sl1, w2)"
    by (cases "if server_is_null (sl_defaults sl) then find_servers api sl w1 else Inr (FIND_SUCCESS, sl, w1)") auto
  have "ok_run (\<lambda>(start, sl', w'). \<forall>ctx timer. start = Some (ctx, timer) \<longrightarrow> header_ok ctx \<and> timer_ok timer)
      (connection_setup api sl w)"
    unfolding connection_setup_def Let_def h(1) then_run_simps prod.case f
    using h(2,3) api_totalD(5) [OF assms(1)]
    by (auto split: prod.splits simp: header_ok_def timer_ok_def bt_ok_init) (simp add: init_backoff_timer_def)
  then obtain x where x: "connection_setup api sl w = Inr x" "case x of (start, sl', w') \<Rightarrow>
      \<forall>ctx timer. start = Some (ctx, timer) \<longrightarrow> header_ok ctx \<and> timer_ok timer" unfolding ok_run_def by blast
  obtain start sl' w' where x': "x = (start, sl', w')" by (rule prod_cases3)
  note r = x [unfolded x' prod.case]
  note post = on_returnD [OF later.inv_connection_setup [OF later_refl [of api w]] r(1)]
    on_returnD [OF connection_setup_ctx [OF assms(2)] r(1)]
  show ?thesis unfolding r(1) ok_run_Inr prod.case using post [unfolded prod.case] r(2) by blast
qed

lemma connection_setup_no_server:
  "on_return (\<lambda>(start, _). \<forall>ctx timer. start = Some (ctx, timer) \<longrightarrow> ctx_current_server ctx = None) (connection_setup api sl w)"
  unfolding connection_setup_def Let_def by (auto split: prod.splits intro!: on_return_then)

lemma connection_done_runs: "ctx_ok ctx \<Longrightarrow> ctx_current_server ctx \<noteq> None \<Longrightarrow> runs (connection_done api ctx w)"
  by (auto simp: connection_done_def ctx_ok_def readable_def assigned_def Let_def)

subsection \<open>Properties\<close>

text \<open>
  A server that accepts every connection. The state outside counts how often \<open>g_shutdown\<close> is still read as
  false.
\<close>

definition sample_api :: "(nat, nat) conn_api" where
  "sample_api = \<lparr> ca_shutdown = (\<lambda>e. (e = 0, e - 1)), ca_set_shutdown = (\<lambda>e. 0),
     ca_interface_down = (\<lambda>e. (False, e)), ca_clock = (\<lambda>e. (zero_timespec, e)), ca_time = (\<lambda>e. (0, e)),
     ca_random = (\<lambda>e. (0, e)), ca_backoff_wait = (\<lambda>e. (0, e)), ca_interface_wait = (\<lambda>e. Some (0, e)),
     ca_open = (\<lambda>f e. (True, e)), ca_write = (\<lambda>f s e. e), ca_read_file = (\<lambda>f e. (None, e)),
     ca_getaddrinfo = (\<lambda>h e. (None, e)), ca_sigterm = (\<lambda>e. 0), ca_ping_status = None,
     ca_token_env = (\<lambda>e. (sample_token_env\<lparr>te_dns := sample_dns\<lparr>res_ninit := - 1\<rparr>\<rparr>, e)), ca_dns_query = False,
     ca_curl = (\<lambda>rq e. (None, e)), ca_uuid = (\<lambda>n. None), ca_json = ref_cjson (\<lambda>s. None) (\<lambda>j. Some ''{}''),
     ca_base64 = (\<lambda>s buf. (True, ''e30='' @ [NUL])), ca_conn_new = (\<lambda>rq e. (Some 7, e)),
     ca_conn_is_ok = (\<lambda>c e. (True, e)), ca_wait_ready = (\<lambda>c e. ((True, 0, None), e)),
     ca_close_ext = (\<lambda>c n s e. e) \<rparr>"

definition null_server :: server_t where
  "null_server = \<lparr> allow_insecure = None, server_addr = None, sv_port = None \<rparr>"

definition null_servers :: server_list_t where
  "null_servers = \<lparr> sl_defaults = null_server, sl_jwt = null_server, sl_redirect = null_server \<rparr>"

definition sample_world :: "(nat, nat) world" where
  "sample_world = \<lparr> w_conn = \<lparr> cs_conn = None, cs_cfg = zero_cfg\<lparr>webpa_url := ''https://srv'', webpa_backoff_max := 5\<rparr>,
     cs_flags = \<lparr> heartBeatTimer = 7, paused = False, close_retry = True, interface_down_event = False \<rparr>,
     cs_shutdown_reason = None, cs_reconnect_reason = ''r'', cs_reconnect_status = True, cs_disconnect_time = 5,
     cs_handlers = None \<rparr>, w_encodedData = [], w_response_code = 0, w_init = True, w_env = 9 \<rparr>"

lemma null_servers_ok: "servers_ok null_servers"
  by (simp add: servers_ok_def null_servers_def null_server_def valid_server_def)

lemma sample_connects:
  "\<exists>sl' w'. createNopollConnection sample_api True null_servers sample_world = Some (Inr (True, sl', w')) \<and>
     server_addr (sl_defaults sl') = Some ''srv'' \<and> get_global_conn w' = Some 7"
proof -
  let ?r = "createNopollConnection sample_api True null_servers sample_world"
  have "(case ?r of Some (Inr (b, sl', w')) \<Rightarrow> b \<and> server_addr (sl_defaults sl') = Some ''srv'' \<and>
      cs_conn (w_conn w') = Some 7 | _ \<Rightarrow> False)"
    by code_simp
  then show ?thesis by (auto simp: get_global_conn_def split: option.splits sum.splits)
qed

text \<open>
  C29. The servers stay valid: after \<open>createNopollConnection\<close>, as before, every server of the list that has an
  address has a protocol and a port between 1 and 65535, and only the token and the cloud status of the
  configuration have changed.
\<close>

theorem servers_stay_valid:
  assumes "createNopollConnection api has_ctx sl w = Some (Inr (b, sl', w'))" "servers_ok sl"
  shows "servers_ok sl' \<and> cfg_kept (get_parodus_cfg w) (get_parodus_cfg w')"
  using create_end [OF assms(2), of api w has_ctx] assms(1) by (simp add: later_def)

theorem servers_stay_valid_witness:
  "\<exists>sl' w'. createNopollConnection sample_api True null_servers sample_world = Some (Inr (True, sl', w')) \<and>
     servers_ok sl' \<and> server_addr (sl_defaults sl') = Some ''srv''"
  using sample_connects servers_stay_valid [OF _ null_servers_ok] by blast

text \<open>
  C6. When \<open>createNopollConnection\<close> returns true, the cloud status is online, the close-retry flag, the heartbeat
  timer and the reconnect reason are reset and the message handlers are set for the connection; and there is a
  connection, with no redirect server left for the next one, unless \<open>g_shutdown\<close> was read as true between the call
  and the return.
\<close>

theorem connection_made:
  assumes "createNopollConnection api has_ctx sl w = Some (Inr (True, sl', w'))" "servers_ok sl"
  shows "connected_state (w_conn w') \<and>
    (get_global_conn w' \<noteq> None \<and> server_addr (sl_redirect sl') = None \<or>
     (\<exists>e. (env_step api)\<^sup>*\<^sup>* (w_env w) e \<and> fst (ca_shutdown api e) \<and>
        (env_step api)\<^sup>*\<^sup>* (snd (ca_shutdown api e)) (w_env w')))"
  using create_end [OF assms(2), of api w has_ctx] assms(1) by (simp add: shutdown_between_def)

theorem connection_made_witness:
  "\<exists>sl' w'. createNopollConnection sample_api True null_servers sample_world = Some (Inr (True, sl', w')) \<and>
     connected_state (w_conn w') \<and> cs_conn (w_conn w') = Some 7"
proof -
  from sample_connects obtain sl' w' where r:
    "createNopollConnection sample_api True null_servers sample_world = Some (Inr (True, sl', w'))"
    "get_global_conn w' = Some 7" by blast
  from connection_made [OF r(1) null_servers_ok] r show ?thesis by (auto simp: get_global_conn_def)
qed

text \<open>
  C12. Once a shutdown is requested, \<open>createNopollConnection\<close> returns, whatever the servers, the interface and the
  libraries do, with one exception: a state is reached in which the interface is down and the wait for it
  (\<^verbatim>\<open>pthread_cond_wait\<close>) is never woken.
\<close>

theorem connection_ends_on_shutdown:
  assumes "shutdown_within api m" "servers_ok sl"
  shows "(\<exists>r. createNopollConnection api has_ctx sl w = Some r) \<or>
    (\<exists>e. (env_step api)\<^sup>*\<^sup>* (w_env w) e \<and> fst (ca_interface_down api e) \<and>
       ca_interface_wait api (snd (ca_interface_down api e)) = None)"
  using create_ends [OF assms] unfolding wait_blocks_def by blast

theorem connection_ends_on_shutdown_witness:
  "shutdown_within (sample_api\<lparr>ca_conn_new := \<lambda>rq e. (None, e)\<rparr>) (\<lambda>e. e) \<and>
   (\<exists>r. createNopollConnection (sample_api\<lparr>ca_conn_new := \<lambda>rq e. (None, e)\<rparr>) True null_servers sample_world = Some r)"
proof -
  let ?api = "sample_api\<lparr>ca_conn_new := \<lambda>rq e. (None, e)\<rparr>"
  have "e' \<le> e" if "env_step ?api e e'" for e e' :: nat
    using that by (cases rule: env_step.cases) (simp_all add: sample_api_def)
  then have "shutdown_within ?api (\<lambda>e. e)" by (auto simp: shutdown_within_def sample_api_def)
  moreover have "ca_interface_wait ?api e \<noteq> None" for e by (simp add: sample_api_def)
  ultimately show ?thesis using connection_ends_on_shutdown [OF _ null_servers_ok, of ?api "\<lambda>e. e" True sample_world] by blast
qed

text \<open>
  When the convey header can be encoded, the search for the server token does not fault, every redirect comes with a
  url and the retry limit is at most 31 (\<open>api_total\<close>), connecting faults in one case only: a shutdown is requested
  before the first attempt, right after the setup.
\<close>

lemma connecting_runs:
  assumes "api_total api (get_parodus_cfg w)" "servers_ok sl" "createNopollConnection api has_ctx sl w = Some r"
  shows "runs r \<longleftrightarrow> \<not> (has_ctx \<and> (\<exists>ctx timer sl1 w1. connection_setup api sl w = Inr (Some (ctx, timer), sl1, w1) \<and>
    fst (ca_shutdown api (w_env w1))))"
proof -
  from connection_setup_good [OF assms(1,2)] obtain start sl1 w1 where
    s: "connection_setup api sl w = Inr (start, sl1, w1)" "later api w w1" and
    c: "\<And>ctx timer. start = Some (ctx, timer) \<Longrightarrow> ctx_ok ctx \<and> header_ok ctx \<and> timer_ok timer"
    by (auto simp: ok_run_def)
  show ?thesis
  proof (cases "has_ctx \<and> start \<noteq> None")
    case True
    then obtain ctx timer where ct: "start = Some (ctx, timer)" by auto
    show ?thesis
    proof (cases "fst (ca_shutdown api (w_env w1))")
      case False
      from connection_loop_good [OF assms(1) s(2) refl, of ctx timer] c [OF ct] True assms(3) False
      show ?thesis
        by (auto simp: createNopollConnection_def s ct ends_ok_def ok_run_def split: bind_splits option.splits
            simp: connection_done_runs intro!: runs_then)
    next
      case shut: True
      from on_returnD [OF connection_setup_no_server s(1)] ct have "ctx_current_server ctx = None" by simp
      then have "r = Inl NullDeref"
        using assms(3) True shut s(1) ct
        by (simp add: createNopollConnection_def connection_loop.simps [of api ctx] ask_def connection_done_def
            split: prod.splits)
      with True shut s(1) ct show ?thesis by auto
    qed
  next
    case False
    with assms(3) s show ?thesis by (cases has_ctx; cases start) (auto simp: createNopollConnection_def)
  qed
qed

lemma connecting_runs_sample:
  "\<exists>r. createNopollConnection sample_api True null_servers sample_world = Some r \<and> runs r \<and>
     \<not> (\<exists>ctx timer sl1 w1. connection_setup sample_api null_servers sample_world = Inr (Some (ctx, timer), sl1, w1) \<and>
       fst (ca_shutdown sample_api (w_env w1)))"
proof -
  have "cfg_kept (get_parodus_cfg sample_world) c \<Longrightarrow> runs (allow_insecure_conn (fst (ca_token_env sample_api e)) c)" for c e
    by (auto simp: cfg_kept_def allow_insecure_conn_def get_dns_txt_record_id_def query_dns_def nquery_def sample_api_def
        sample_dns_def TXT_REC_ID_MAXSIZE_def sample_world_def get_parodus_cfg_def zero_cfg_def)
  then have "api_total sample_api (get_parodus_cfg sample_world)"
    by (auto simp: api_total_def) (simp_all add: sample_api_def ref_cjson_def newline_def cstr_def sample_world_def get_parodus_cfg_def)
  then show ?thesis using connecting_runs [OF _ null_servers_ok, of sample_api sample_world True] sample_connects by fastforce
qed




subsection \<open>What goes wrong\<close>

text \<open>
  A shutdown that is requested while no server can be reached: \<open>createNopollConnection\<close> returns true and reports
  the status online, without a connection.
\<close>

lemma shutdown_reported_online:
  "\<exists>sl' w'. createNopollConnection (sample_api\<lparr>ca_conn_new := \<lambda>rq e. (None, e)\<rparr>) True null_servers
       (sample_world\<lparr>w_env := 2\<rparr>) = Some (Inr (True, sl', w')) \<and>
     cloud_status (get_parodus_cfg w') = Some CLOUD_STATUS_ONLINE \<and> get_global_conn w' = None"
proof -
  let ?r = "createNopollConnection (sample_api\<lparr>ca_conn_new := \<lambda>rq e. (None, e)\<rparr>) True null_servers
    (sample_world\<lparr>w_env := 2\<rparr>)"
  have "(case ?r of Some (Inr (b, sl', w')) \<Rightarrow> b \<and> cloud_status (cs_cfg (w_conn w')) = Some CLOUD_STATUS_ONLINE \<and>
      cs_conn (w_conn w') = None | _ \<Rightarrow> False)"
    by code_simp
  then show ?thesis by (auto simp: get_global_conn_def get_parodus_cfg_def split: option.splits sum.splits)
qed

text \<open>
  One that is requested between the test of the interface-down flag and the wait, whose signal is lost (theory
  \<open>Interface_Wait\<close>): the wait is not woken, and \<open>createNopollConnection\<close> never returns.
\<close>

lemma signal_lost_blocks:
  "createNopollConnection (sample_api\<lparr>ca_conn_new := \<lambda>rq e. (None, e), ca_interface_down := \<lambda>e. (True, 0),
       ca_interface_wait := \<lambda>e. None\<rparr>) True null_servers sample_world = None"
proof -
  have "(case createNopollConnection (sample_api\<lparr>ca_conn_new := \<lambda>rq e. (None, e), ca_interface_down := \<lambda>e. (True, 0),
       ca_interface_wait := \<lambda>e. None\<rparr>) True null_servers sample_world of None \<Rightarrow> True | _ \<Rightarrow> False)"
    by code_simp
  then show ?thesis by (simp split: option.splits)
qed

text \<open>One that is requested before the first attempt: the current server is read through a null pointer.\<close>

lemma shutdown_before_first_attempt:
  "createNopollConnection sample_api True null_servers (sample_world\<lparr>w_env := 0\<rparr>) = Some (Inl NullDeref)"
proof -
  have "(case createNopollConnection sample_api True null_servers (sample_world\<lparr>w_env := 0\<rparr>) of
      Some (Inl f) \<Rightarrow> f = NullDeref | _ \<Rightarrow> False)"
    by code_simp
  then show ?thesis by (simp split: option.splits sum.splits)
qed

text \<open>
  A convey header that cannot be encoded: \<open>init_header_info\<close> fails and clears the header information, its result
  is ignored, and the device id is printed from a null pointer.
\<close>

lemma header_failure_ignored:
  "createNopollConnection (sample_api\<lparr>ca_base64 := \<lambda>s buf. (False, [NUL])\<rparr>) True null_servers sample_world =
     Some (Inl NullDeref)"
proof -
  have "(case createNopollConnection (sample_api\<lparr>ca_base64 := \<lambda>s buf. (False, [NUL])\<rparr>) True null_servers sample_world of
      Some (Inl f) \<Rightarrow> f = NullDeref | _ \<Rightarrow> False)"
    by code_simp
  then show ?thesis by (simp split: option.splits sum.splits)
qed

end
