(* ===== verification/Seshat.thy ===== *)
theory Seshat
  imports Config
begin

text \<open>
  \<^verbatim>\<open>seshat_interface.c\<close>: the local url is registered with the seshat service under the name \<open>Parodus\<close> and looked
  up again. The library is a record of functions over a state \<open>'e\<close> of its own.
\<close>

record 'e seshat_api =
  init_lib_seshat :: "string \<Rightarrow> 'e \<Rightarrow> int \<times> 'e"
  seshat_register :: "string \<Rightarrow> string \<Rightarrow> 'e \<Rightarrow> int \<times> 'e"
  seshat_discover :: "string \<Rightarrow> 'e \<Rightarrow> string option \<times> 'e"
  shutdown_seshat_lib :: "'e \<Rightarrow> 'e"

definition SESHAT_SERVICE_NAME :: string where "SESHAT_SERVICE_NAME = ''Parodus''"

definition registerWithSeshat :: "'e seshat_api \<Rightarrow> ParodusCfg \<Rightarrow> 'e \<Rightarrow> bool \<times> 'e" where
  "registerWithSeshat api cfg e =
     (case init_lib_seshat api (seshat_url cfg) e of (rc, e) \<Rightarrow>
      case (if rc = 0 then
              (case seshat_register api SESHAT_SERVICE_NAME (local_url cfg) e of (rc, e) \<Rightarrow>
               if rc = 0 then
                 (case seshat_discover api SESHAT_SERVICE_NAME e of (discover_url, e) \<Rightarrow>
                  (discover_url = Some (local_url cfg), e))
               else (False, e))
            else (False, e)) of (rv, e) \<Rightarrow> (rv, shutdown_seshat_lib api e))"

text \<open>
  The library is shut down on every path, and with a service that returns what was registered the registration
  succeeds exactly when the library can be initialised and accepts the url.
\<close>

lemma seshat_shut_down: "\<exists>e'. snd (registerWithSeshat api cfg e) = shutdown_seshat_lib api e'"
  by (auto simp: registerWithSeshat_def split: prod.splits)

lemma seshat_registered:
  assumes "\<And>name url e e'. seshat_register api name url e = (0, e') \<Longrightarrow> fst (seshat_discover api name e') = Some url"
  shows "fst (registerWithSeshat api cfg e) \<longleftrightarrow>
    (\<exists>e'. init_lib_seshat api (seshat_url cfg) e = (0, e') \<and>
       fst (seshat_register api SESHAT_SERVICE_NAME (local_url cfg) e') = 0)"
  using assms [of SESHAT_SERVICE_NAME "local_url cfg"]
  by (auto simp: registerWithSeshat_def split: prod.splits) fastforce+

text \<open>Steps of the library do not raise what the registration does not.\<close>

lemma seshat_le:
  assumes "\<And>u e. m (snd (init_lib_seshat api u e)) \<le> m e" "\<And>n u e. m (snd (seshat_register api n u e)) \<le> m e"
    "\<And>n e. m (snd (seshat_discover api n e)) \<le> m e" "\<And>e. m (shutdown_seshat_lib api e) \<le> (m e :: nat)"
  shows "m (snd (registerWithSeshat api cfg e)) \<le> m e"
proof -
  note le = assms(1) [of "seshat_url cfg"] assms(2) [of SESHAT_SERVICE_NAME "local_url cfg"]
    assms(3) [of SESHAT_SERVICE_NAME] assms(4)
  show ?thesis using le unfolding registerWithSeshat_def split_beta
    by (auto intro: order_trans [OF le(4)] order_trans [OF le(3)] order_trans [OF le(2)])
qed

end
