(* ===== verification/Main_Loop.thy ===== *)
theory Main_Loop
  imports Connection_Loops Upstream Seshat
begin

text \<open>
  \<open>createSocketConnection\<close> and \<open>shutdownSocketConnection\<close> of \<^verbatim>\<open>conn_interface.c\<close>: the first connection, the main
  loop with the ping watchdog, the wait for the interface and the reconnect, and the end of the program; \<open>main\<close> and
  the signal handler of \<^verbatim>\<open>main.c\<close>.

  The record \<open>main_api\<close> adds to \<open>conn_api\<close> what the main thread asks for: the callbacks that run inside
  \<open>nopoll_loop_wait\<close>, what the other threads and signals do before the condition of the loop is tested, the seshat
  library, and the clients left when the threads are joined. Joining waits for the ends of the threads; it is \<open>None\<close>
  when one of them never ends.
\<close>

subsection \<open>Signals\<close>

text \<open>
  \<open>shutdownSocketConnection\<close>, with \<open>g_shutdown\<close> as a value: the reason, the flag, and the interface-down flag reset;
  the signals end the two waits.
\<close>

definition shutdownSocketConnection :: "string option \<Rightarrow> 'c conn_state \<times> bool \<Rightarrow> 'c conn_state \<times> bool" where
  "shutdownSocketConnection reason s =
     (case s of (s, g_shutdown) \<Rightarrow>
        (s\<lparr>cs_shutdown_reason := reason, cs_flags := reset_interface_down_event (cs_flags s)\<rparr>, True))"

definition SHUTDOWN_REASON_PARODUS_STOP :: string where "SHUTDOWN_REASON_PARODUS_STOP = ''parodus_stopping''"

text \<open>The signals the handler tells apart; it is installed again for each of them.\<close>

datatype signal = SIGINT | SIGUSR1 | SIGUSR2 | SIGTERM | SIGCHLD | SIGPIPE | SIGALRM | OtherSignal int

definition sig_handler :: "signal \<Rightarrow> 'c conn_state \<times> bool \<Rightarrow> 'c conn_state \<times> bool" where
  "sig_handler sig s =
     (case sig of
        SIGINT \<Rightarrow> shutdownSocketConnection (Some SHUTDOWN_REASON_PARODUS_STOP) s
      | SIGUSR1 \<Rightarrow> shutdownSocketConnection (Some SHUTDOWN_REASON_SYSTEM_RESTART) s
      | SIGUSR2 \<Rightarrow> s
      | SIGTERM \<Rightarrow> shutdownSocketConnection (Some SHUTDOWN_REASON_SIGTERM) s
      | SIGCHLD \<Rightarrow> s
      | SIGPIPE \<Rightarrow> s
      | SIGALRM \<Rightarrow> s
      | OtherSignal n \<Rightarrow> shutdownSocketConnection (Some SHUTDOWN_REASON_PARODUS_STOP) s)"

subsection \<open>Events\<close>

text \<open>
  A ping callback, a close callback with the status and the interface-down flag it reads, a disconnect
  request that the CRUD thread carries out (\<open>ConnDisconnectFromCloud\<close> of theory \<open>Crud\<close>), and a signal; that
  \<open>g_shutdown\<close> is then set is seen where the environment is asked for it.
\<close>

datatype main_event = PingFrame "string option" bool | ConnClosed int bool | CloudDisconnect string | SignalCaught signal

definition disconnect_requested :: "string \<Rightarrow> 'c conn_state \<Rightarrow> 'c conn_state" where
  "disconnect_requested reason s =
     (let s = s\<lparr>cs_cfg := set_cloud_disconnect_reason (cs_cfg s) reason\<rparr> in
      if \<not> get_close_retry (cs_flags s)
      then s\<lparr>cs_reconnect_reason := reason, cs_reconnect_status := True, cs_flags := set_close_retry (cs_flags s)\<rparr>
      else s)"

fun handle_main_event :: "main_event \<Rightarrow> 'c conn_state \<Rightarrow> 'c conn_state" where
  "handle_main_event (PingFrame payload is_ping) s = listenerOnPingMessage payload is_ping s"
| "handle_main_event (ConnClosed status down) s =
     listenerOnCloseMessage status (s\<lparr>cs_flags := (cs_flags s)\<lparr>interface_down_event := down\<rparr>\<rparr>)"
| "handle_main_event (CloudDisconnect reason) s = disconnect_requested reason s"
| "handle_main_event (SignalCaught sig) s = fst (sig_handler sig (s, False))"

record ('c, 'e) main_api =
  mn_conn :: "('c, 'e) conn_api"
  mn_ctx_new :: "'e \<Rightarrow> bool \<times> 'e"                       \<comment> \<open>\<open>nopoll_ctx_new\<close>\<close>
  mn_loop_wait :: "'e \<Rightarrow> main_event list \<times> 'e"
  mn_others :: "'e \<Rightarrow> main_event list \<times> 'e"
  mn_seshat :: "'e seshat_api"
  mn_sleep :: "nat \<Rightarrow> 'e \<Rightarrow> 'e"
  mn_pack_metadata :: "(string \<times> string) list \<Rightarrow> int \<times> string option"
  mn_join_threads :: "'e \<Rightarrow> (clients \<times> 'e) option"    \<comment> \<open>signals and joins, with the clients that are left; \<open>None\<close> where a thread does not end\<close>

subsection \<open>A turn of the loop\<close>

definition CLOUD_RECONNECT_TIME :: int where "CLOUD_RECONNECT_TIME = 5"

text \<open>The watchdog of theory \<open>Timers\<close> with what it reports.\<close>

definition watch_pings ::
  "('c, 'e) conn_api \<Rightarrow> u32 \<Rightarrow> timespec \<Rightarrow> timespec \<Rightarrow> ('c, 'e) world \<Rightarrow> ('c, 'e) world" where
  "watch_pings api webpa_ping_timeout_ms start stop w =
     (case ping_watchdog webpa_ping_timeout_ms start stop (cs_flags (w_conn w)) of (fl, missed) \<Rightarrow>
      let w = on_conn (\<lambda>s. s\<lparr>cs_flags := fl\<rparr>) w in
      if missed then
        let w = on_conn (set_global_reconnect_status True \<circ> set_global_reconnect_reason ''Ping_Miss'') w
        in (case ca_ping_status api of None \<Rightarrow> w | Some f \<Rightarrow> act (f ''missed'') w)
      else w)"

text \<open>Closing the connection and connecting again; the return value of the latter is ignored.\<close>

definition reconnect ::
  "('c, 'e) main_api \<Rightarrow> bool \<Rightarrow> server_list_t \<Rightarrow> ('c, 'e) world \<Rightarrow> (fault + server_list_t \<times> ('c, 'e) world) option" where
  "reconnect M has_ctx sl w =
     (let api = mn_conn M in
      if get_close_retry (cs_flags (w_conn w)) then
        let w = set_global_conn None (close_and_unref_connection api (get_global_conn w) w);
            w = (if cloud_disconnect (get_parodus_cfg w) \<noteq> None then
                   let w = on_conn (\<lambda>s. s\<lparr>cs_disconnect_time := CLOUD_RECONNECT_TIME\<rparr>) w;
                       w = act (mn_sleep M (nat (cs_disconnect_time (w_conn w) * 60))) w
                   in on_conn (\<lambda>s. s\<lparr>cs_cfg := reset_cloud_disconnect_reason (cs_cfg s)\<rparr>) w
                 else w)
        in run_bind (createNopollConnection api has_ctx sl w) (\<lambda>(_, sl, w). Some (Inr (sl, w)))
      else Some (Inr (sl, w)))"

text \<open>
  A turn up to the reconnect: the wait for the web socket, the watchdog, seshat, and the wait for the interface,
  whose result says whether the turn goes on.
\<close>

definition turn_start ::
  "('c, 'e) main_api \<Rightarrow> u32 \<Rightarrow> bool \<Rightarrow> ('c, 'e) world \<Rightarrow> (bool \<times> bool \<times> ('c, 'e) world) option" where
  "turn_start M webpa_ping_timeout_ms seshat_registered w =
     (let api = mn_conn M in
      case ask (ca_clock api) w of (start, w) \<Rightarrow>
      case ask (mn_loop_wait M) w of (events, w) \<Rightarrow>
      let w = on_conn (fold handle_main_event events) w in
      case ask (ca_clock api) w of (stop, w) \<Rightarrow>
      let w = watch_pings api webpa_ping_timeout_ms start stop w in
      case (if \<not> seshat_registered then ask (registerWithSeshat (mn_seshat M) (get_parodus_cfg w)) w else (True, w)) of (registered, w) \<Rightarrow>
      case ask (ca_interface_down api) w of (down, w) \<Rightarrow>
      Option.bind (if down then wait_while_interface_down api w else Some (True, w)) (\<lambda>(up, w).
        Some (up, registered, w)))"

text \<open>The result says whether the loop goes on.\<close>

definition main_turn ::
  "('c, 'e) main_api \<Rightarrow> bool \<Rightarrow> u32 \<Rightarrow> server_list_t \<Rightarrow> bool \<Rightarrow> ('c, 'e) world \<Rightarrow>
     (fault + bool \<times> server_list_t \<times> bool \<times> ('c, 'e) world) option" where
  "main_turn M has_ctx webpa_ping_timeout_ms sl seshat_registered w =
     Option.bind (turn_start M webpa_ping_timeout_ms seshat_registered w) (\<lambda>(up, registered, w).
       if \<not> up then Some (Inr (False, sl, registered, w))
       else run_bind (reconnect M has_ctx sl w) (\<lambda>(sl, w).
         case ask (mn_others M) w of (events, w) \<Rightarrow>
         let w = on_conn (fold handle_main_event events) w in
         if get_close_retry (cs_flags (w_conn w)) then Some (Inr (False, sl, registered, w))
         else case ask (ca_shutdown (mn_conn M)) w of (stop, w) \<Rightarrow> Some (Inr (\<not> stop, sl, registered, w))))"

partial_function (option) main_loop ::
  "('c, 'e) main_api \<Rightarrow> bool \<Rightarrow> u32 \<Rightarrow> server_list_t \<Rightarrow> bool \<Rightarrow> ('c, 'e) world \<Rightarrow>
     (fault + server_list_t \<times> ('c, 'e) world) option" where
  "main_loop M has_ctx tmo sl seshat_registered w =
     run_bind (main_turn M has_ctx tmo sl seshat_registered w) (\<lambda>(go_on, sl, registered, w).
       if go_on then main_loop M has_ctx tmo sl registered w else Some (Inr (sl, w)))"

declare main_loop.simps [code]

subsection \<open>The program\<close>

text \<open>
  \<open>createSocketConnection\<close> on the world with the metadata; the list of servers is not initialised. The result
  is the world, the metadata and the clients, all deleted.
\<close>

definition createSocketConnection ::
  "('c, 'e) main_api \<Rightarrow> server_list_t \<Rightarrow> meta \<Rightarrow> ('c, 'e) world \<Rightarrow> (fault + ('c, 'e) world \<times> meta \<times> clients) option" where
  "createSocketConnection M server_list mt w =
     (let api = mn_conn M; webpa_ping_timeout_ms = 1000 * webpa_ping_timeout (get_parodus_cfg w) in
      case ask (mn_ctx_new M) w of (has_ctx, w) \<Rightarrow>
      run_bind (createNopollConnection api has_ctx (set_server_list_null server_list) w) (\<lambda>(create_conn_rtn, sl, w).
        if \<not> create_conn_rtn then Some (Inl Aborted)
        else
          let mt = packMetaData (mn_pack_metadata M) (get_parodus_cfg w) (cs_reconnect_reason (w_conn w)) mt in
          case ask (registerWithSeshat (mn_seshat M) (get_parodus_cfg w)) w of (registered, w) \<Rightarrow>
          run_bind (main_loop M has_ctx webpa_ping_timeout_ms sl registered w) (\<lambda>(sl, w).
            Option.bind (ask_waiting (mn_join_threads M) w) (\<lambda>(cl, w).
            Some (Inr (close_and_unref_connection api (get_global_conn w) w, mt, deleteAllClients cl))))))"

text \<open>\<open>main\<close>: the shutdown reason, the configuration of theory \<open>Config\<close>, and the connection.\<close>

definition main ::
  "('c, 'e) main_api \<Rightarrow> string \<Rightarrow> cl_env \<Rightarrow> (char \<times> string option) list \<Rightarrow> server_list_t \<Rightarrow> meta \<Rightarrow>
     ('c, 'e) world \<Rightarrow> (fault + ('c, 'e) world \<times> meta \<times> clients) option" where
  "main M git_tag env opts server_list mt w =
     (let w = on_conn (\<lambda>s. s\<lparr>cs_shutdown_reason := Some SHUTDOWN_REASON_PARODUS_STOP\<rparr>) w in
      case main_config git_tag env opts of
        Inl f \<Rightarrow> Some (Inl f)
      | Inr cfg \<Rightarrow> createSocketConnection M server_list mt (on_conn (\<lambda>s. s\<lparr>cs_cfg := cfg\<rparr>) w))"

end
