(* ===== verification/Main_Loop_Props.thy ===== *)
theory Main_Loop_Props
  imports Main_Loop Connection_Props
begin

text \<open>
  The main loop: a reconnect that returns has connected again, the loop ends once a shutdown is requested unless one
  of two waits blocks, and what a race of the close-retry flag does.
\<close>

subsection \<open>The default server stays known\<close>

abbreviation dflt :: "create_connection_ctx_t \<Rightarrow> server_t" where
  "dflt ctx \<equiv> sl_defaults (ctx_server_list ctx)"

lemma set_extra_headers_dflt: "set_extra_headers api ctx w = Inr (c, w') \<Longrightarrow> dflt c = dflt ctx"
  unfolding set_extra_headers_def Let_def then_run_Inr_iff by auto

lemma dns_local_check_dflt: "dns_local_check api ctx host w = (c, w') \<Longrightarrow> dflt c = dflt ctx"
  by (auto simp: dns_local_check_def Let_def split: prod.splits if_splits)

lemma connect_try_dflt: "on_return (\<lambda>(_, c, _). dflt c = dflt ctx) (connect_try api ctx v6 w)"
proof -
  have n: "on_return (\<lambda>(_, c, _). dflt c = dflt ctx) (nopoll_connect api ctx v6 w)"
    unfolding nopoll_connect_def Let_def
    by (auto split: prod.splits intro!: on_return_then dest!: dns_local_check_dflt)
  have wr: "wait_connection_ready api c w' = Inr (r, c', w'') \<Longrightarrow> dflt c' = dflt c" for c w' r c' w''
  proof -
    have "on_return (\<lambda>(_, c', _). dflt c' = dflt c) (wait_connection_ready api c w')"
      unfolding wait_connection_ready_def Let_def
      by (auto split: prod.splits simp: set_current_server_def intro!: on_return_then)
    then show "wait_connection_ready api c w' = Inr (r, c', w'') \<Longrightarrow> dflt c' = dflt c" by simp
  qed
  show ?thesis
    unfolding connect_try_def
    by (auto split: prod.splits intro!: on_return_then dest!: on_returnD [OF n] wr)
qed

lemma connect_loop_dflt: "on_return (\<lambda>(_, c, _). dflt c = dflt ctx) (connect_loop api fl ctx v6 w)"
proof -
  have t: "connect_try api ctx v6 w = Inr (r, c, w') \<Longrightarrow> dflt c = dflt ctx" for ctx v6 w r c w'
    using on_returnD [OF connect_try_dflt] by fast
  have v4: "on_return (\<lambda>(_, c, _). dflt c = d) (connect_loop api fl ctx False w)" if "dflt ctx = d" for fl ctx w d
    using that by (subst connect_loop.simps) (auto split: wait_rtn.splits intro!: on_return_then dest!: t)
  show ?thesis
    by (subst connect_loop.simps) (auto split: wait_rtn.splits intro!: on_return_then v4 dest!: t)
qed

lemma after_failure_dflt: "after_failure api ctx timer w = Some (Inr (b, c, r)) \<Longrightarrow> dflt c = dflt ctx"
  unfolding after_failure_def
  by (auto simp: then_run_Inr_iff split: prod.splits if_splits option.splits bind_splits)

lemma keep_trying_dflt: "ends (\<lambda>(_, c, _, _). dflt c = dflt ctx) (keep_trying_to_connect api ctx timer w)"
proof -
  define Q where "Q = (\<lambda>(_ :: bool, c, _ :: backoff_timer_t, _ :: ('a, 'b) world). dflt c = dflt ctx)"
  have leaf: "Q (b, c, t, w')" if "dflt c = dflt ctx" for b c t w' using that by (simp add: Q_def)
  have cw: "connect_and_wait api c w = Inr (r, c', w') \<Longrightarrow> dflt c' = dflt c" for c w r c' w'
    using on_returnD [OF connect_loop_dflt] unfolding connect_and_wait_def Let_def by fast
  have "ends Q (keep_trying_to_connect api ctx timer w)"
    by (rule keep_trying_rule [where C = "\<lambda>c timer w. dflt c = dflt ctx"])
       (auto simp: keep_trying_body_def split: prod.splits
         intro!: ends_bind ends_case leaf dest!: set_extra_headers_dflt cw after_failure_dflt)
  then show ?thesis by (simp add: Q_def)
qed

lemma connection_loop_known:
  assumes "later api w0 w" "ctx_ok ctx" "parse_webpa_url (webpa_url (get_parodus_cfg w0)) \<noteq> None" "server_addr (dflt ctx) \<noteq> None"
  shows "ends (\<lambda>(c, _). server_addr (dflt c) \<noteq> None) (connection_loop api ctx timer w)"
proof -
  define Q where "Q = (\<lambda>(c, _ :: ('a, 'b) world). server_addr (dflt c) \<noteq> None)"
  have leaf: "Q (c, w')" if "server_addr (dflt c) \<noteq> None" for c w' using that by (simp add: Q_def)
  have fr: "dflt (free_redirect c) = dflt c" for c by (simp add: free_redirect_def)
  have cur: "dflt (set_current_server c) = dflt c" for c by (simp add: set_current_server_def)
  have kt: "later api w0 w' \<and> ctx_ok c' \<and> dflt c' = dflt c"
    if "keep_trying_to_connect api (set_current_server c) t w = Some (Inr (b, c', t', w'))" "later api w0 w" "ctx_ok c"
    for c t w b c' t' w'
    using later.keep_trying_end [OF that(2) ctx_ok_current [OF that(3)], where timer = t]
      keep_trying_dflt [of "set_current_server c" api t w] that(1) by (simp add: cur)
  have fj: "later api w0 w' \<and> ctx_ok c' \<and> server_addr (dflt c') \<noteq> None"
    if "find_jwt_again api (free_redirect c) w = Inr (c', w')" "later api w0 w \<and> ctx_ok c \<and> server_addr (dflt c) \<noteq> None"
    for c w c' w'
  proof -
    have "webpa_url (get_parodus_cfg w) = webpa_url (get_parodus_cfg w0)"
      using that(2) by (auto simp: later_def cfg_kept_def)
    then have "server_addr (dflt c') \<noteq> None"
      using that assms(3) fr [of c] on_returnD [OF find_servers_ok]
      by (fastforce simp: find_jwt_again_def then_run_Inr_iff split: if_splits)
    then show ?thesis using later.inv_find_jwt_againD [OF that(1)] that(2) ctx_ok_free_redirect by blast
  qed
  have "ends Q (connection_loop api ctx timer w)"
    by (rule connection_loop_rule [where C = "\<lambda>c timer w. later api w0 w \<and> ctx_ok c \<and> server_addr (dflt c) \<noteq> None"])
       (auto simp: connection_body_def assms fr split: prod.splits simp del: not_None_eq
         intro!: ends_bind ends_case leaf dest!: later.inv_asks kt fj)
  then show ?thesis by (simp add: Q_def)
qed


lemma connection_setup_known:
  assumes "servers_ok sl"
  shows "on_return (\<lambda>(start, sl', w'). (\<forall>ctx timer. start = Some (ctx, timer) \<longrightarrow> ctx_server_list ctx = sl' \<and>
      server_addr (dflt ctx) \<noteq> None) \<and>
     (server_addr (sl_defaults sl) = None \<and> start \<noteq> None \<longrightarrow> parse_webpa_url (webpa_url (get_parodus_cfg w)) \<noteq> None) \<and>
     (server_addr (sl_defaults sl) \<noteq> None \<longrightarrow> start \<noteq> None)) (connection_setup api sl w)"
proof -
  have url: "webpa_url (get_parodus_cfg w1) = webpa_url (get_parodus_cfg w)" if "init_header_info api w = Inr (n, h, w1)" for n h w1
    using on_returnD [OF later.inv_init_header_info [OF later_refl [of api w]] that] by (auto simp: later_def cfg_kept_def)
  show ?thesis
    unfolding connection_setup_def Let_def
    by (auto simp: server_is_null_def url split: prod.splits if_splits intro!: on_return_then
        dest!: on_returnD [OF find_servers_ok])
qed

text \<open>The default server is known, and its url is still the one of the configuration.\<close>

definition known_default :: "server_list_t \<Rightarrow> ('c, 'e) world \<Rightarrow> bool" where
  "known_default sl w \<longleftrightarrow> servers_ok sl \<and> server_addr (sl_defaults sl) \<noteq> None \<and>
     parse_webpa_url (webpa_url (get_parodus_cfg w)) \<noteq> None"

lemma create_returns:
  assumes "createNopollConnection api True sl w = Some (Inr (b, sl', w'))"
  obtains (invalid) sl1 w1 where "connection_setup api sl w = Inr (None, sl1, w1)" "\<not> b"
  | (finished) ctx timer sl1 w1 c w2 where "connection_setup api sl w = Inr (Some (ctx, timer), sl1, w1)" "b"
      "connection_loop api ctx timer w1 = Some (Inr (c, w2))" "sl' = ctx_server_list c"
proof -
  obtain start sl1 w1 where s: "connection_setup api sl w = Inr (start, sl1, w1)"
    using assms by (auto simp: createNopollConnection_def split: sum.splits)
  show thesis
  proof (cases start)
    case None
    then show thesis using assms s invalid by (simp add: createNopollConnection_def)
  next
    case (Some ct)
    obtain ctx timer where ct: "ct = (ctx, timer)" by fastforce
    with assms s Some have "run_bind (connection_loop api ctx timer w1) (\<lambda>(ctx, w).
        Some (then_run (connection_done api ctx w) (\<lambda>w. Inr (True, ctx_server_list ctx, w)))) = Some (Inr (b, sl', w'))"
      by (simp add: createNopollConnection_def)
    then show thesis
      using s Some ct finished by (cases "connection_loop api ctx timer w1") (auto simp: then_run_Inr_iff split: sum.splits)
  qed
qed

lemma create_known:
  assumes "servers_ok sl" "server_addr (sl_defaults sl) \<noteq> None \<longrightarrow> parse_webpa_url (webpa_url (get_parodus_cfg w)) \<noteq> None"
    and run: "createNopollConnection api True sl w = Some (Inr (b, sl', w'))"
  shows "b \<longrightarrow> known_default sl' w'" "server_addr (sl_defaults sl) \<noteq> None \<Longrightarrow> b"
proof -
  have e: "servers_ok sl'" "webpa_url (get_parodus_cfg w') = webpa_url (get_parodus_cfg w)"
    using create_end [OF assms(1), of api w True] run by (auto simp: later_def cfg_kept_def)
  note set_up = on_returnD [OF connection_setup_known [OF assms(1)], unfolded prod.case]
  from run show "b \<longrightarrow> known_default sl' w'"
  proof (cases rule: create_returns)
    case (finished ctx timer sl1 w1 c w2)
    have l: "later api w w1" "ctx_ok ctx"
      using on_returnD [OF later.inv_connection_setup [OF later_refl] finished(1)]
        on_returnD [OF connection_setup_ctx [OF assms(1)] finished(1)] by auto
    note k = set_up [OF finished(1)]
    have u: "parse_webpa_url (webpa_url (get_parodus_cfg w)) \<noteq> None" using k assms(2) by blast
    have "server_addr (dflt ctx) \<noteq> None" using k by blast
    from connection_loop_known [OF l u this, of timer] finished(3) have "server_addr (dflt c) \<noteq> None" by simp
    with e u finished(4) show ?thesis by (simp add: known_default_def)
  qed simp
  from run show "server_addr (sl_defaults sl) \<noteq> None \<Longrightarrow> b"
    by (cases rule: create_returns) (use set_up in blast)+
qed

subsection \<open>Reconnecting\<close>

text \<open>The world in which a reconnect starts, after the close and the wait.\<close>

definition after_close :: "('c, 'e) main_api \<Rightarrow> ('c, 'e) world \<Rightarrow> ('c, 'e) world" where
  "after_close M w =
     (let w = set_global_conn None (close_and_unref_connection (mn_conn M) (get_global_conn w) w)
      in if cloud_disconnect (get_parodus_cfg w) \<noteq> None then
           let w = on_conn (\<lambda>s. s\<lparr>cs_disconnect_time := CLOUD_RECONNECT_TIME\<rparr>) w;
               w = act (mn_sleep M (nat (cs_disconnect_time (w_conn w) * 60))) w
           in on_conn (\<lambda>s. s\<lparr>cs_cfg := reset_cloud_disconnect_reason (cs_cfg s)\<rparr>) w
         else w)"

lemma reconnect_alt:
  "reconnect M has_ctx sl w =
     (if get_close_retry (cs_flags (w_conn w))
      then run_bind (createNopollConnection (mn_conn M) has_ctx sl (after_close M w)) (\<lambda>(_, sl, w). Some (Inr (sl, w)))
      else Some (Inr (sl, w)))"
  by (simp add: reconnect_def after_close_def Let_def)

lemma on_conn_simps [simp]:
  "get_parodus_cfg (on_conn f w) = cs_cfg (f (w_conn w))" "w_env (on_conn f w) = w_env w"
  "w_conn (on_conn f w) = f (w_conn w)"
  by (simp_all add: get_parodus_cfg_def on_conn_def)

lemma act_cfg [simp]: "get_parodus_cfg (act f w) = get_parodus_cfg w"
  by (simp add: get_parodus_cfg_def)

lemma later_close: "later api w (set_global_conn None (close_and_unref_connection api (get_global_conn w) w))"
  by (intro later.inv_set_global_conn later.inv_close later_refl)

lemma after_close_cfg:
  "webpa_url (get_parodus_cfg (after_close M w)) = webpa_url (get_parodus_cfg w)"
  "cloud_disconnect (get_parodus_cfg (after_close M w)) = None"
proof -
  have "webpa_url (get_parodus_cfg (set_global_conn None (close_and_unref_connection (mn_conn M) (get_global_conn w) w))) =
      webpa_url (get_parodus_cfg w)"
    using later_close [of "mn_conn M" w] by (auto simp: later_def cfg_kept_def)
  then show "webpa_url (get_parodus_cfg (after_close M w)) = webpa_url (get_parodus_cfg w)"
    "cloud_disconnect (get_parodus_cfg (after_close M w)) = None"
    by (auto simp: after_close_def Let_def reset_cloud_disconnect_reason_def get_parodus_cfg_def)
qed

lemma reconnect_known:
  assumes "get_close_retry (cs_flags (w_conn w))" "known_default sl w"
    and "reconnect M True sl w = Some (Inr (sl', w'))"
  shows "createNopollConnection (mn_conn M) True sl (after_close M w) = Some (Inr (True, sl', w')) \<and>
    known_default sl' w' \<and> connected_state (w_conn w') \<and> cloud_disconnect (get_parodus_cfg w') = None \<and>
    (get_global_conn w' \<noteq> None \<and> server_addr (sl_redirect sl') = None \<or>
     shutdown_between (mn_conn M) (after_close M w) w')"
proof -
  from assms(1,3) obtain b where
    c: "createNopollConnection (mn_conn M) True sl (after_close M w) = Some (Inr (b, sl', w'))"
    by (auto simp: reconnect_alt split: sum.splits bind_splits)
  have k: "servers_ok sl" "server_addr (sl_defaults sl) \<noteq> None"
    "parse_webpa_url (webpa_url (get_parodus_cfg (after_close M w))) \<noteq> None"
    using assms(2) by (simp_all add: known_default_def after_close_cfg)
  note r = create_known [OF k(1) impI [OF k(3)] c]
  have "cloud_disconnect (get_parodus_cfg w') = None"
    using create_end [OF k(1), of "mn_conn M" "after_close M w" True] c after_close_cfg(2) [of M w]
    by (auto simp: later_def cfg_kept_def)
  with r k c create_end [OF k(1), of "mn_conn M" "after_close M w" True] show ?thesis by simp
qed

subsection \<open>The turns\<close>

lemma sig_handler_cfg [simp]: "cs_cfg (fst (sig_handler sig s)) = cs_cfg (fst s)"
  by (simp add: sig_handler_def shutdownSocketConnection_def split: signal.split prod.split)

lemma handle_main_event_url [simp]: "webpa_url (cs_cfg (handle_main_event ev s)) = webpa_url (cs_cfg s)"
  by (cases ev) (simp_all add: listenerOnPingMessage_def listenerOnCloseMessage_def disconnect_requested_def Let_def
      set_global_reconnect_reason_def set_global_reconnect_status_def set_cloud_disconnect_reason_def)

lemma fold_events_url [simp]: "webpa_url (cs_cfg (fold handle_main_event evs s)) = webpa_url (cs_cfg s)"
  by (induction evs arbitrary: s) simp_all

lemma watch_pings_cfg [simp]: "cs_cfg (w_conn (watch_pings api tmo a b w)) = cs_cfg (w_conn w)"
  by (auto simp: watch_pings_def Let_def set_global_reconnect_reason_def set_global_reconnect_status_def
      split: prod.splits option.splits)

lemma wait_interface_later: "wait_while_interface_down api w = Some (up, w') \<Longrightarrow> later api w w'"
  using later.inv_wait_while_interface_down [OF _ later_refl] by fastforce

lemma turn_start_url:
  assumes "turn_start M tmo reg w = Some (up, reg', w')"
  shows "webpa_url (get_parodus_cfg w') = webpa_url (get_parodus_cfg w)"
  using assms unfolding turn_start_def Let_def
  by (auto split: prod.splits if_splits bind_splits dest!: ask_keeps wait_interface_later
      simp: later_def cfg_kept_def get_parodus_cfg_def)

lemma main_turn_known:
  assumes "main_turn M True tmo sl reg w = Some (Inr (go, sl', reg', w'))" "known_default sl w"
  shows "known_default sl' w'"
proof -
  obtain up r w1 where 1: "turn_start M tmo reg w = Some (up, r, w1)"
    using assms(1) by (auto simp: main_turn_def split: bind_splits)
  have k1: "known_default sl w1" using assms(2) turn_start_url [OF 1] by (simp add: known_default_def)
  show ?thesis
  proof (cases up)
    case True
    then obtain sl2 w2 where 2: "reconnect M True sl w1 = Some (Inr (sl2, w2))"
      using assms(1) 1 by (auto simp: main_turn_def split: bind_splits sum.splits)
    have "known_default sl2 w2"
      using reconnect_known [OF _ k1 2] k1 2 by (cases "get_close_retry (cs_flags (w_conn w1))") (auto simp: reconnect_alt)
    with assms(1) 1 2 True show ?thesis
      by (auto simp: main_turn_def known_default_def Let_def get_parodus_cfg_def simp del: not_None_eq
          split: prod.splits if_splits dest!: ask_keeps)
  qed (use assms 1 k1 in \<open>simp add: main_turn_def\<close>)
qed

text \<open>The states at the beginning of the turns.\<close>

inductive main_turns ::
  "('c, 'e) main_api \<Rightarrow> u32 \<Rightarrow> server_list_t \<times> bool \<times> ('c, 'e) world \<Rightarrow> server_list_t \<times> bool \<times> ('c, 'e) world \<Rightarrow> bool"
  for M tmo s0 where
  begins: "main_turns M tmo s0 s0"
| goes_on: "main_turns M tmo s0 (sl, reg, w) \<Longrightarrow> main_turn M True tmo sl reg w = Some (Inr (True, sl', reg', w')) \<Longrightarrow>
    main_turns M tmo s0 (sl', reg', w')"

lemma main_turns_known:
  assumes "main_turns M tmo (sl0, reg0, w0) s" "known_default sl0 w0"
  shows "case s of (sl, reg, w) \<Rightarrow> known_default sl w"
  using assms by (induction rule: main_turns.induct) (auto dest: main_turn_known)

text \<open>The loop runs such turns and then one that ends it.\<close>

lemma run_bind_Inr_iff:
  "run_bind m k = Some (Inr y) \<longleftrightarrow> (\<exists>x. m = Some (Inr x) \<and> k x = Some (Inr y))"
  by (cases m) (auto split: sum.splits)

lemma main_loop_turns:
  assumes "main_loop M True tmo sl reg w = Some (Inr (sl', w'))" "main_turns M tmo s0 (sl, reg, w)"
  shows "\<exists>sl1 reg1 w1 reg'. main_turns M tmo s0 (sl1, reg1, w1) \<and>
    main_turn M True tmo sl1 reg1 w1 = Some (Inr (False, sl', reg', w'))"
proof -
  have "b \<longrightarrow> A = M \<and> T = tmo \<longrightarrow> r = Inr (sl', w') \<longrightarrow> main_turns M tmo s0 (sl, reg, w) \<longrightarrow>
      (\<exists>sl1 reg1 w1 reg'. main_turns M tmo s0 (sl1, reg1, w1) \<and>
        main_turn M True tmo sl1 reg1 w1 = Some (Inr (False, sl', reg', w')))"
    if "main_loop A b T sl reg w = Some r" for A b T r
  proof (rule main_loop.raw_induct [OF _ that], intro impI)
    fix rec A b T sl reg w r
    assume IH: "\<And>A b T sl reg w r. rec A b T sl reg w = Some r \<Longrightarrow> b \<longrightarrow> A = M \<and> T = tmo \<longrightarrow> r = Inr (sl', w') \<longrightarrow>
        main_turns M tmo s0 (sl, reg, w) \<longrightarrow> (\<exists>sl1 reg1 w1 reg'. main_turns M tmo s0 (sl1, reg1, w1) \<and>
        main_turn M True tmo sl1 reg1 w1 = Some (Inr (False, sl', reg', w')))"
      and run: "run_bind (main_turn A b T sl reg w) (\<lambda>(go_on, sl, registered, w).
       if go_on then rec A b T sl registered w else Some (Inr (sl, w))) = Some r"
      and prems: "b" "A = M \<and> T = tmo" "r = Inr (sl', w')" "main_turns M tmo s0 (sl, reg, w)"
    have eqs: "b = True" "A = M" "T = tmo" using prems(1,2) by simp_all
    from run [unfolded eqs prems(3) run_bind_Inr_iff] obtain x where
      x: "main_turn M True tmo sl reg w = Some (Inr x)"
        "(case x of (go, sl2, reg2, w2) \<Rightarrow> if go then rec M True tmo sl2 reg2 w2 else Some (Inr (sl2, w2))) =
          Some (Inr (sl', w'))" by blast
    obtain go sl2 reg2 w2 where "x = (go, sl2, reg2, w2)" by (rule prod_cases4)
    with x have t: "main_turn M True tmo sl reg w = Some (Inr (go, sl2, reg2, w2))"
      and rest: "(if go then rec M True tmo sl2 reg2 w2 else Some (Inr (sl2, w2))) = Some (Inr (sl', w'))" by simp_all
    show "\<exists>sl1 reg1 w1 reg'. main_turns M tmo s0 (sl1, reg1, w1) \<and>
        main_turn M True tmo sl1 reg1 w1 = Some (Inr (False, sl', reg', w'))"
    proof (cases go)
      case True
      then have g: "go = True" by simp
      have "main_turns M tmo s0 (sl2, reg2, w2)" by (rule goes_on [OF prems(4) t [unfolded g]])
      moreover have "rec M True tmo sl2 reg2 w2 = Some (Inr (sl', w'))" using rest unfolding g by (simp only: if_True)
      ultimately show ?thesis using IH by blast
    next
      case False
      then have g: "go = False" by simp
      then have e: "sl2 = sl'" "w2 = w'" using rest by simp_all
      from prems(4) t [unfolded g e] show ?thesis by blast
    qed
  qed
  with assms show ?thesis by blast
qed

subsection \<open>The loop ends once a shutdown is requested\<close>

text \<open>The steps outside that the main thread asks for.\<close>

inductive main_step :: "('c, 'e) main_api \<Rightarrow> 'e \<Rightarrow> 'e \<Rightarrow> bool" for M where
  step_conn: "env_step (mn_conn M) e e' \<Longrightarrow> main_step M e e'"
| step_ctx_new: "main_step M e (snd (mn_ctx_new M e))"
| step_loop_wait: "main_step M e (snd (mn_loop_wait M e))"
| step_others: "main_step M e (snd (mn_others M e))"
| step_seshat: "main_step M e (snd (registerWithSeshat (mn_seshat M) cfg e))"
| step_sleep: "main_step M e (mn_sleep M n e)"

abbreviation main_later :: "('c, 'e) main_api \<Rightarrow> ('c, 'e) world \<Rightarrow> ('c, 'e) world \<Rightarrow> bool" where
  "main_later M w w' \<equiv> (main_step M)\<^sup>*\<^sup>* (w_env w) (w_env w')"

text \<open>As \<open>shutdown_within\<close>, with the steps of the main thread.\<close>

definition main_within :: "('c, 'e) main_api \<Rightarrow> ('e \<Rightarrow> nat) \<Rightarrow> bool" where
  "main_within M m \<longleftrightarrow> (\<forall>e e'. main_step M e e' \<longrightarrow> m e' \<le> m e) \<and>
     (\<forall>e. \<not> fst (ca_shutdown (mn_conn M) e) \<longrightarrow> m (snd (ca_shutdown (mn_conn M) e)) < m e)"

text \<open>The two waits that may block forever, in a state that the main thread can reach.\<close>

definition interface_wait_blocks :: "('c, 'e) main_api \<Rightarrow> 'e \<Rightarrow> bool" where
  "interface_wait_blocks M e \<longleftrightarrow> (\<exists>e'. (main_step M)\<^sup>*\<^sup>* e e' \<and> fst (ca_interface_down (mn_conn M) e') \<and>
     ca_interface_wait (mn_conn M) (snd (ca_interface_down (mn_conn M) e')) = None)"

definition join_blocks :: "('c, 'e) main_api \<Rightarrow> 'e \<Rightarrow> bool" where
  "join_blocks M e \<longleftrightarrow> (\<exists>e'. (main_step M)\<^sup>*\<^sup>* e e' \<and> mn_join_threads M e' = None)"

lemma main_within_conn: "main_within M m \<Longrightarrow> shutdown_within (mn_conn M) m"
  by (auto simp: main_within_def shutdown_within_def intro: step_conn)

lemma main_later_measure: "main_within M m \<Longrightarrow> main_later M w w' \<Longrightarrow> m (w_env w') \<le> m (w_env w)"
  by (rotate_tac, induction rule: rtranclp_induct) (auto simp: main_within_def intro: order_trans)

lemma conn_steps: "(env_step (mn_conn M))\<^sup>*\<^sup>* e e' \<Longrightarrow> (main_step M)\<^sup>*\<^sup>* e e'"
  by (induction rule: rtranclp_induct) (auto intro: rtranclp.rtrancl_into_rtrancl step_conn)

lemma later_main: "later (mn_conn M) w w' \<Longrightarrow> main_later M w w'"
  by (simp add: later_def conn_steps)

lemma blocks_later:
  "main_later M w w' \<Longrightarrow> interface_wait_blocks M (w_env w') \<Longrightarrow> interface_wait_blocks M (w_env w)"
  "main_later M w w' \<Longrightarrow> join_blocks M (w_env w') \<Longrightarrow> join_blocks M (w_env w)"
  unfolding interface_wait_blocks_def join_blocks_def by (meson rtranclp_trans)+

lemma wait_blocks_main: "wait_blocks (mn_conn M) e \<Longrightarrow> interface_wait_blocks M e"
  unfolding wait_blocks_def interface_wait_blocks_def by (meson conn_steps)

lemma ask_main: "ask f w = (a, w') \<Longrightarrow> (\<And>e. main_step M e (snd (f e))) \<Longrightarrow> main_later M w w'"
  by (auto simp: ask_def split: prod.splits) (metis r_into_rtranclp snd_conv)

lemma ask_conn_main:
  "ask (ca_clock (mn_conn M)) w = (a1, w') \<Longrightarrow> main_later M w w'"
  "ask (ca_interface_down (mn_conn M)) w = (a2, w') \<Longrightarrow> main_later M w w'"
  "ask (ca_shutdown (mn_conn M)) w = (a3, w') \<Longrightarrow> main_later M w w'"
  by (erule ask_main, intro step_conn env_steps)+

lemma watch_pings_main: "main_later M w (watch_pings (mn_conn M) tmo a b w)"
  by (auto simp: watch_pings_def Let_def act_def split: prod.splits option.splits
      intro!: r_into_rtranclp step_conn step_ping_status)

text \<open>A turn up to the wait for the interface, and the wait.\<close>

lemma turn_start_parts:
  "\<exists>down w7 reg'. main_later M w w7 \<and>
     turn_start M tmo reg w = Option.bind (if down then wait_while_interface_down (mn_conn M) w7 else Some (True, w7))
       (\<lambda>(up, w). Some (up, reg', w))"
proof -
  obtain start w1 where 1: "ask (ca_clock (mn_conn M)) w = (start, w1)" by fastforce
  obtain evs w2 where 2: "ask (mn_loop_wait M) w1 = (evs, w2)" by fastforce
  define w3 where "w3 = on_conn (fold handle_main_event evs) w2"
  obtain stop w4 where 4: "ask (ca_clock (mn_conn M)) w3 = (stop, w4)" by fastforce
  define w5 where "w5 = watch_pings (mn_conn M) tmo start stop w4"
  obtain r w6 where 6: "(if \<not> reg then ask (registerWithSeshat (mn_seshat M) (get_parodus_cfg w5)) w5 else (True, w5)) = (r, w6)" by fastforce
  obtain down w7 where 7: "ask (ca_interface_down (mn_conn M)) w6 = (down, w7)" by fastforce
  have eq: "turn_start M tmo reg w = Option.bind (if down then wait_while_interface_down (mn_conn M) w7 else Some (True, w7))
       (\<lambda>(up, w). Some (up, r, w))"
    unfolding turn_start_def Let_def 1 2 prod.case w3_def [symmetric] 4 w5_def [symmetric] 6 7 ..
  have "main_later M w w1" by (rule ask_conn_main(1) [OF 1])
  also have "main_later M w1 w2" by (rule ask_main [OF 2 step_loop_wait])
  also have "main_later M w2 w4" using ask_conn_main(1) [OF 4] by (simp add: w3_def)
  also have "main_later M w4 w5" unfolding w5_def by (rule watch_pings_main)
  also have "main_later M w5 w6" using 6 ask_main [OF _ step_seshat] by (cases reg) auto
  also have "main_later M w6 w7" by (rule ask_conn_main(2) [OF 7])
  finally have l: "main_later M w w7" .
  with eq show ?thesis by blast
qed

lemma turn_start_ends:
  assumes "main_within M m" "\<not> interface_wait_blocks M (w_env w)"
  shows "\<exists>r. turn_start M tmo reg w = Some r"
proof -
  obtain down w7 r where 7: "main_later M w w7" "turn_start M tmo reg w =
      Option.bind (if down then wait_while_interface_down (mn_conn M) w7 else Some (True, w7)) (\<lambda>(up, w). Some (up, r, w))"
    using turn_start_parts [of M w tmo reg] by blast
  have "\<not> wait_blocks (mn_conn M) (w_env w7)" using blocks_later(1) [OF 7(1)] assms(2) wait_blocks_main [of M "w_env w7"] by blast
  moreover have "later (mn_conn M) w7 (set_global_conn None (close_and_unref_connection (mn_conn M) (get_global_conn w7) w7))"
    by (rule later_close)
  ultimately obtain r where "wait_while_interface_down (mn_conn M) w7 = Some r"
    using interface_wait_ends [OF main_within_conn [OF assms(1)],
        of "set_global_conn None (close_and_unref_connection (mn_conn M) (get_global_conn w7) w7)"]
      wait_blocks_later [of "mn_conn M" w7] unfolding wait_while_interface_down_def by blast
  then have "(if down then wait_while_interface_down (mn_conn M) w7 else Some (True, w7)) \<noteq> None" by (cases down) simp_all
  then have "turn_start M tmo reg w \<noteq> None" unfolding 7(2) by (cases down) (auto simp: split_beta)
  then show ?thesis by (simp only: not_None_eq)
qed

lemma turn_start_main:
  assumes "turn_start M tmo reg w = Some (up, reg', w')"
  shows "main_later M w w'"
proof -
  obtain down w7 r where 7: "main_later M w w7" "turn_start M tmo reg w =
      Option.bind (if down then wait_while_interface_down (mn_conn M) w7 else Some (True, w7)) (\<lambda>(up, w). Some (up, r, w))"
    using turn_start_parts [of M w tmo reg] by blast
  with assms have "(if down then wait_while_interface_down (mn_conn M) w7 else Some (True, w7)) = Some (up, w')"
    by (auto split: bind_splits)
  then have "later (mn_conn M) w7 w'" by (auto dest: wait_interface_later split: if_splits)
  with 7(1) show ?thesis using later_main by (blast intro: rtranclp_trans)
qed

lemma after_close_main: "main_later M w (after_close M w)"
proof -
  have "main_later M w (set_global_conn None (close_and_unref_connection (mn_conn M) (get_global_conn w) w))"
    by (rule later_main [OF later_close])
  then show ?thesis
    by (auto simp: after_close_def Let_def act_def intro: rtranclp.rtrancl_into_rtrancl step_sleep)
qed

lemma reconnect_main:
  assumes "servers_ok sl" "reconnect M has_ctx sl w = Some (Inr (sl', w'))"
  shows "servers_ok sl' \<and> main_later M w w'"
proof (cases "get_close_retry (cs_flags (w_conn w))")
  case True
  with assms(2) obtain b where "createNopollConnection (mn_conn M) has_ctx sl (after_close M w) = Some (Inr (b, sl', w'))"
    by (auto simp: reconnect_alt run_bind_Inr_iff)
  with create_end [OF assms(1), of "mn_conn M" "after_close M w" has_ctx]
  have "servers_ok sl'" "later (mn_conn M) (after_close M w) w'" by simp_all
  then show ?thesis using later_main after_close_main by (blast intro: rtranclp_trans)
qed (use assms in \<open>simp add: reconnect_alt\<close>)

lemma reconnect_ends:
  assumes "main_within M m" "servers_ok sl" "\<not> interface_wait_blocks M (w_env w)"
  shows "\<exists>r. reconnect M has_ctx sl w = Some r"
proof -
  have "\<not> wait_blocks (mn_conn M) (w_env (after_close M w))"
    using assms(3) wait_blocks_main [of M "w_env (after_close M w)"] blocks_later(1) [OF after_close_main [of M w]] by blast
  then obtain r where "createNopollConnection (mn_conn M) has_ctx sl (after_close M w) = Some r"
    using create_ends [OF main_within_conn [OF assms(1)] assms(2)] by blast
  then show ?thesis by (cases r) (auto simp: reconnect_alt split: prod.splits)
qed

lemma main_turn_ends:
  assumes "main_within M m" "servers_ok sl" "\<not> interface_wait_blocks M (w_env w)"
  shows "\<exists>r. main_turn M has_ctx tmo sl reg w = Some r"
    "main_turn M has_ctx tmo sl reg w = Some (Inr (go, sl', reg', w')) \<Longrightarrow>
       servers_ok sl' \<and> main_later M w w' \<and> (go \<longrightarrow> m (w_env w') < m (w_env w))"
proof -
  obtain up r1 w1 where 1: "turn_start M tmo reg w = Some (up, r1, w1)"
    using turn_start_ends [OF assms(1,3)] by (metis prod_cases3)
  note t = turn_start_main [OF 1]
  obtain r where r: "reconnect M has_ctx sl w1 = Some r"
    using reconnect_ends [OF assms(1,2)] assms(3) blocks_later(1) [OF t] by blast
  show "\<exists>r. main_turn M has_ctx tmo sl reg w = Some r"
    by (cases r) (auto simp: main_turn_def 1 r Let_def split: prod.splits)
  assume run: "main_turn M has_ctx tmo sl reg w = Some (Inr (go, sl', reg', w'))"
  show "servers_ok sl' \<and> main_later M w w' \<and> (go \<longrightarrow> m (w_env w') < m (w_env w))"
  proof (cases up)
    case True
    with run 1 r obtain sl2 w2 where 2: "reconnect M has_ctx sl w1 = Some (Inr (sl2, w2))"
      by (cases r) (auto simp: main_turn_def)
    note s = reconnect_main [OF assms(2) 2]
    obtain evs w3 where 3: "ask (mn_others M) w2 = (evs, w3)" by fastforce
    have "main_later M w2 w3" by (rule ask_main [OF 3 step_others])
    with t s have l3: "main_later M w w3" by (blast intro: rtranclp_trans)
    define w3' where "w3' = on_conn (fold handle_main_event evs) w3"
    have e: "w_env w3' = w_env w3" by (simp add: w3'_def)
    obtain stop w4 where 4: "ask (ca_shutdown (mn_conn M)) w3' = (stop, w4)" by fastforce
    have "m (w_env w4) < m (w_env w3)" if "\<not> stop"
      using shutdown_read [OF main_within_conn [OF assms(1)], of w3' w4] 4 that e by simp
    moreover have "main_later M w w4" using l3 ask_conn_main(3) [OF 4] e by (auto intro: rtranclp_trans)
    moreover have "m (w_env w3) \<le> m (w_env w)" by (rule main_later_measure [OF assms(1) l3])
    ultimately show ?thesis
      using s l3 run 1 2 3 4 True e by (auto simp: main_turn_def Let_def w3'_def [symmetric] split: if_splits)
  qed (use run 1 assms(2) t in \<open>simp add: main_turn_def\<close>)
qed

lemma main_loop_returns:
  assumes "main_within M m" "servers_ok sl" "\<not> interface_wait_blocks M (w_env w)"
  shows "\<exists>r. main_loop M has_ctx tmo sl reg w = Some r \<and> (\<forall>sl' w'. r = Inr (sl', w') \<longrightarrow> main_later M w w')"
  using assms(2,3)
proof (induction "m (w_env w)" arbitrary: sl reg w rule: less_induct)
  case less
  obtain r where r: "main_turn M has_ctx tmo sl reg w = Some r" using main_turn_ends(1) [OF assms(1) less.prems] by blast
  show ?case
  proof (cases r)
    case (Inr x)
    obtain go sl' reg' w' where x: "x = (go, sl', reg', w')" by (rule prod_cases4)
    with main_turn_ends(2) [OF assms(1) less.prems] r Inr
    have s: "servers_ok sl'" "main_later M w w'" "go \<longrightarrow> m (w_env w') < m (w_env w)" by blast+
    have nb: "\<not> interface_wait_blocks M (w_env w')" using less.prems(2) blocks_later(1) [OF s(2)] by blast
    from less.hyps [of w' sl' reg'] s nb
    have "go \<Longrightarrow> \<exists>r. main_loop M has_ctx tmo sl' reg' w' = Some r \<and> (\<forall>sl2 w2. r = Inr (sl2, w2) \<longrightarrow> main_later M w w2)"
      by (meson rtranclp_trans)
    then show ?thesis using s(2) by (subst main_loop.simps) (auto simp: r Inr x)
  qed (subst main_loop.simps, simp add: r)
qed

subsection \<open>Properties\<close>

text \<open>The connection, the loop and the end of the program.\<close>

lemma main_loop_ends:
  assumes "main_within M m" "\<not> interface_wait_blocks M (w_env w)" "\<not> join_blocks M (w_env w)"
  shows "(\<exists>f. createSocketConnection M server_list mt w = Some (Inl f)) \<or>
    (\<exists>w' mt' cl. createSocketConnection M server_list mt w = Some (Inr (w', mt', cl)) \<and> reg_list cl = [])"
proof -
  let ?api = "mn_conn M" and ?sl = "set_server_list_null server_list"
  obtain has_ctx w1 where 1: "ask (mn_ctx_new M) w = (has_ctx, w1)" by fastforce
  have l1: "main_later M w w1" by (rule ask_main [OF 1 step_ctx_new])
  have null: "servers_ok ?sl"
    by (simp add: set_server_list_null_def set_server_null_def servers_ok_def valid_server_def)
  have "\<not> wait_blocks ?api (w_env w1)" using assms(2) blocks_later(1) [OF l1] wait_blocks_main [of M "w_env w1"] by blast
  then obtain c where c: "createNopollConnection ?api has_ctx ?sl w1 = Some c"
    using create_ends [OF main_within_conn [OF assms(1)] null] by blast
  show ?thesis
  proof (cases c)
    case (Inr x)
    obtain b sl w2 where x: "x = (b, sl, w2)" by (rule prod_cases3)
    have ok: "servers_ok sl" "later ?api w1 w2" using create_end [OF null, of ?api w1 has_ctx] c Inr x by simp_all
    obtain reg w3 where 3: "ask (registerWithSeshat (mn_seshat M) (get_parodus_cfg w2)) w2 = (reg, w3)" by fastforce
    have l3: "main_later M w w3"
      using l1 later_main [OF ok(2)] ask_main [OF 3 step_seshat] by (blast intro: rtranclp_trans)
    define tmo where "tmo = 1000 * webpa_ping_timeout (get_parodus_cfg w)"
    obtain r where r: "main_loop M has_ctx tmo sl reg w3 = Some r" and l4: "\<And>sl' w'. r = Inr (sl', w') \<Longrightarrow> main_later M w3 w'"
      using main_loop_returns [OF assms(1) ok(1)] assms(2) blocks_later(1) [OF l3] by blast
    note steps = createSocketConnection_def Let_def 1 c Inr x 3 tmo_def [symmetric] r prod.case
    show ?thesis
    proof (cases "b \<and> runs r")
      case True
      then obtain sl4 w4 where 4: "r = Inr (sl4, w4)" by (cases r) auto
      have "main_later M w w4" using l3 l4 [OF 4] by (rule rtranclp_trans)
      then have "mn_join_threads M (w_env w4) \<noteq> None" using assms(3) unfolding join_blocks_def by metis
      with True 4 show ?thesis by (auto simp: steps ask_waiting_def deleteAllClients_def)
    next
      case False
      then show ?thesis by (cases b; cases r) (simp_all add: steps)
    qed
  qed (simp add: createSocketConnection_def 1 c Let_def)
qed

text \<open>A main thread with one close of the connection in each turn.\<close>

definition sample_seshat :: "nat seshat_api" where
  "sample_seshat = \<lparr> init_lib_seshat = (\<lambda>u e. (0, e)), seshat_register = (\<lambda>n u e. (0, e)),
     seshat_discover = (\<lambda>n e. (Some [], e)), shutdown_seshat_lib = (\<lambda>e. e) \<rparr>"

lemma sample_seshat_le: "snd (registerWithSeshat sample_seshat cfg e) \<le> e"
  by (rule seshat_le [where m = "\<lambda>e. e"]) (simp_all add: sample_seshat_def)

definition sample_main :: "(nat, nat) main_api" where
  "sample_main = \<lparr> mn_conn = sample_api, mn_ctx_new = (\<lambda>e. (True, e)),
     mn_loop_wait = (\<lambda>e. ([ConnClosed 1006 False], e)), mn_others = (\<lambda>e. ([], e)),
     mn_seshat = sample_seshat, mn_sleep = (\<lambda>n e. e), mn_pack_metadata = (\<lambda>l. (0, None)),
     mn_join_threads = (\<lambda>e. Some (one_client, e)) \<rparr>"

definition sample_meta :: meta where
  "sample_meta = \<lparr> metadataPack = [], metaPackSize = 0, appendEncodedData = (\<lambda>b n p k. (b, n)) \<rparr>"

text \<open>
  C17. Once a shutdown is requested, \<open>main\<close> comes to its end, whatever the arguments, the servers, the callbacks, the
  signals and the other threads do: it returns with no client left registered, or it aborts or faults on the way,
  unless it stays blocked in one of two waits in a state it can reach: a wait for the interface that is never woken
  (\<open>interface_wait_blocks\<close>), or the join of a thread that does not end (\<open>join_blocks\<close>).
\<close>

theorem main_ends:
  assumes "main_within M m"
  shows "(\<exists>f. main M git_tag env opts server_list mt w = Some (Inl f)) \<or>
    (\<exists>w' mt' cl. main M git_tag env opts server_list mt w = Some (Inr (w', mt', cl)) \<and> reg_list cl = []) \<or>
    interface_wait_blocks M (w_env w) \<or> join_blocks M (w_env w)"
proof -
  define w1 where "w1 = on_conn (\<lambda>s. s\<lparr>cs_shutdown_reason := Some SHUTDOWN_REASON_PARODUS_STOP\<rparr>) w"
  have "w_env (on_conn (\<lambda>s. s\<lparr>cs_cfg := cfg\<rparr>) w1) = w_env w" for cfg by (simp add: w1_def)
  with main_loop_ends [OF assms, of "on_conn (\<lambda>s. s\<lparr>cs_cfg := cfg\<rparr>) w1" for cfg] show ?thesis
    by (cases "main_config git_tag env opts") (auto simp: main_def w1_def [symmetric] Let_def)
qed

theorem main_ends_witness:
  "main_within sample_main (\<lambda>e. e) \<and> (\<forall>opts. (\<exists>f. main sample_main ''v1'' sample_env opts null_servers sample_meta sample_world = Some (Inl f)) \<or>
     (\<exists>w' mt' cl. main sample_main ''v1'' sample_env opts null_servers sample_meta sample_world = Some (Inr (w', mt', cl)) \<and>
       reg_list cl = []))"
proof -
  have c: "e' \<le> e" if "env_step sample_api e e'" for e e' :: nat
    using that by (cases rule: env_step.cases) (simp_all add: sample_api_def)
  have "e' \<le> e" if "main_step sample_main e e'" for e e' :: nat
    using that by (cases rule: main_step.cases) (auto simp: sample_main_def sample_seshat_le dest: c)
  then have "main_within sample_main (\<lambda>e. e)"
    by (auto simp: main_within_def) (simp add: sample_main_def sample_api_def)
  moreover have "\<not> interface_wait_blocks sample_main e" "\<not> join_blocks sample_main e" for e
    by (simp_all add: interface_wait_blocks_def join_blocks_def sample_main_def sample_api_def)
  ultimately show ?thesis using main_ends by blast
qed

text \<open>
  C18. After the first connection, a reconnect that returns has connected again, however many turns there were
  before: \<open>createNopollConnection\<close>, whose result the loop does not look at, has returned true, the state is that of a
  new connection and the reason of a disconnect request is cleared; and there is a connection, with no redirect
  server left, unless \<open>g_shutdown\<close> was read as true on the way. Whether the reconnect returns is not stated here: it
  faults when a shutdown is requested before its first attempt (\<open>shutdown_during_reconnect\<close> below), and it ends after
  a request for shutdown unless the wait for the interface blocks (\<open>create_ends\<close> of theory \<open>Connection_Loops\<close>).
\<close>

theorem reconnect_restores:
  assumes first: "createNopollConnection (mn_conn M) True (set_server_list_null servers) w0 = Some (Inr (True, sl0, w1))"
    and turns: "main_turns M tmo (sl0, reg0, w1\<lparr>w_env := e1\<rparr>) (sl, reg, w)"
    and turn: "turn_start M tmo reg w = Some (True, reg', w2)" "get_close_retry (cs_flags (w_conn w2))"
    and again: "reconnect M True sl w2 = Some (Inr (sl', w'))"
  shows "(\<exists>wc. get_global_conn wc = None \<and> createNopollConnection (mn_conn M) True sl wc = Some (Inr (True, sl', w'))) \<and>
    connected_state (w_conn w') \<and> cloud_disconnect (get_parodus_cfg w') = None \<and>
    server_addr (sl_defaults sl') \<noteq> None \<and>
    (get_global_conn w' \<noteq> None \<and> server_addr (sl_redirect sl') = None \<or>
     (\<exists>e. fst (ca_shutdown (mn_conn M) e) \<and> (env_step (mn_conn M))\<^sup>*\<^sup>* (snd (ca_shutdown (mn_conn M) e)) (w_env w')))"
proof -
  have null: "servers_ok (set_server_list_null servers)" "server_addr (sl_defaults (set_server_list_null servers)) = None"
    by (simp_all add: set_server_list_null_def set_server_null_def servers_ok_def valid_server_def)
  have "known_default sl0 w1" using create_known(1) [OF null(1) _ first] null(2) by simp
  then have "known_default sl0 (w1\<lparr>w_env := e1\<rparr>)" by (simp add: known_default_def get_parodus_cfg_def)
  from main_turns_known [OF turns this] have "known_default sl w" by simp
  then have "known_default sl w2" using turn_start_url [OF turn(1)] by (simp add: known_default_def)
  note r = reconnect_known [OF turn(2) this again]
  have "get_global_conn (after_close M w2) = None"
    by (simp add: after_close_def Let_def get_global_conn_def set_global_conn_def on_conn_def)
  with r show ?thesis unfolding shutdown_between_def known_default_def by blast
qed

theorem reconnect_restores_witness:
  "\<exists>sl0 w1 w2 sl' w'. createNopollConnection sample_api True null_servers sample_world = Some (Inr (True, sl0, w1)) \<and>
     turn_start sample_main 1000 True w1 = Some (True, True, w2) \<and> cs_reconnect_reason (w_conn w2) = ''SSL_Socket_Close'' \<and>
     reconnect sample_main True sl0 w2 = Some (Inr (sl', w')) \<and>
     connected_state (w_conn w') \<and> get_global_conn w' = Some 7"
proof -
  have "run_bind (createNopollConnection sample_api True null_servers sample_world) (\<lambda>(b, sl0, w1).
      run_bind (map_option Inr (turn_start sample_main 1000 True w1)) (\<lambda>(up, r, w2).
        run_bind (reconnect sample_main True sl0 w2) (\<lambda>(sl', w').
          Some (Inr (b \<and> up \<and> r \<and> get_close_retry (cs_flags (w_conn w2)) \<and>
            cs_reconnect_reason (w_conn w2) = ''SSL_Socket_Close'' \<and> cs_conn (w_conn w') = Some 7))))) = Some (Inr True)"
    by code_simp
  then obtain sl0 w1 w2 sl' w' where
    r: "createNopollConnection sample_api True null_servers sample_world = Some (Inr (True, sl0, w1))"
      "turn_start sample_main 1000 True w1 = Some (True, True, w2)" "get_close_retry (cs_flags (w_conn w2))"
      "cs_reconnect_reason (w_conn w2) = ''SSL_Socket_Close''"
      "reconnect sample_main True sl0 w2 = Some (Inr (sl', w'))" "get_global_conn w' = Some 7"
    unfolding run_bind_Inr_iff map_option_eq_Some split_paired_Ex prod.case get_global_conn_def option.inject sum.inject prod.inject eq_True by auto
  have n: "set_server_list_null null_servers = null_servers"
    by (simp add: set_server_list_null_def set_server_null_def null_servers_def null_server_def)
  have m: "mn_conn sample_main = sample_api" by (simp add: sample_main_def)
  have "main_turns sample_main 1000 (sl0, True, w1\<lparr>w_env := w_env w1\<rparr>) (sl0, True, w1)" by (simp add: begins)
  from reconnect_restores [of sample_main null_servers sample_world sl0 w1 1000 True "w_env w1" sl0 True w1,
      unfolded n m, OF r(1) this r(2,3,5)] r
  show ?thesis by blast
qed

subsection \<open>Signals\<close>

text \<open>
  After a signal that stops the program, other than the four it ignores, the interface is no longer taken to be
  down and the connection is closed with the reason that belongs to the signal.
\<close>

lemma signal_stops:
  assumes "sig_handler sig (s, False) = (s', True)"
  shows "\<not> get_interface_down_event (cs_flags s') \<and> cs_shutdown_reason s' = Some
    (if sig = SIGTERM then SHUTDOWN_REASON_SIGTERM else if sig = SIGUSR1 then SHUTDOWN_REASON_SYSTEM_RESTART
     else SHUTDOWN_REASON_PARODUS_STOP)"
  using assms by (cases sig) (auto simp: sig_handler_def shutdownSocketConnection_def reset_interface_down_event_def
      get_interface_down_event_def)

subsection \<open>What goes wrong\<close>

text \<open>
  A shutdown that is requested in a turn that reconnects: the current server of the new context is read through a
  null pointer.
\<close>

lemma shutdown_during_reconnect:
  "createSocketConnection sample_main null_servers sample_meta (sample_world\<lparr>w_env := 8\<rparr>) = Some (Inl NullDeref)"
proof -
  have "(case createSocketConnection sample_main null_servers sample_meta (sample_world\<lparr>w_env := 8\<rparr>) of
      Some (Inl f) \<Rightarrow> f = NullDeref | _ \<Rightarrow> False)"
    by code_simp
  then show ?thesis by (simp split: option.splits sum.splits)
qed

text \<open>
  A disconnect request that arrives between the reconnect and the test of the loop: the loop ends though no
  shutdown was requested.
\<close>

lemma request_ends_loop:
  assumes "turn_start M tmo reg w = Some (True, reg', w1)" "\<not> get_close_retry (cs_flags (w_conn w1))"
    and "ask (mn_others M) w1 = ([CloudDisconnect reason], w2)"
  shows "\<exists>w'. main_turn M has_ctx tmo sl reg w = Some (Inr (False, sl, reg', w'))"
  using assms by (auto simp: main_turn_def reconnect_alt on_conn_def disconnect_requested_def Let_def
      get_close_retry_def set_close_retry_def dest!: ask_keeps)

text \<open>
  The threads end only when \<open>g_shutdown\<close> is set (here: when it is read as true), so after such a request the program
  waits for them forever.
\<close>

lemma request_joins_forever:
  "createSocketConnection (sample_main\<lparr>mn_loop_wait := \<lambda>e. ([], e), mn_others := \<lambda>e. ([CloudDisconnect ''reason''], e),
       mn_join_threads := \<lambda>e. if fst (ca_shutdown sample_api e) then Some (one_client, e) else None\<rparr>)
     null_servers sample_meta sample_world = None"
proof -
  have "(case createSocketConnection (sample_main\<lparr>mn_loop_wait := \<lambda>e. ([], e), mn_others := \<lambda>e. ([CloudDisconnect ''reason''], e),
       mn_join_threads := \<lambda>e. if fst (ca_shutdown sample_api e) then Some (one_client, e) else None\<rparr>)
     null_servers sample_meta sample_world of None \<Rightarrow> True | _ \<Rightarrow> False)"
    by code_simp
  then show ?thesis by (simp split: option.splits)
qed

text \<open>The request is what the CRUD thread does.\<close>

lemma disconnect_requested_crud:
  assumes "st_cfg st = cs_cfg s" "st_flags st = cs_flags s" "reconnect_reason st = cs_reconnect_reason s"
    "reconnect_status st = cs_reconnect_status s"
    and "ConnDisconnectFromCloud reason (st\<lparr>st_cfg := set_cloud_disconnect_reason (st_cfg st) reason\<rparr>) = (r, st')"
  shows "cs_cfg (disconnect_requested reason s) = st_cfg st'" "cs_flags (disconnect_requested reason s) = st_flags st'"
    "cs_reconnect_reason (disconnect_requested reason s) = reconnect_reason st'"
    "cs_reconnect_status (disconnect_requested reason s) = reconnect_status st'"
  using assms by (auto simp: disconnect_requested_def ConnDisconnectFromCloud_def Let_def split: if_splits)

end
