(* ===== verification/Interface_Wait.thy ===== *)
theory Interface_Wait
  imports Timers
begin

text \<open>
  The wait for the interface and the shutdown that should end it, as two threads: \<open>wait_while_interface_down\<close> of
  \<^verbatim>\<open>connection.c\<close> and \<open>shutdownSocketConnection\<close> of \<^verbatim>\<open>conn_interface.c\<close> with \<open>reset_interface_down_event\<close> of
  \<^verbatim>\<open>ParodusInternal.c\<close>. Each critical section of \<open>interface_down_mut\<close> is one step. The flag is tested in one section and
  the wait begins in another, so the other thread may run in between; a signal that finds no thread in the wait
  is lost.

  Theory \<open>Connection\<close> has the same loop on the world of the connecting thread, where the wait that is never woken is
  the value \<open>None\<close> of \<open>ca_interface_wait\<close>; here it is shown when that happens.
\<close>

subsection \<open>The two threads\<close>

datatype waiter_pc = TestFlag | EnterWait | InWait | Awake | WaitReturned bool

datatype stopper_pc = SetShutdown | ResetFlag | StopperDone

record iw_state =
  iw_flags :: flags
  iw_shutdown :: bool
  iw_waiter :: waiter_pc
  iw_stopper :: stopper_pc

text \<open>
  A step of the thread that waits, \<open>None\<close> where it has none: testing the flag, entering the wait, and looking at
  \<open>g_shutdown\<close> after it was woken (\<^verbatim>\<open>pthread_cond_wait\<close> returns \<open>0\<close>). The result is whether the function returns \<open>0\<close>.
\<close>

definition waiter_do :: "iw_state \<Rightarrow> iw_state option" where
  "waiter_do s =
     (case iw_waiter s of
        TestFlag \<Rightarrow> Some (s\<lparr>iw_waiter := if get_interface_down_event (iw_flags s) then EnterWait else WaitReturned True\<rparr>)
      | EnterWait \<Rightarrow> Some (s\<lparr>iw_waiter := InWait\<rparr>)
      | InWait \<Rightarrow> None
      | Awake \<Rightarrow> Some (s\<lparr>iw_waiter := if iw_shutdown s then WaitReturned False else TestFlag\<rparr>)
      | WaitReturned b \<Rightarrow> None)"

text \<open>A signal of \<open>interface_down_con\<close>.\<close>

definition signal_wait :: "iw_state \<Rightarrow> iw_state" where
  "signal_wait s = (if iw_waiter s = InWait then s\<lparr>iw_waiter := Awake\<rparr> else s)"

text \<open>A step of the thread that shuts down: \<open>g_shutdown\<close>, and the reset of the flag with its signal.\<close>

definition stopper_do :: "iw_state \<Rightarrow> iw_state option" where
  "stopper_do s =
     (case iw_stopper s of
        SetShutdown \<Rightarrow> Some (s\<lparr>iw_shutdown := True, iw_stopper := ResetFlag\<rparr>)
      | ResetFlag \<Rightarrow> Some (signal_wait (s\<lparr>iw_flags := reset_interface_down_event (iw_flags s), iw_stopper := StopperDone\<rparr>))
      | StopperDone \<Rightarrow> None)"

datatype iw_act = WaiterStep | StopperStep | SpuriousWake

fun iw_do :: "iw_act \<Rightarrow> iw_state \<Rightarrow> iw_state option" where
  "iw_do WaiterStep s = waiter_do s"
| "iw_do StopperStep s = stopper_do s"
| "iw_do SpuriousWake s = (if iw_waiter s = InWait then Some (s\<lparr>iw_waiter := Awake\<rparr>) else None)"

fun iw_run :: "iw_act list \<Rightarrow> iw_state \<Rightarrow> iw_state option" where
  "iw_run [] s = Some s"
| "iw_run (a # as) s = Option.bind (iw_do a s) (iw_run as)"

definition iw_start :: "flags \<Rightarrow> iw_state" where
  "iw_start fl = \<lparr> iw_flags = fl, iw_shutdown = False, iw_waiter = TestFlag, iw_stopper = SetShutdown \<rparr>"

subsection \<open>What the shutdown leaves\<close>

text \<open>\<open>g_shutdown\<close> is set before the flag is reset, and the flag stays reset.\<close>

definition iw_inv :: "iw_state \<Rightarrow> bool" where
  "iw_inv s \<longleftrightarrow> (iw_stopper s \<noteq> SetShutdown \<longrightarrow> iw_shutdown s) \<and>
     (iw_stopper s = StopperDone \<longrightarrow> \<not> get_interface_down_event (iw_flags s))"

lemma iw_do_inv: "iw_do a s = Some s' \<Longrightarrow> iw_inv s \<Longrightarrow> iw_inv s'"
  by (cases a) (auto simp: iw_inv_def waiter_do_def stopper_do_def signal_wait_def reset_interface_down_event_def
      get_interface_down_event_def split: waiter_pc.splits stopper_pc.splits if_splits)

lemma iw_run_inv: "iw_run as s = Some s' \<Longrightarrow> iw_inv s \<Longrightarrow> iw_inv s'"
  by (induction as arbitrary: s) (auto split: bind_splits intro: iw_do_inv)

lemma iw_start_inv: "iw_inv (iw_start fl)"
  by (simp add: iw_inv_def iw_start_def)

text \<open>After the shutdown a thread outside the wait returns with its next step, and one about to enter stays there.\<close>

lemma iw_done_step:
  assumes "iw_do a s = Some s'" "iw_inv s" "iw_stopper s = StopperDone"
  shows "iw_stopper s' = StopperDone" "a \<noteq> SpuriousWake \<Longrightarrow> a = WaiterStep"
    "iw_waiter s \<in> {TestFlag, Awake} \<Longrightarrow> \<exists>b. iw_waiter s' = WaitReturned b"
    "a \<noteq> SpuriousWake \<Longrightarrow> iw_waiter s \<in> {EnterWait, InWait} \<Longrightarrow> iw_waiter s' = InWait"
    "iw_waiter s \<noteq> WaitReturned b"
  using assms by (cases a; auto simp: iw_inv_def waiter_do_def stopper_do_def split: waiter_pc.splits if_splits)+

lemma returned_stays: "iw_run as s = Some s' \<Longrightarrow> iw_inv s \<Longrightarrow> iw_stopper s = StopperDone \<Longrightarrow> iw_waiter s = WaitReturned b \<Longrightarrow> s' = s"
  by (cases as) (auto split: bind_splits dest: iw_done_step(5))

lemma iw_blocked: "iw_stopper s = StopperDone \<Longrightarrow> iw_waiter s = InWait \<Longrightarrow> a \<noteq> SpuriousWake \<Longrightarrow> iw_do a s = None"
  by (cases a) (simp_all add: waiter_do_def stopper_do_def)

lemma waiting_stays:
  assumes "iw_run as s = Some s'" "iw_inv s" "iw_stopper s = StopperDone" "SpuriousWake \<notin> set as" "iw_waiter s = InWait"
  shows "s' = s"
  using assms iw_blocked [of s "hd as"] by (cases as) auto

text \<open>
  C16. The signal of the shutdown ends the wait for the interface, unless it is sent between the test of the flag
  and the beginning of the wait: then the thread waits, and nothing wakes it any more but a spurious wake-up.
  This holds for every interleaving of the two threads, before and after the signal.
\<close>

theorem shutdown_wakes_wait:
  assumes "iw_run as (iw_start fl) = Some s" "iw_stopper s = ResetFlag"
    and "iw_run (StopperStep # bs) s = Some s'" "WaiterStep \<in> set bs" "SpuriousWake \<notin> set bs"
  shows "if iw_waiter s = EnterWait then iw_waiter s' = InWait \<and> (\<forall>a. a \<noteq> SpuriousWake \<longrightarrow> iw_do a s' = None)
    else \<exists>b. iw_waiter s' = WaitReturned b"
proof -
  obtain s1 where s1: "iw_do StopperStep s = Some s1" "iw_run bs s1 = Some s'"
    using assms(3) by (auto split: bind_splits)
  have i: "iw_inv s1" using iw_do_inv [OF s1(1) iw_run_inv [OF assms(1) iw_start_inv]] .
  have d: "iw_stopper s1 = StopperDone" and w: "iw_waiter s1 = (if iw_waiter s = InWait then Awake else iw_waiter s)"
    using s1(1) assms(2) by (auto simp: stopper_do_def signal_wait_def)
  obtain b cs where bs: "bs = b # cs" using assms(4) by (cases bs) auto
  with s1(2) obtain s2 where s2: "iw_do b s1 = Some s2" "iw_run cs s2 = Some s'" by (auto split: bind_splits)
  note step = iw_done_step [OF s2(1) i d]
  have b: "b \<noteq> SpuriousWake" "SpuriousWake \<notin> set cs" using assms(5) bs by auto
  note rest = iw_do_inv [OF s2(1) i] step(1)
  show ?thesis
  proof (cases "iw_waiter s = EnterWait")
    case True
    then have "iw_waiter s2 = InWait" using step(4) b(1) w by simp
    with waiting_stays [OF s2(2) rest b(2)] rest True show ?thesis
      by (simp add: iw_blocked)
  next
    case False
    then have "iw_waiter s1 \<in> {TestFlag, Awake}" using w step(5) by (cases "iw_waiter s") auto
    from step(3) [OF this] obtain r where "iw_waiter s2 = WaitReturned r" ..
    with returned_stays [OF s2(2) rest] False show ?thesis by simp
  qed
qed

text \<open>The two cases: the signal between the test and the wait, and the signal during the wait.\<close>

definition down_flags :: flags where
  "down_flags = \<lparr> heartBeatTimer = 0, paused = False, close_retry = False, interface_down_event = True \<rparr>"

theorem shutdown_wakes_wait_witness:
  "(\<exists>s s'. iw_run [WaiterStep, StopperStep] (iw_start down_flags) = Some s \<and>
      iw_run [StopperStep, WaiterStep] s = Some s' \<and> iw_waiter s' = InWait \<and> iw_do WaiterStep s' = None) \<and>
   (\<exists>s s' b. iw_run [WaiterStep, WaiterStep, StopperStep] (iw_start down_flags) = Some s \<and>
      iw_run [StopperStep, WaiterStep] s = Some s' \<and> iw_waiter s' = WaitReturned b)"
proof -
  define lost where "lost = \<lparr> iw_flags = down_flags, iw_shutdown = True, iw_waiter = EnterWait, iw_stopper = ResetFlag \<rparr>"
  define seen where "seen = \<lparr> iw_flags = down_flags, iw_shutdown = True, iw_waiter = InWait, iw_stopper = ResetFlag \<rparr>"
  have d: "get_interface_down_event down_flags" by (simp add: down_flags_def get_interface_down_event_def)
  have 1: "iw_run [WaiterStep, StopperStep] (iw_start down_flags) = Some lost"
    by (simp add: iw_start_def lost_def waiter_do_def stopper_do_def d)
  have 2: "iw_run [WaiterStep, WaiterStep, StopperStep] (iw_start down_flags) = Some seen"
    by (simp add: iw_start_def seen_def waiter_do_def stopper_do_def d)
  have r: "\<exists>s'. iw_run [StopperStep, WaiterStep] s = Some s'" if "s = lost \<or> s = seen" for s
    using that by (auto simp: lost_def seen_def waiter_do_def stopper_do_def signal_wait_def)
  obtain a b where ab: "iw_run [StopperStep, WaiterStep] lost = Some a" "iw_run [StopperStep, WaiterStep] seen = Some b"
    using r by blast
  from shutdown_wakes_wait [OF 1 _ ab(1)] shutdown_wakes_wait [OF 2 _ ab(2)] 1 2 ab show ?thesis
    by (auto simp: lost_def seen_def)
qed

end
