(* ===== verification/Mutex.thy ===== *)
theory Mutex
  imports Parodus_Prelude
begin

text \<open>
  \<^verbatim>\<open>mutex.c\<close>: the four callbacks through which the nopoll library makes and uses its mutexes. They are recursive POSIX
  mutexes: the thread that holds one may lock it again, and each lock needs an unlock of its own.

  A mutex is its owner with the depth of its locks; the heap maps addresses to the mutexes that exist. A thread
  that has to wait is the value \<open>None\<close>; a mutex that does not exist is a fault. The error codes of the
  library are values of \<open>posix\<close>; the callbacks only log them.
\<close>

record mutex =
  mx_owner :: nat
  mx_depth :: nat

type_synonym mutexes = "nat \<Rightarrow> mutex option"

datatype posix = Success | EPERM | EBUSY

subsection \<open>POSIX mutexes\<close>

text \<open>\<^verbatim>\<open>pthread_mutex_lock\<close> of a recursive mutex by thread \<open>t\<close>.\<close>

definition pthread_mutex_lock :: "nat \<Rightarrow> mutex \<Rightarrow> mutex option" where
  "pthread_mutex_lock t m =
     (if mx_depth m = 0 then Some \<lparr> mx_owner = t, mx_depth = 1 \<rparr>
      else if mx_owner m = t then Some (m\<lparr>mx_depth := mx_depth m + 1\<rparr>)
      else None)"

definition pthread_mutex_unlock :: "nat \<Rightarrow> mutex \<Rightarrow> posix \<times> mutex" where
  "pthread_mutex_unlock t m =
     (if mx_depth m \<noteq> 0 \<and> mx_owner m = t then (Success, m\<lparr>mx_depth := mx_depth m - 1\<rparr>) else (EPERM, m))"

definition pthread_mutex_destroy :: "mutex \<Rightarrow> posix" where
  "pthread_mutex_destroy m = (if mx_depth m = 0 then Success else EBUSY)"

subsection \<open>The callbacks\<close>

text \<open>\<open>a\<close> is the result of \<^verbatim>\<open>malloc\<close> and \<open>rtn\<close> the one of \<^verbatim>\<open>pthread_mutex_init\<close>.\<close>

definition createMutex :: "nat option \<Rightarrow> int \<Rightarrow> mutexes \<Rightarrow> nat option \<times> mutexes" where
  "createMutex a rtn h =
     (case a of
        None \<Rightarrow> (None, h)
      | Some a \<Rightarrow> if rtn \<noteq> 0 then (None, h) else (Some a, h(a \<mapsto> \<lparr> mx_owner = 0, mx_depth = 0 \<rparr>)))"

definition lockMutex :: "nat \<Rightarrow> nat option \<Rightarrow> mutexes \<Rightarrow> (fault + mutexes) option" where
  "lockMutex t mutex h =
     (case mutex of
        None \<Rightarrow> Some (Inr h)
      | Some a \<Rightarrow>
          (case h a of
             None \<Rightarrow> Some (Inl UninitRead)
           | Some m \<Rightarrow> map_option (\<lambda>m. Inr (h(a \<mapsto> m))) (pthread_mutex_lock t m)))"

definition unlockMutex :: "nat \<Rightarrow> nat option \<Rightarrow> mutexes \<Rightarrow> (fault + mutexes) option" where
  "unlockMutex t mutex h =
     (case mutex of
        None \<Rightarrow> Some (Inr h)
      | Some a \<Rightarrow>
          (case h a of
             None \<Rightarrow> Some (Inl UninitRead)
           | Some m \<Rightarrow> Some (Inr (h(a \<mapsto> snd (pthread_mutex_unlock t m))))))"

text \<open>A mutex that is locked is neither destroyed nor released.\<close>

definition destroyMutex :: "nat option \<Rightarrow> mutexes \<Rightarrow> fault + mutexes" where
  "destroyMutex mutex h =
     (case mutex of
        None \<Rightarrow> Inr h
      | Some a \<Rightarrow>
          (case h a of
             None \<Rightarrow> Inl UninitRead
           | Some m \<Rightarrow> if pthread_mutex_destroy m \<noteq> Success then Inr h else Inr (h(a := None))))"

subsection \<open>Threads that lock and unlock\<close>

datatype mutex_call = LockCall nat "nat option" | UnlockCall nat "nat option"

fun mutex_do :: "mutex_call \<Rightarrow> mutexes \<Rightarrow> (fault + mutexes) option" where
  "mutex_do (LockCall t p) h = lockMutex t p h"
| "mutex_do (UnlockCall t p) h = unlockMutex t p h"

fun mutex_calls :: "mutex_call list \<Rightarrow> mutexes \<Rightarrow> (fault + mutexes) option" where
  "mutex_calls [] h = Some (Inr h)"
| "mutex_calls (c # cs) h =
     (case mutex_do c h of None \<Rightarrow> None | Some (Inl f) \<Rightarrow> Some (Inl f) | Some (Inr h') \<Rightarrow> mutex_calls cs h')"

text \<open>The locks of the mutex \<open>a\<close> by thread \<open>t\<close> that it has not undone; an unlock without a lock is ignored.\<close>

fun held :: "nat \<Rightarrow> nat \<Rightarrow> mutex_call list \<Rightarrow> nat \<Rightarrow> nat" where
  "held a t [] n = n"
| "held a t (LockCall u p # cs) n = held a t cs (if u = t \<and> p = Some a then n + 1 else n)"
| "held a t (UnlockCall u p # cs) n = held a t cs (if u = t \<and> p = Some a then n - 1 else n)"

definition holds :: "mutex \<Rightarrow> nat \<Rightarrow> nat" where
  "holds m t = (if mx_owner m = t then mx_depth m else 0)"

lemma lock_holds:
  assumes "pthread_mutex_lock t m = Some m'"
  shows "holds m' u = (if u = t then holds m u + 1 else holds m u)"
proof (cases "mx_depth m = 0")
  case True
  with assms have "m' = \<lparr> mx_owner = t, mx_depth = 1 \<rparr>" by (simp add: pthread_mutex_lock_def)
  with True show ?thesis by (simp add: holds_def)
next
  case False
  with assms have "mx_owner m = t" "m' = m\<lparr>mx_depth := mx_depth m + 1\<rparr>"
    by (simp_all add: pthread_mutex_lock_def split: if_splits)
  then show ?thesis by (simp add: holds_def)
qed

lemma unlock_holds: "holds (snd (pthread_mutex_unlock t m)) u = (if u = t then holds m u - 1 else holds m u)"
  by (simp add: pthread_mutex_unlock_def holds_def)

lemma holds_one: "t \<noteq> u \<Longrightarrow> holds m t = 0 \<or> holds m u = 0"
  by (auto simp: holds_def)

lemma mutex_do_held:
  assumes "mutex_do c h = Some (Inr h')" "h a = Some m"
  shows "\<exists>m'. h' a = Some m' \<and> (\<forall>t. holds m' t = held a t [c] (holds m t))"
proof (cases c)
  case (LockCall u p)
  show ?thesis
  proof (cases "p = Some a")
    case True
    with LockCall assms obtain m' where "pthread_mutex_lock u m = Some m'" "h' = h(a \<mapsto> m')"
      by (auto simp: lockMutex_def)
    with lock_holds [of u m m'] LockCall True show ?thesis by simp
  next
    case False
    with LockCall assms have "h' a = Some m" by (auto simp: lockMutex_def split: option.splits)
    with LockCall False show ?thesis by simp
  qed
next
  case (UnlockCall u p)
  show ?thesis
  proof (cases "p = Some a")
    case True
    with UnlockCall assms have "h' = h(a \<mapsto> snd (pthread_mutex_unlock u m))" by (auto simp: unlockMutex_def)
    with UnlockCall True show ?thesis by (simp add: unlock_holds)
  next
    case False
    with UnlockCall assms have "h' a = Some m" by (auto simp: unlockMutex_def split: option.splits)
    with UnlockCall False show ?thesis by simp
  qed
qed

lemma held_Cons: "held a t (c # cs) n = held a t cs (held a t [c] n)"
  by (cases c) simp_all

text \<open>
  Whatever the threads do, what a mutex says of its owner is the number of locks that the thread has not undone.
\<close>

lemma mutex_calls_held:
  "mutex_calls cs h = Some (Inr h') \<Longrightarrow> h a = Some m \<Longrightarrow>
     \<exists>m'. h' a = Some m' \<and> (\<forall>t. holds m' t = held a t cs (holds m t))"
proof (induction cs arbitrary: h m)
  case (Cons c cs)
  then obtain h1 where h1: "mutex_do c h = Some (Inr h1)" "mutex_calls cs h1 = Some (Inr h')"
    by (auto split: option.splits sum.splits)
  obtain m1 where m1: "h1 a = Some m1" "\<And>t. holds m1 t = held a t [c] (holds m t)"
    using mutex_do_held [OF h1(1) Cons.prems(2)] by blast
  from Cons.IH [OF h1(2) m1(1)] show ?case by (simp only: held_Cons [of a _ c cs] m1(2))
qed simp

lemma holder_excludes:
  assumes "0 < holds m t" "h a = Some m"
  shows "u \<noteq> t \<Longrightarrow> lockMutex u (Some a) h = None"
    "\<exists>h'. lockMutex t (Some a) h = Some (Inr h') \<and> unlockMutex t (Some a) h' = Some (Inr h)"
proof -
  have m: "mx_owner m = t" "mx_depth m \<noteq> 0" using assms(1) by (auto simp: holds_def split: if_splits)
  show "u \<noteq> t \<Longrightarrow> lockMutex u (Some a) h = None"
    using assms(2) m by (simp add: lockMutex_def pthread_mutex_lock_def)
  have "lockMutex t (Some a) h = Some (Inr (h(a \<mapsto> m\<lparr>mx_depth := mx_depth m + 1\<rparr>)))"
    using assms(2) m by (simp add: lockMutex_def pthread_mutex_lock_def)
  moreover have "unlockMutex t (Some a) (h(a \<mapsto> m\<lparr>mx_depth := mx_depth m + 1\<rparr>)) = Some (Inr (h(a \<mapsto> m)))"
    using m by (simp add: unlockMutex_def pthread_mutex_unlock_def)
  ultimately show "\<exists>h'. lockMutex t (Some a) h = Some (Inr h') \<and> unlockMutex t (Some a) h' = Some (Inr h)"
    using assms(2) by (metis fun_upd_triv)
qed

subsection \<open>Properties\<close>

text \<open>
  A mutex that the library got from \<open>createMutex\<close> excludes: after any calls of any threads at most one thread has
  locks it has not undone, another thread that locks has to wait, and the thread itself can lock again and come
  back to the same state with one unlock.
\<close>

lemma mutex_excludes:
  assumes "createMutex (Some a) 0 h0 = (p, h)" "mutex_calls cs h = Some (Inr h')"
  shows "(\<forall>t u. t \<noteq> u \<longrightarrow> held a t cs 0 = 0 \<or> held a u cs 0 = 0) \<and>
    (\<forall>t. 0 < held a t cs 0 \<longrightarrow>
      (\<forall>u. u \<noteq> t \<longrightarrow> lockMutex u p h' = None) \<and>
      (\<exists>h''. lockMutex t p h' = Some (Inr h'') \<and> unlockMutex t p h'' = Some (Inr h')))"
proof -
  have p: "p = Some a" "h a = Some \<lparr> mx_owner = 0, mx_depth = 0 \<rparr>" using assms(1) by (auto simp: createMutex_def)
  from mutex_calls_held [OF assms(2) p(2)] obtain m where
    m: "h' a = Some m" "\<And>t. held a t cs 0 = holds m t" by (auto simp: holds_def)
  show ?thesis unfolding m(2) p(1) using holder_excludes [where m = m and h = h' and a = a] m(1) holds_one [of _ _ m] by blast
qed

lemma mutex_excludes_witness:
  "\<exists>h'. mutex_calls [LockCall 1 (Some 5), LockCall 1 (Some 5), UnlockCall 2 (Some 5), UnlockCall 1 (Some 5)]
      (Map.empty(5 \<mapsto> \<lparr> mx_owner = 0, mx_depth = 0 \<rparr>)) = Some (Inr h') \<and> lockMutex 2 (Some 5) h' = None"
proof -
  let ?cs = "[LockCall 1 (Some 5), LockCall 1 (Some 5), UnlockCall 2 (Some 5), UnlockCall 1 (Some 5)]"
  have c: "createMutex (Some 5) 0 Map.empty = (Some 5, Map.empty(5 \<mapsto> \<lparr> mx_owner = 0, mx_depth = 0 \<rparr>))"
    by (simp add: createMutex_def)
  have "\<exists>h'. mutex_calls ?cs (Map.empty(5 \<mapsto> \<lparr> mx_owner = 0, mx_depth = 0 \<rparr>)) = Some (Inr h')"
    by (simp add: lockMutex_def unlockMutex_def pthread_mutex_lock_def pthread_mutex_unlock_def)
  then obtain h' where h: "mutex_calls ?cs (Map.empty(5 \<mapsto> \<lparr> mx_owner = 0, mx_depth = 0 \<rparr>)) = Some (Inr h')" ..
  have "lockMutex 2 (Some 5) h' = None" using mutex_excludes [OF c h] by (auto dest: spec [of _ 1])
  with h show ?thesis by blast
qed

text \<open>
  A mutex is released exactly when it is not locked; one that is locked stays and can still be unlocked.
\<close>

lemma destroy_locked:
  assumes "h a = Some m"
  shows "destroyMutex (Some a) h = Inr (if mx_depth m = 0 then h(a := None) else h)"
  using assms by (simp add: destroyMutex_def pthread_mutex_destroy_def)

end
