(* ===== verification/System.thy ===== *)
theory System
  imports Upstream Crud_Props
begin

text \<open>
  The threads together: \<open>messageHandlerTask\<close>, \<open>CRUDHandlerTask\<close>, \<open>processUpstreamMessage\<close> and
  \<open>serviceAliveTask\<close> over the three queues and the data they share, with the main thread and the
  receiving threads as their environment.

  A state holds, for each queue, the queue and its consumer (\<open>pc_state\<close> of theory \<open>Msg_Queue\<close>), the
  local variables of the upstream thread and the shared data: \<open>crud_state\<close> with the configuration, the
  file, the flags and the clients, and the packed metadata. \<open>sys_do\<close> carries out one action: a critical
  section of a queue, or the handling of the message a consumer holds, which is one step with all its
  effects. Any thread may act at any time. What the main thread writes, and what the sockets deliver, is
  arbitrary. The log records what arrived and what was handled; it is read by no step.
\<close>

subsection \<open>The state\<close>

type_synonym 'n down_msg = "('n, string option) ParodusMsg"

datatype 'n sys_event =
    DownArrived "'n down_msg"
  | ClientSent "string UpStreamMsg"
  | DownHandled "'n down_msg" "effect list"
  | CrudHandled wrp_crud int crud_msg      \<comment> \<open>the request, the return value and the response\<close>
  | UpHandled "string UpStreamMsg" "effect list"

record 'n sys =
  sy_down :: "'n down_msg pc_state"
  sy_crud :: "wrp_crud pc_state"
  sy_up :: "string UpStreamMsg pc_state"
  sy_locals :: up_locals
  sy_store :: crud_state
  sy_meta :: meta
  sy_log :: "'n sys_event list"

text \<open>The libraries, the acknowledgement and the keep-alive message, which is encoded once.\<close>

record 'e sys_env =
  se_json :: cjson_api
  se_wrp :: up_wrp
  se_nn :: "'e nn_api"
  se_auth :: encoded
  se_alive :: "int \<times> string"
  se_encode_down :: "down_resp \<Rightarrow> encoded"
  se_encode_crud :: "crud_msg \<Rightarrow> encoded"

definition sys_down_env :: "'e sys_env \<Rightarrow> 'n sys \<Rightarrow> down_env" where
  "sys_down_env E s = \<lparr> de_json = se_json E, de_encode = se_encode_down E, de_meta = sy_meta s,
     de_cfg = st_cfg (sy_store s), de_flags = st_flags (sy_store s), de_clients = st_clients (sy_store s) \<rparr>"

definition sys_up_env :: "'e sys_env \<Rightarrow> 'n sys \<Rightarrow> 'e up_env" where
  "sys_up_env E s = \<lparr> ue_wrp = se_wrp E, ue_nn = se_nn E, ue_auth = se_auth E, ue_meta = sy_meta s,
     ue_cfg = st_cfg (sy_store s), ue_flags = st_flags (sy_store s) \<rparr>"

definition sys_init :: "crud_state \<Rightarrow> meta \<Rightarrow> 'n sys" where
  "sys_init st mt = \<lparr> sy_down = pc_init, sy_crud = pc_init, sy_up = pc_init,
     sy_locals = \<lparr> msg_uninit = True, bytes_uninit = True \<rparr>,
     sy_store = st\<lparr>st_clients := \<lparr> reg_list = [], numOfClients = 0 \<rparr>\<rparr>, sy_meta = mt, sy_log = [] \<rparr>"

subsection \<open>Producers\<close>

text \<open>A message is appended, the consumer woken if the queue was empty; the address must be unused.\<close>

definition queue_put :: "nat \<Rightarrow> 'm \<Rightarrow> 'm pc_state \<Rightarrow> 'm pc_state option" where
  "queue_put a m p =
     (if q_cells (pc_q p) a \<noteq> None then None
      else map_option (\<lambda>(q, sig).
        p\<lparr>pc_q := q, pc_consumer := (if sig then wake (pc_consumer p) else pc_consumer p),
          pc_produced := pc_produced p @ [m]\<rparr>) (q_add a m (pc_q p)))"

fun put_all :: "nat list \<Rightarrow> 'm list \<Rightarrow> 'm pc_state \<Rightarrow> 'm pc_state option" where
  "put_all [] [] p = Some p"
| "put_all (a # as) (m # ms) p = Option.bind (queue_put a m p) (put_all as ms)"
| "put_all _ _ p = None"

text \<open>The requests among the effects of a handler.\<close>

definition queued :: "effect list \<Rightarrow> wrp_crud list" where
  "queued es = concat (map (\<lambda>e. case e of QueueCrud m \<Rightarrow> [m] | _ \<Rightarrow> []) es)"

subsection \<open>Turns of the threads\<close>

text \<open>\<open>listenerOnMessage\<close> with the decoder: a message decoded to nothing is read uninitialised.\<close>

definition down_turn :: "down_env \<Rightarrow> up_wrp \<Rightarrow> 'n down_msg \<Rightarrow> fault + effect list" where
  "down_turn E W message =
     (case pm_payload message of
        None \<Rightarrow> listenerOnMessage E None (pm_len message) None
      | Some bytes \<Rightarrow>
          (case wrp_to_struct W (Some bytes) (of_nat (pm_len message)) of (rv, decoded) \<Rightarrow>
             if rv \<le> 0 then listenerOnMessage E (Some bytes) (pm_len message) None
             else (case decoded of
                     None \<Rightarrow> Inl UninitRead
                   | Some m \<Rightarrow> listenerOnMessage E (Some bytes) (pm_len message) (Some (wrp_msg.truncate m)))))"

text \<open>
  In the three functions a consumer that holds a message handles it; otherwise it takes the next one,
  waits or ends. \<open>as\<close> and \<open>a\<close> are the addresses of the cells that are allocated. The result is \<open>None\<close>
  when the thread cannot act or an address is in use.
\<close>

definition messageHandlerTask_turn :: "'e sys_env \<Rightarrow> nat list \<Rightarrow> 'n sys \<Rightarrow> (fault + 'n sys) option" where
  "messageHandlerTask_turn E as s =
     Option.bind (consumer_turn (sy_down s)) (\<lambda>d.
       case pc_consumer (sy_down s) of
         Processing _ m \<Rightarrow>
           (case down_turn (sys_down_env E s) (se_wrp E) m of
              Inl f \<Rightarrow> Some (Inl f)
            | Inr es \<Rightarrow> map_option
                (\<lambda>c. Inr (s\<lparr>sy_down := d, sy_crud := c, sy_log := sy_log s @ [DownHandled m es]\<rparr>))
                (put_all as (queued es) (sy_crud s)))
       | _ \<Rightarrow> Some (Inr (s\<lparr>sy_down := d\<rparr>)))"

definition crud_answer :: "'e sys_env \<Rightarrow> crud_msg \<Rightarrow> string UpStreamMsg" where
  "crud_answer E resp =
     (case se_encode_crud E resp of (resp_size, resp_bytes) \<Rightarrow>
        \<lparr> us_msg = resp_bytes, us_len = scast (word_of_int resp_size :: u32) \<rparr>)"

definition CRUDHandlerTask_turn :: "'e sys_env \<Rightarrow> nat \<Rightarrow> 'n sys \<Rightarrow> (fault + 'n sys) option" where
  "CRUDHandlerTask_turn E a s =
     Option.bind (consumer_turn (sy_crud s)) (\<lambda>c.
       case pc_consumer (sy_crud s) of
         Processing _ m \<Rightarrow>
           (case processCrudRequest (se_json E) (wrp_api.truncate (se_wrp E)) (crud_msg.truncate m) (sy_store s) of
              Inl f \<Rightarrow> Some (Inl f)
            | Inr (ret, resp, st) \<Rightarrow> map_option
                (\<lambda>u. Inr (s\<lparr>sy_crud := c, sy_up := u, sy_store := st,
                           sy_log := sy_log s @ [CrudHandled m ret resp]\<rparr>))
                (queue_put a (crud_answer E resp) (sy_up s)))
       | _ \<Rightarrow> Some (Inr (s\<lparr>sy_crud := c\<rparr>)))"

definition processUpstreamMessage_turn ::
  "'e sys_env \<Rightarrow> nat list \<Rightarrow> 'e \<Rightarrow> 'n sys \<Rightarrow> (fault + 'n sys) option" where
  "processUpstreamMessage_turn E as e s =
     Option.bind (consumer_turn (sy_up s)) (\<lambda>u.
       case pc_consumer (sy_up s) of
         Processing _ m \<Rightarrow>
           (case upstream_turn (sys_up_env E s) m (sy_locals s) (st_clients (sy_store s), e) of
              Inl f \<Rightarrow> Some (Inl f)
            | Inr (lv, (cl, _), es, _) \<Rightarrow> map_option
                (\<lambda>c. Inr (s\<lparr>sy_up := u, sy_crud := c, sy_locals := lv,
                           sy_store := (sy_store s)\<lparr>st_clients := cl\<rparr>,
                           sy_log := sy_log s @ [UpHandled m es]\<rparr>))
                (put_all as (queued es) (sy_crud s)))
       | _ \<Rightarrow> Some (Inr (s\<lparr>sy_up := u\<rparr>)))"

definition serviceAliveTask_turn :: "'e sys_env \<Rightarrow> 'e \<Rightarrow> 'n sys \<Rightarrow> 'n sys" where
  "serviceAliveTask_turn E e s =
     (case se_alive E of (nbytes, svc_bytes) \<Rightarrow>
      case serviceAlive_turn (se_nn E) svc_bytes nbytes (st_clients (sy_store s), e) of
        ((cl, _), _) \<Rightarrow> s\<lparr>sy_store := (sy_store s)\<lparr>st_clients := cl\<rparr>\<rparr>)"

subsection \<open>Actions\<close>

datatype thread = DownThread | CrudThread | UpThread

definition woken :: "'m pc_state \<Rightarrow> 'm pc_state" where
  "woken p = p\<lparr>pc_consumer := wake (pc_consumer p)\<rparr>"

definition signalled :: "'m pc_state \<Rightarrow> 'm pc_state" where
  "signalled p = p\<lparr>pc_consumer := wake (pc_consumer p), pc_signalled := pc_signalled p \<or> pc_shutdown p\<rparr>"

definition stopped :: "'m pc_state \<Rightarrow> 'm pc_state" where
  "stopped p = p\<lparr>pc_shutdown := True\<rparr>"

text \<open>
  The nanomsg library is in any state \<open>'e\<close> when a thread calls it. \<open>MainThread\<close> stands for what the main
  thread writes: configuration, flags, the reason and status of a reconnect, and the metadata.
\<close>

datatype ('n, 'e) sys_action =
    DownMessage nat "'n down_msg"            \<comment> \<open>\<open>listenerOnMessage_queue\<close>\<close>
  | ClientMessage nat "string UpStreamMsg"   \<comment> \<open>\<open>handle_upstream\<close>\<close>
  | DownTurn "nat list"
  | CrudTurn nat
  | UpTurn "nat list" 'e
  | AliveTurn 'e
  | MainThread ParodusCfg flags string bool meta
  | Wake thread
  | FinalSignal thread
  | Stop                                     \<comment> \<open>\<open>g_shutdown = true\<close>\<close>

fun sys_do :: "'e sys_env \<Rightarrow> ('n, 'e) sys_action \<Rightarrow> 'n sys \<Rightarrow> (fault + 'n sys) option" where
  "sys_do E (DownMessage a m) s =
     map_option (\<lambda>d. Inr (s\<lparr>sy_down := d, sy_log := sy_log s @ [DownArrived m]\<rparr>)) (queue_put a m (sy_down s))"
| "sys_do E (ClientMessage a m) s =
     map_option (\<lambda>u. Inr (s\<lparr>sy_up := u, sy_log := sy_log s @ [ClientSent m]\<rparr>)) (queue_put a m (sy_up s))"
| "sys_do E (DownTurn as) s = messageHandlerTask_turn E as s"
| "sys_do E (CrudTurn a) s = CRUDHandlerTask_turn E a s"
| "sys_do E (UpTurn as e) s = processUpstreamMessage_turn E as e s"
| "sys_do E (AliveTurn e) s = Some (Inr (serviceAliveTask_turn E e s))"
| "sys_do E (MainThread cfg fl reason status mt) s =
     Some (Inr (s\<lparr>sy_store := (sy_store s)\<lparr>st_cfg := cfg, st_flags := fl, reconnect_reason := reason,
       reconnect_status := status\<rparr>, sy_meta := mt\<rparr>))"
| "sys_do E (Wake DownThread) s = Some (Inr (s\<lparr>sy_down := woken (sy_down s)\<rparr>))"
| "sys_do E (Wake CrudThread) s = Some (Inr (s\<lparr>sy_crud := woken (sy_crud s)\<rparr>))"
| "sys_do E (Wake UpThread) s = Some (Inr (s\<lparr>sy_up := woken (sy_up s)\<rparr>))"
| "sys_do E (FinalSignal DownThread) s = Some (Inr (s\<lparr>sy_down := signalled (sy_down s)\<rparr>))"
| "sys_do E (FinalSignal CrudThread) s = Some (Inr (s\<lparr>sy_crud := signalled (sy_crud s)\<rparr>))"
| "sys_do E (FinalSignal UpThread) s = Some (Inr (s\<lparr>sy_up := signalled (sy_up s)\<rparr>))"
| "sys_do E Stop s = Some (Inr (s\<lparr>sy_down := stopped (sy_down s), sy_crud := stopped (sy_crud s),
     sy_up := stopped (sy_up s)\<rparr>))"

inductive sys_step :: "'e sys_env \<Rightarrow> 'n sys \<Rightarrow> 'n sys \<Rightarrow> bool" for E where
  act: "sys_do E a s = Some (Inr s') \<Longrightarrow> sys_step E s s'"

inductive_cases sys_stepE: "sys_step E s s'"

text \<open>A sequence of actions, for concrete runs.\<close>

fun sys_run :: "'e sys_env \<Rightarrow> ('n, 'e) sys_action list \<Rightarrow> 'n sys \<Rightarrow> (fault + 'n sys) option" where
  "sys_run E [] s = Some (Inr s)"
| "sys_run E (a # acts) s =
     Option.bind (sys_do E a s) (\<lambda>r. case r of Inl f \<Rightarrow> Some (Inl f) | Inr s' \<Rightarrow> sys_run E acts s')"

end
