(* ===== verification/System_Props.thy ===== *)
theory System_Props
  imports System
begin

text \<open>Properties of the threads together: every interleaving.\<close>

subsection \<open>What the log says of the queues\<close>

fun arrived :: "'n sys_event \<Rightarrow> 'n down_msg list" where
  "arrived (DownArrived m) = [m]" | "arrived _ = []"

fun down_handled :: "'n sys_event \<Rightarrow> 'n down_msg list" where
  "down_handled (DownHandled m es) = [m]" | "down_handled _ = []"

fun requested :: "'n sys_event \<Rightarrow> wrp_crud list" where
  "requested (DownHandled m es) = queued es"
| "requested (UpHandled m es) = queued es"
| "requested _ = []"

fun crud_handled :: "'n sys_event \<Rightarrow> wrp_crud list" where
  "crud_handled (CrudHandled req ret resp) = [req]" | "crud_handled _ = []"

fun sent_up :: "'e sys_env \<Rightarrow> 'n sys_event \<Rightarrow> string UpStreamMsg list" where
  "sent_up E (ClientSent m) = [m]"
| "sent_up E (CrudHandled req ret resp) = [crud_answer E resp]"
| "sent_up E _ = []"

fun up_handled :: "'n sys_event \<Rightarrow> string UpStreamMsg list" where
  "up_handled (UpHandled m es) = [m]" | "up_handled _ = []"

definition all_of :: "('n sys_event \<Rightarrow> 'a list) \<Rightarrow> 'n sys_event list \<Rightarrow> 'a list" where
  "all_of f evs = concat (map f evs)"

lemma all_of_simps [simp]:
  "all_of f [] = []" "all_of f (e # evs) = f e @ all_of f evs" "all_of f (evs @ evs') = all_of f evs @ all_of f evs'"
  by (simp_all add: all_of_def)

text \<open>A response answers a request: the same type and transaction, the addresses swapped.\<close>

definition answers :: "wrp_crud \<Rightarrow> int \<Rightarrow> crud_msg \<Rightarrow> bool" where
  "answers req ret resp \<longleftrightarrow>
     msg_type resp = msg_type req \<and> transaction_uuid resp = transaction_uuid req \<and>
     crud_source resp = crud_dest req \<and> crud_dest resp = crud_source req \<and>
     (is_crud_type (msg_type req) \<longrightarrow>
        ret = 0 \<and> crud_status resp \<in> {200, 201} \<or>
        ret = - 1 \<and> crud_status resp \<in> {400, 409, 500} \<and> crud_payload resp = None)"

fun answered_ok :: "'n sys_event \<Rightarrow> bool" where
  "answered_ok (CrudHandled req ret resp) = answers req ret resp" | "answered_ok _ = True"

subsection \<open>Steps of one queue\<close>

text \<open>A queue moves on by steps of theory \<open>Msg_Queue\<close>; \<open>xs\<close> are queued and \<open>ys\<close> are handled.\<close>

definition moved :: "'m pc_state \<Rightarrow> 'm pc_state \<Rightarrow> 'm list \<Rightarrow> 'm list \<Rightarrow> bool" where
  "moved p p' xs ys \<longleftrightarrow> pc_step\<^sup>*\<^sup>* p p' \<and> pc_produced p' = pc_produced p @ xs \<and> pc_consumed p' = pc_consumed p @ ys"

lemma moved_refl [simp]: "moved p p [] []"
  by (simp add: moved_def)

lemma moved_trans: "moved p q xs ys \<Longrightarrow> moved q r us vs \<Longrightarrow> moved p r (xs @ us) (ys @ vs)"
  by (auto simp: moved_def)

lemma moved_put:
  assumes "queue_put a m p = Some p'"
  shows "moved p p' [m] []"
proof -
  from assms obtain q sig where "q_cells (pc_q p) a = None" "q_add a m (pc_q p) = Some (q, sig)"
    and p': "p' = p\<lparr>pc_q := q, pc_consumer := (if sig then wake (pc_consumer p) else pc_consumer p),
      pc_produced := pc_produced p @ [m]\<rparr>"
    by (auto simp: queue_put_def split: if_split_asm)
  from pc_step.produce [OF this(1,2)] have "pc_step p p'" by (simp only: p')
  then show ?thesis by (simp add: moved_def p' r_into_rtranclp)
qed

lemma moved_puts: "put_all as ms p = Some p' \<Longrightarrow> moved p p' ms []"
proof (induction as ms p rule: put_all.induct)
  case (2 a as m ms p)
  then obtain q where "queue_put a m p = Some q" "put_all as ms q = Some p'" by (auto split: bind_splits)
  with "2.IH" moved_put [of a m p q] moved_trans [of p q "[m]" "[]" p' ms "[]"] show ?case by simp
qed simp_all

lemma moved_turn: "consumer_turn p = Some p' \<Longrightarrow> moved p p' [] (in_flight (pc_consumer p))"
  using pc_step.consume [of p p']
  by (auto simp: moved_def consumer_turn_def split: consumer.splits option.splits)

lemma moved_flags [simp]: "moved p (woken p) [] []" "moved p (signalled p) [] []" "moved p (stopped p) [] []"
  using pc_step.spurious [of p] pc_step.final_signal [of p] pc_step.shutdown [of p]
  by (simp_all add: moved_def woken_def signalled_def stopped_def r_into_rtranclp)

lemma consumer_turn_in_flight:
  "consumer_turn p = Some p' \<Longrightarrow> (\<And>a m. pc_consumer p \<noteq> Processing a m) \<Longrightarrow> in_flight (pc_consumer p) = []"
  by (cases "pc_consumer p") auto

subsection \<open>Steps of the system\<close>

lemma processCrudRequest_answers:
  assumes "processCrudRequest J W (crud_msg.truncate req) st = Inr (ret, resp, st')"
  shows "answers req ret resp"
proof (cases "is_crud_type (msg_type req)")
  case True
  then have "is_crud_type (msg_type (crud_msg.truncate req))" by (simp add: crud_msg.truncate_def)
  from processCrudRequest_result [OF assms this] True show ?thesis
    by (simp add: answers_def crud_msg.truncate_def)
next
  case False
  with assms show ?thesis
    by (cases "msg_type req")
       (auto simp: answers_def is_crud_type_def processCrudRequest_def response_for_def then_run_Inr_iff crud_msg.truncate_def deref_def split: option.splits)
qed

text \<open>
  The turn of the CRUD task is the one of theory \<open>Upstream\<close>, and a message that the callback queues
  arrives in the same way.
\<close>

lemma queue_put_add: "queue_put a m p = Some p' \<Longrightarrow> \<exists>sig. q_add a m (pc_q p) = Some (pc_q p', sig)"
  by (auto simp: queue_put_def split: if_splits)

lemma crud_turn_agrees:
  assumes "CRUDHandlerTask_turn E a s = Some (Inr s')" "pc_consumer (sy_crud s) = Processing b m"
  shows "crud_task_turn (se_json E) (wrp_api.truncate (se_wrp E)) (se_encode_crud E) a m (sy_store s, pc_q (sy_up s)) =
    Inr (Some (sy_store s', pc_q (sy_up s')))"
proof -
  from assms obtain c ret resp st u where
    r: "processCrudRequest (se_json E) (wrp_api.truncate (se_wrp E)) (crud_msg.truncate m) (sy_store s) =
      Inr (ret, resp, st)" and u: "queue_put a (crud_answer E resp) (sy_up s) = Some u"
    "s' = s\<lparr>sy_crud := c, sy_up := u, sy_store := st, sy_log := sy_log s @ [CrudHandled m ret resp]\<rparr>"
    by (auto simp: CRUDHandlerTask_turn_def split: sum.splits bind_splits)
  with queue_put_add [OF u(1)] show ?thesis
    by (auto simp: crud_task_turn_def crud_answer_def addCRUDresponseToUpstreamQ_def split: prod.splits)
qed

lemma callback_arrives:
  assumes "listenerOnMessage_queue api a msg (prev, pc_q (sy_down s)) = Some (prev', q')"
    "\<not> np_is_fragment api msg \<or> np_is_final api msg" "q_cells (pc_q (sy_down s)) a = None"
  shows "\<exists>m s'. sys_do E (DownMessage a m) s = Some (Inr s') \<and> pc_q (sy_down s') = q' \<and> prev' = None"
proof -
  from assms(1,2) obtain m sig where "q_add a m (pc_q (sy_down s)) = Some (q', sig)" "prev' = None"
    by (auto simp: listenerOnMessage_queue_def Let_def split: option.splits if_splits)
  with assms(3) show ?thesis by (intro exI [of _ m]) (auto simp: queue_put_def)
qed

text \<open>The three queues of a state after the events \<open>evs\<close>.\<close>

definition system_moved :: "'e sys_env \<Rightarrow> 'n sys \<Rightarrow> 'n sys \<Rightarrow> 'n sys_event list \<Rightarrow> bool" where
  "system_moved E s s' evs \<longleftrightarrow> sy_log s' = sy_log s @ evs \<and> list_all answered_ok evs \<and>
     moved (sy_down s) (sy_down s') (all_of arrived evs) (all_of down_handled evs) \<and>
     moved (sy_crud s) (sy_crud s') (all_of requested evs) (all_of crud_handled evs) \<and>
     moved (sy_up s) (sy_up s') (all_of (sent_up E) evs) (all_of up_handled evs)"

lemma down_turn_moves:
  assumes "messageHandlerTask_turn E as s = Some (Inr s')"
  shows "\<exists>evs. system_moved E s s' evs"
proof -
  from assms obtain d where d: "consumer_turn (sy_down s) = Some d"
    by (auto simp: messageHandlerTask_turn_def split: bind_splits)
  show ?thesis
  proof (cases "pc_consumer (sy_down s)")
    case (Processing a m)
    with assms d obtain es c where "put_all as (queued es) (sy_crud s) = Some c"
      "s' = s\<lparr>sy_down := d, sy_crud := c, sy_log := sy_log s @ [DownHandled m es]\<rparr>"
      by (auto simp: messageHandlerTask_turn_def split: sum.splits)
    with moved_turn [OF d] Processing moved_puts [of as "queued es" "sy_crud s" c] show ?thesis
      by (intro exI [of _ "[DownHandled m es]"]) (simp add: system_moved_def)
  qed (use assms d moved_turn [OF d] in
      \<open>auto intro!: exI [of _ "[]"] simp: messageHandlerTask_turn_def system_moved_def\<close>)
qed

lemma crud_turn_moves:
  assumes "CRUDHandlerTask_turn E a s = Some (Inr s')"
  shows "\<exists>evs. system_moved E s s' evs"
proof -
  from assms obtain c where c: "consumer_turn (sy_crud s) = Some c"
    by (auto simp: CRUDHandlerTask_turn_def split: bind_splits)
  show ?thesis
  proof (cases "pc_consumer (sy_crud s)")
    case (Processing b m)
    with assms c obtain ret resp st u where
      r: "processCrudRequest (se_json E) (wrp_api.truncate (se_wrp E)) (crud_msg.truncate m) (sy_store s) =
        Inr (ret, resp, st)" and u: "queue_put a (crud_answer E resp) (sy_up s) = Some u"
      "s' = s\<lparr>sy_crud := c, sy_up := u, sy_store := st, sy_log := sy_log s @ [CrudHandled m ret resp]\<rparr>"
      by (auto simp: CRUDHandlerTask_turn_def split: sum.splits)
    from u moved_turn [OF c] Processing moved_put [OF u(1)] processCrudRequest_answers [OF r] show ?thesis
      by (intro exI [of _ "[CrudHandled m ret resp]"]) (simp add: system_moved_def)
  qed (use assms c moved_turn [OF c] in
      \<open>auto intro!: exI [of _ "[]"] simp: CRUDHandlerTask_turn_def system_moved_def\<close>)
qed

lemma up_turn_moves:
  assumes "processUpstreamMessage_turn E as e s = Some (Inr s')"
  shows "\<exists>evs. system_moved E s s' evs"
proof -
  from assms obtain u where u: "consumer_turn (sy_up s) = Some u"
    by (auto simp: processUpstreamMessage_turn_def split: bind_splits)
  show ?thesis
  proof (cases "pc_consumer (sy_up s)")
    case (Processing a m)
    with assms u obtain lv cl es c where "put_all as (queued es) (sy_crud s) = Some c"
      "s' = s\<lparr>sy_up := u, sy_crud := c, sy_locals := lv, sy_store := (sy_store s)\<lparr>st_clients := cl\<rparr>,
              sy_log := sy_log s @ [UpHandled m es]\<rparr>"
      by (auto simp: processUpstreamMessage_turn_def split: sum.splits)
    with moved_turn [OF u] Processing moved_puts [of as "queued es" "sy_crud s" c] show ?thesis
      by (intro exI [of _ "[UpHandled m es]"]) (simp add: system_moved_def)
  qed (use assms u moved_turn [OF u] in
      \<open>auto intro!: exI [of _ "[]"] simp: processUpstreamMessage_turn_def system_moved_def\<close>)
qed

lemma sys_do_moves: "sys_do E a s = Some (Inr s') \<Longrightarrow> \<exists>evs. system_moved E s s' evs"
proof (induction E a s rule: sys_do.induct)
  case (1 E a m s)
  then show ?case by (intro exI [of _ "[DownArrived m]"]) (auto simp: system_moved_def dest: moved_put)
next
  case (2 E a m s)
  then show ?case by (intro exI [of _ "[ClientSent m]"]) (auto simp: system_moved_def dest: moved_put)
next
  case (6 E e s)
  then show ?case
    by (intro exI [of _ "[]"]) (auto simp: system_moved_def serviceAliveTask_turn_def split: prod.splits)
next
  case 3
  then show ?case using down_turn_moves by simp
next
  case 4
  then show ?case using crud_turn_moves by simp
next
  case 5
  then show ?case using up_turn_moves by simp
qed (auto intro!: exI [of _ "[]"] simp: system_moved_def)

lemma system_moved_trans:
  assumes "system_moved E s s1 evs" "system_moved E s1 s2 evs'"
  shows "system_moved E s s2 (evs @ evs')"
proof -
  note m = moved_trans [of "sy_down s" "sy_down s1" _ _ "sy_down s2"]
    moved_trans [of "sy_crud s" "sy_crud s1" _ _ "sy_crud s2"] moved_trans [of "sy_up s" "sy_up s1" _ _ "sy_up s2"]
  from assms show ?thesis by (simp add: system_moved_def m)
qed

lemma reachable_moves: "(sys_step E)\<^sup>*\<^sup>* s0 s \<Longrightarrow> \<exists>evs. system_moved E s0 s evs"
proof (induction rule: rtranclp_induct)
  case base
  have "system_moved E s0 s0 []" by (simp add: system_moved_def)
  then show ?case by blast
next
  case (step s s')
  from step.hyps(2) obtain evs' where "system_moved E s s' evs'" by (blast elim: sys_stepE dest: sys_do_moves)
  with step.IH show ?case by (blast intro: system_moved_trans)
qed

text \<open>The queues of a reachable state: what the log says was queued and handled is what the queues say.\<close>

definition queue_ok :: "'m pc_state \<Rightarrow> 'm list \<Rightarrow> 'm list \<Rightarrow> bool" where
  "queue_ok p xs ys \<longleftrightarrow> pc_step\<^sup>*\<^sup>* pc_init p \<and> pc_produced p = xs \<and> pc_consumed p = ys"

lemma reachable_queues:
  assumes "(sys_step E)\<^sup>*\<^sup>* (sys_init st mt) s"
  shows "queue_ok (sy_down s) (all_of arrived (sy_log s)) (all_of down_handled (sy_log s))"
    "queue_ok (sy_crud s) (all_of requested (sy_log s)) (all_of crud_handled (sy_log s))"
    "queue_ok (sy_up s) (all_of (sent_up E) (sy_log s)) (all_of up_handled (sy_log s))"
    "list_all answered_ok (sy_log s)"
  using reachable_moves [OF assms]
  by (auto simp: system_moved_def moved_def queue_ok_def sys_init_def pc_init_def)

lemma queue_threads_waiting: "pc_step\<^sup>*\<^sup>* pc_init p \<Longrightarrow> pc_consumer p = Waiting \<Longrightarrow> \<not> pc_signalled p"
  using pc_reachable_rel [of p] by (auto simp: pc_rel_def)

definition pending :: "'m pc_state \<Rightarrow> 'm list \<Rightarrow> bool" where
  "pending p ms \<longleftrightarrow> (\<exists>as. q_rel (pc_q p) as ms) \<and> (pc_consumer p = Waiting \<longrightarrow> ms = [])"

lemma queue_ok_pending:
  assumes "queue_ok p xs ys"
  shows "\<exists>ms. pending p ms \<and> xs = ys @ in_flight (pc_consumer p) @ ms"
  using assms pc_reachable_rel [of p] by (fastforce simp: queue_ok_def pc_rel_def pending_def)

lemma queue_ok_waiting: "queue_ok p xs ys \<Longrightarrow> pc_consumer p = Waiting \<Longrightarrow> xs = ys \<and> \<not> pc_signalled p"
  using queue_ok_pending [of p xs ys] queue_threads_waiting [of p] by (auto simp: pending_def queue_ok_def)

subsection \<open>Nothing blocks\<close>

text \<open>An unused address is always found, and a message can be put there.\<close>

definition used :: "'m msgq \<Rightarrow> nat set" where
  "used q = {a. q_cells q a \<noteq> None}"

lemma used_add: "q_add a m q = Some (q', sg) \<Longrightarrow> used q' \<subseteq> insert a (used q)"
  by (auto simp: used_def q_add_def Let_def split: option.splits if_splits)

lemma used_turn: "consumer_turn p = Some p' \<Longrightarrow> used (pc_q p') \<subseteq> used (pc_q p)"
  by (auto simp: used_def consumer_turn_def q_pop_def q_free_def split: consumer.splits option.splits if_splits)

lemma step_keeps:
  assumes "pc_step p p'" "finite (used (pc_q p)) \<and> (pc_consumer p = Ended \<longrightarrow> pc_shutdown p)"
  shows "finite (used (pc_q p')) \<and> (pc_consumer p' = Ended \<longrightarrow> pc_shutdown p')"
  using assms
proof cases
  case (consume)
  with assms(2) finite_subset [OF used_turn [OF consume]] show ?thesis
    by (auto simp: consumer_turn_def split: consumer.splits option.splits if_splits)
next
  case (produce a m q' sig)
  with assms(2) finite_subset [OF used_add [OF produce(3)]] show ?thesis
    by (cases "pc_consumer p") auto
qed (use assms(2) in \<open>cases "pc_consumer p"; auto\<close>)+

lemma reachable_keeps: "pc_step\<^sup>*\<^sup>* pc_init p \<Longrightarrow> finite (used (pc_q p)) \<and> (pc_consumer p = Ended \<longrightarrow> pc_shutdown p)"
  by (induction rule: rtranclp_induct) (use step_keeps in \<open>auto simp: pc_init_def empty_q_def used_def\<close>)

lemma put_enabled:
  assumes "pc_step\<^sup>*\<^sup>* pc_init p"
  shows "\<exists>a p'. queue_put a m p = Some p' \<and> pc_step\<^sup>*\<^sup>* pc_init p'"
proof -
  obtain a where a: "a \<notin> used (pc_q p)"
    using ex_new_if_finite [OF infinite_UNIV_nat] reachable_keeps [OF assms] by blast
  obtain as ms where "pc_rel p as ms" using pc_reachable_rel [OF assms] by blast
  with a q_add_rel [of "pc_q p" as ms a m] obtain p' where p': "queue_put a m p = Some p'"
    by (fastforce simp: queue_put_def used_def q_unused_def pc_rel_def)
  with moved_put [OF p'] assms show ?thesis unfolding moved_def by (meson rtranclp_trans)
qed

lemma puts_enabled: "pc_step\<^sup>*\<^sup>* pc_init p \<Longrightarrow> \<exists>as p'. put_all as ms p = Some p'"
proof (induction ms arbitrary: p)
  case Nil
  have "put_all [] [] p = Some p" by simp
  then show ?case by blast
next
  case (Cons m ms)
  obtain a q where q: "queue_put a m p = Some q" "pc_step\<^sup>*\<^sup>* pc_init q" using put_enabled [OF Cons.prems] by blast
  from Cons.IH [OF q(2)] obtain as p' where "put_all as ms q = Some p'" by blast
  with q(1) have "put_all (a # as) (m # ms) p = Some p'" by simp
  then show ?case by blast
qed

lemma turn_enabled:
  assumes "pc_step\<^sup>*\<^sup>* pc_init p" "pc_consumer p \<notin> {Waiting, Ended}"
  shows "\<exists>p'. consumer_turn p = Some p'"
  using pc_reachable_rel [OF assms(1)] pc_rel_consume [OF _ assms(2)] by blast

lemma down_enabled:
  assumes "pc_step\<^sup>*\<^sup>* pc_init (sy_down s)" "pc_step\<^sup>*\<^sup>* pc_init (sy_crud s)" "pc_consumer (sy_down s) \<notin> {Waiting, Ended}"
  shows "\<exists>as. messageHandlerTask_turn E as s \<noteq> None"
proof -
  obtain d where d: "consumer_turn (sy_down s) = Some d" using turn_enabled [OF assms(1,3)] by blast
  show ?thesis
  proof (cases "pc_consumer (sy_down s)")
    case (Processing a m)
    obtain as where "\<exists>c. put_all as (queued es) (sy_crud s) = Some c"
      if "down_turn (sys_down_env E s) (se_wrp E) m = Inr es" for es
      using puts_enabled [OF assms(2)] by (metis sum.inject(2))
    with d Processing show ?thesis
      by (intro exI [of _ as]) (auto simp: messageHandlerTask_turn_def split: sum.split)
  qed (use d assms(3) in \<open>auto simp: messageHandlerTask_turn_def\<close>)
qed

lemma crud_enabled:
  assumes "pc_step\<^sup>*\<^sup>* pc_init (sy_crud s)" "pc_step\<^sup>*\<^sup>* pc_init (sy_up s)" "pc_consumer (sy_crud s) \<notin> {Waiting, Ended}"
  shows "\<exists>a. CRUDHandlerTask_turn E a s \<noteq> None"
proof -
  obtain c where c: "consumer_turn (sy_crud s) = Some c" using turn_enabled [OF assms(1,3)] by blast
  show ?thesis
  proof (cases "pc_consumer (sy_crud s)")
    case (Processing b m)
    obtain a where "\<exists>u. queue_put a (crud_answer E resp) (sy_up s) = Some u"
      if "processCrudRequest (se_json E) (wrp_api.truncate (se_wrp E)) (crud_msg.truncate m) (sy_store s) =
        Inr (ret, resp, st)" for ret resp st
      using put_enabled [OF assms(2)] by (metis sum.inject(2) prod.inject)
    with c Processing show ?thesis
      by (intro exI [of _ a]) (auto simp: CRUDHandlerTask_turn_def split: sum.split)
  qed (use c assms(3) in \<open>auto simp: CRUDHandlerTask_turn_def\<close>)
qed

lemma up_enabled:
  assumes "pc_step\<^sup>*\<^sup>* pc_init (sy_up s)" "pc_step\<^sup>*\<^sup>* pc_init (sy_crud s)" "pc_consumer (sy_up s) \<notin> {Waiting, Ended}"
  shows "\<exists>as. processUpstreamMessage_turn E as e s \<noteq> None"
proof -
  obtain u where u: "consumer_turn (sy_up s) = Some u" using turn_enabled [OF assms(1,3)] by blast
  show ?thesis
  proof (cases "pc_consumer (sy_up s)")
    case (Processing a m)
    obtain as where "\<exists>c. put_all as (queued es) (sy_crud s) = Some c"
      if "upstream_turn (sys_up_env E s) m (sy_locals s) (st_clients (sy_store s), e) = Inr (lv, cl, es, r)"
      for lv cl es r
      using puts_enabled [OF assms(2)] by (metis sum.inject(2) prod.inject)
    with u Processing show ?thesis
      by (intro exI [of _ as]) (auto simp: processUpstreamMessage_turn_def split: sum.split)
  qed (use u assms(3) in \<open>auto simp: processUpstreamMessage_turn_def\<close>)
qed

subsection \<open>The registry\<close>

text \<open>A CRUD request changes neither the clients nor whether the file can be written.\<close>

definition kept :: "crud_state \<Rightarrow> crud_state \<Rightarrow> bool" where
  "kept st st' \<longleftrightarrow> st_clients st' = st_clients st \<and> st_writable st' = st_writable st"

definition clients_same :: "crud_state \<Rightarrow> crud_result \<Rightarrow> bool" where
  "clients_same st r \<longleftrightarrow> on_return (\<lambda>(ret, resp, st'). kept st st') r"

lemma kept_simps [simp]:
  "kept st st" "kept st (snd (writeIntoCrudJson J obj name v st))" "kept st (snd (writeToJSON d st))"
  "kept st (snd (ConnDisconnectFromCloud r (st\<lparr>st_cfg := c\<rparr>)))"
  by (auto simp: kept_def writeIntoCrudJson_def writeToJSON_def ConnDisconnectFromCloud_def split: option.splits)

lemma clients_same_simps [simp]:
  "clients_same st (crud_fail c resp st') \<longleftrightarrow> kept st st'"
  "clients_same st (Inr (ret, resp, st')) \<longleftrightarrow> kept st st'"
  "clients_same st (finish_write w resp) \<longleftrightarrow> kept st (snd w)"
  by (auto simp: clients_same_def crud_fail_def finish_write_def split: prod.splits)

lemma clients_same_then: "(\<And>x. m = Inr x \<Longrightarrow> clients_same st (k x)) \<Longrightarrow> clients_same st (then_run m k)"
  by (cases m) (simp_all add: clients_same_def)

lemma disconnect_clients: "ConnDisconnectFromCloud r (st\<lparr>st_cfg := c\<rparr>) = (n, st') \<Longrightarrow> kept st st'"
  using kept_simps(4) [of st r c] by simp

lemma requests_keep_clients:
  "clients_same st (createObject J W req resp st)" "clients_same st (updateObject J W req resp st)"
  "clients_same st (deleteObject J W req resp st)" "clients_same st (retrieveObject J W req resp st)"
proof -
  show "clients_same st (createObject J W req resp st)"
    unfolding createObject_def create_checked_def create_in_tags_def create_tags_def
    by (auto intro!: clients_same_then split: option.splits simp: Let_def)
  show "clients_same st (updateObject J W req resp st)"
    unfolding updateObject_def update_checked_def update_write_def cloud_disconnect_request_def
    by (auto intro!: clients_same_then split: option.splits prod.splits simp: Let_def)
       (erule disconnect_clients)+
  show "clients_same st (deleteObject J W req resp st)"
    unfolding deleteObject_def delete_tag_def delete_write_def
    by (auto intro!: clients_same_then split: option.splits prod.splits simp: Let_def)
  show "clients_same st (retrieveObject J W req resp st)"
    using retrieveObject_state [of st J W req resp]
    by (auto simp: clients_same_def on_return_def kept_def split: sum.splits)
qed

lemma processCrudRequest_clients:
  assumes "processCrudRequest J W req st = Inr (ret, resp, st')"
  shows "st_clients st' = st_clients st" "st_writable st' = st_writable st"
proof -
  note k = requests_keep_clients [where J = J and W = W and req = req and st = st]
  have "clients_same st (processCrudRequest J W req st)"
    unfolding processCrudRequest_def
  proof (rule clients_same_then)
    fix resp0 assume "response_for req = Inr resp0"
    have "clients_same st (then_run r (\<lambda>(ret, resp, st'). if P ret then Inr (a ret, f resp, st') else Inr (b ret, g resp, st')))"
      if "clients_same st r" for r P a b f g
      using that by (cases r) (auto simp: clients_same_def)
    with k [of resp0] show "clients_same st (case msg_type req of
       WRP_MSG_TYPE__CREATE \<Rightarrow>
         then_run (createObject J W req resp0 st) (\<lambda>(ret, resp, st).
           if ret \<noteq> 0 then Inr (- 1, no_payload resp, st) else Inr (0, resp, st))
     | WRP_MSG_TYPE__RETREIVE \<Rightarrow>
         then_run (retrieveObject J W req resp0 st) (\<lambda>(ret, resp, st).
           if ret \<noteq> 0 then Inr (- 1, no_payload resp, st) else Inr (0, resp, st))
     | WRP_MSG_TYPE__UPDATE \<Rightarrow>
         then_run (updateObject J W req resp0 st) (\<lambda>(ret, resp, st).
           if ret = 0 then Inr (0, no_payload resp, st) else Inr (- 1, resp, st))
     | WRP_MSG_TYPE__DELETE \<Rightarrow>
         then_run (deleteObject J W req resp0 st) (\<lambda>(ret, resp, st).
           if ret = 0 then Inr (0, no_payload resp, st) else Inr (- 1, resp, st))
     | _ \<Rightarrow> Inr (0, resp0, st))"
      by (simp split: msg_type.split)
  qed
  with assms show "st_clients st' = st_clients st" "st_writable st' = st_writable st"
    by (simp_all add: clients_same_def kept_def)
qed

text \<open>Registrations that fit the arrays of a node.\<close>

definition registrations_fit :: "up_wrp \<Rightarrow> bool" where
  "registrations_fit W \<longleftrightarrow> (\<forall>b n rv m. wrp_to_struct W b n = (rv, Some m) \<and> wm_type m = WRP_MSG_TYPE__SVC_REGISTRATION \<longrightarrow>
     length (reg_msg_name m) < 32 \<and> length (reg_msg_url m) < 100)"

lemma upstream_turn_clients:
  assumes "upstream_turn E msg lv (cl, e) = Inr (lv', (cl', e'), es, r)" "clients_counted fit cl" "fit \<Longrightarrow> registrations_fit (ue_wrp E)"
  shows "clients_counted fit cl'"
proof -
  obtain rv a where d: "wrp_to_struct (ue_wrp E) (us_msg msg) (us_len msg) = (rv, a)" by fastforce
  show ?thesis
  proof (cases "0 < rv")
    case True
    with assms(1) d obtain m bytes lv2 where "a = Some m"
      "handle_decoded E lv bytes (us_len msg) m (cl, e) = Inr (lv2, (cl', e'), es)"
      by (auto simp: upstream_turn_def then_run_Inr_iff split: option.splits if_splits)
    with handle_decoded_clients [OF this(2) assms(2)] assms(3) d show ?thesis by (auto simp: registrations_fit_def)
  next
    case False
    with assms(1,2) d show ?thesis by (auto simp: upstream_turn_def then_run_Inr_iff split: if_splits)
  qed
qed

lemma sys_do_clients:
  assumes "sys_do E a s = Some (Inr s')" "clients_counted fit (st_clients (sy_store s))" "fit \<Longrightarrow> registrations_fit (se_wrp E)"
  shows "clients_counted fit (st_clients (sy_store s'))"
  using assms
proof (induction E a s rule: sys_do.induct)
  case (3 E as s)
  then show ?case
    by (auto simp: messageHandlerTask_turn_def split: bind_splits consumer.splits sum.splits)
next
  case (4 E a s)
  then show ?case
    by (auto simp: CRUDHandlerTask_turn_def dest: processCrudRequest_clients(1) split: bind_splits consumer.splits sum.splits)
next
  case (5 E as e s)
  then show ?case using upstream_turn_clients
    by (fastforce simp: processUpstreamMessage_turn_def sys_up_env_def split: bind_splits consumer.splits sum.splits)
next
  case (6 E e s)
  then show ?case
    using keepalive_walk_counted [of fit "st_clients (sy_store s)" "se_nn E" "snd (se_alive E)" "fst (se_alive E)" 0 e]
    by (auto simp: serviceAliveTask_turn_def serviceAlive_turn_def split: prod.splits if_splits)
qed auto

subsection \<open>A run\<close>

text \<open>
  A CREATE from the server is answered: \<open>req\<close> decodes to it, everything else to its response. Each thread
  takes its message, handles it, and waits.
\<close>

definition sample_crud :: wrp_crud where
  "sample_crud = crud_msg.extend sample_req (crud_msg.more (wm_crud (sample_request sample_dest)))"

definition sample_up_wrp :: up_wrp where
  "sample_up_wrp = \<lparr> wrp_get_msg_element = wrp_get_msg_element sample_wrp, WRP_ID_ELEMENT__APPLICATION = 3,
     WRP_ID_ELEMENT__SERVICE = 2,
     wrp_to_struct = (\<lambda>b n. (1, Some ((sample_up_msg WRP_MSG_TYPE__CREATE sample_dest)\<lparr>wm_crud :=
       (if b = Some ''req'' then sample_crud
        else sample_crud\<lparr>crud_source := Some sample_dest, crud_dest := Some ''s'', crud_payload := None\<rparr>)\<rparr>))),
     encode_event = (\<lambda>ev. (3, Some ''evt'')), wrp_does_service_match = (\<lambda>s d. 1) \<rparr>"

definition sample_sys_env :: "unit sys_env" where
  "sample_sys_env = \<lparr> se_json = sample_json, se_wrp = sample_up_wrp, se_nn = sample_nn, se_auth = (3, Some ''ack''),
     se_alive = (5, ''alive''), se_encode_down = (\<lambda>r. (3, Some ''enc'')), se_encode_crud = (\<lambda>r. (4, Some ''resp'')) \<rparr>"

definition server_msg :: "nat down_msg" where
  "server_msg = \<lparr> pm_msg = 0, pm_payload = Some ''req'', pm_len = 3 \<rparr>"

definition sample_actions :: "(nat, unit) sys_action list" where
  "sample_actions = [DownMessage 0 server_msg, DownTurn [], DownTurn [1], DownTurn [], CrudTurn 0, CrudTurn 2,
     CrudTurn 0, UpTurn [] (), UpTurn [] (), UpTurn [] ()]"

definition sample_sys :: "nat sys" where
  "sample_sys = sys_init (sample_state None) (de_meta sample_down)"

lemma sys_run_reachable: "sys_run E acts s = Some (Inr s') \<Longrightarrow> (sys_step E)\<^sup>*\<^sup>* s s'"
proof (induction acts arbitrary: s)
  case (Cons a acts)
  then obtain t where "sys_do E a s = Some (Inr t)" "sys_run E acts t = Some (Inr s')"
    by (auto split: bind_splits sum.splits)
  with Cons.IH show ?case by (meson converse_rtranclp_into_rtranclp sys_step.act)
qed simp

definition run_gives :: "'e sys_env \<Rightarrow> ('n, 'e) sys_action list \<Rightarrow> 'n sys \<Rightarrow> ('n sys \<Rightarrow> bool) \<Rightarrow> bool" where
  "run_gives E acts s P = (case sys_run E acts s of Some (Inr s') \<Rightarrow> P s' | _ \<Rightarrow> False)"

lemma run_gives: "run_gives E acts s P \<Longrightarrow> \<exists>s'. (sys_step E)\<^sup>*\<^sup>* s s' \<and> P s'"
  using sys_run_reachable by (fastforce simp: run_gives_def split: option.splits sum.splits)

lemma sample_run:
  "run_gives sample_sys_env sample_actions sample_sys (\<lambda>s.
     pc_consumer (sy_down s) = Waiting \<and> pc_consumer (sy_crud s) = Waiting \<and> pc_consumer (sy_up s) = Waiting \<and>
     all_of arrived (sy_log s) = [server_msg] \<and> length (all_of requested (sy_log s)) = 1 \<and>
     length (all_of (sent_up sample_sys_env) (sy_log s)) = 1 \<and> st_file (sy_store s) = Some ''D'')"
  by code_simp

lemma sample_registrations: "registrations_fit (se_wrp sample_sys_env)"
  by (simp add: registrations_fit_def sample_sys_env_def sample_up_wrp_def sample_up_msg_def)

subsection \<open>Properties\<close>

text \<open>
  C2. In every interleaving of the threads, the main thread and the sockets, each queue's messages are
  handled once and in order: what the server sent, what the two handlers requested of CRUD, and what the
  clients and the CRUD task sent upstream is handled, in hand or still queued. Every request the CRUD
  task handled put one response into the upstream queue, which answers it: same type and transaction,
  addresses swapped, and a status that agrees with the outcome.
\<close>

theorem system_accounts:
  assumes "(sys_step E)\<^sup>*\<^sup>* (sys_init st mt) s"
  shows "(\<exists>ms. pending (sy_down s) ms \<and> all_of arrived (sy_log s) =
      all_of down_handled (sy_log s) @ in_flight (pc_consumer (sy_down s)) @ ms) \<and>
    (\<exists>ms. pending (sy_crud s) ms \<and> all_of requested (sy_log s) =
      all_of crud_handled (sy_log s) @ in_flight (pc_consumer (sy_crud s)) @ ms) \<and>
    (\<exists>ms. pending (sy_up s) ms \<and> all_of (sent_up E) (sy_log s) =
      all_of up_handled (sy_log s) @ in_flight (pc_consumer (sy_up s)) @ ms) \<and>
    list_all answered_ok (sy_log s)"
  using reachable_queues [OF assms] by (simp add: queue_ok_pending)

theorem system_accounts_witness:
  "\<exists>s req ret resp. (sys_step sample_sys_env)\<^sup>*\<^sup>* sample_sys s \<and>
     all_of crud_handled (sy_log s) = [req] \<and> pc_consumer (sy_up s) = Ready \<and>
     CrudHandled req ret resp \<in> set (sy_log s) \<and> answers req ret resp \<and> (\<exists>m. pending (sy_up s) [m])"
proof -
  let ?acts = "[DownMessage 0 server_msg, DownTurn [], DownTurn [1], CrudTurn 0, CrudTurn 2]"
  have "run_gives sample_sys_env ?acts sample_sys (\<lambda>s. length (all_of crud_handled (sy_log s)) = 1 \<and>
      pc_consumer (sy_up s) = Ready \<and> length (all_of (sent_up sample_sys_env) (sy_log s)) = 1 \<and>
      all_of up_handled (sy_log s) = [] \<and>
      (case sy_log s of [_, _, CrudHandled req ret resp] \<Rightarrow> all_of crud_handled (sy_log s) = [req] | _ \<Rightarrow> False))"
    by code_simp
  then obtain s where s: "(sys_step sample_sys_env)\<^sup>*\<^sup>* sample_sys s"
    "pc_consumer (sy_up s) = Ready" "length (all_of (sent_up sample_sys_env) (sy_log s)) = 1"
    "all_of up_handled (sy_log s) = []"
    "case sy_log s of [_, _, CrudHandled req ret resp] \<Rightarrow> all_of crud_handled (sy_log s) = [req] | _ \<Rightarrow> False"
    using run_gives by blast
  from s(5) obtain req ret resp where r: "CrudHandled req ret resp \<in> set (sy_log s)"
    "all_of crud_handled (sy_log s) = [req]"
    by (auto split: list.splits sys_event.splits)
  note acc = system_accounts [OF s(1) [unfolded sample_sys_def]]
  from acc s(2-4) obtain ms where "pending (sy_up s) ms" "length ms = 1" by (auto simp: sample_sys_def)
  with acc r s(1,2) show ?thesis by (fastforce simp: list_all_iff length_Suc_conv)
qed

text \<open>
  C7. The threads stop only when there is nothing to do, and at the end of the program they do stop. In a
  reachable state in which none of the three consumers can act, each has ended, with \<open>g_shutdown\<close> set, or it
  waits, was not sent the final signal, and has handled all messages that were ever put into its queue. So no
  thread that the main thread joins after the final signals is left waiting.
\<close>

theorem system_rests_when_done:
  assumes "(sys_step E)\<^sup>*\<^sup>* (sys_init st mt) s"
    and "\<And>as. messageHandlerTask_turn E as s = None" "\<And>a. CRUDHandlerTask_turn E a s = None"
      "\<And>as e. processUpstreamMessage_turn E as e s = None"
  shows "(pc_consumer (sy_down s) = Waiting \<and> \<not> pc_signalled (sy_down s) \<and> all_of down_handled (sy_log s) = all_of arrived (sy_log s) \<or>
      pc_consumer (sy_down s) = Ended \<and> pc_shutdown (sy_down s)) \<and>
    (pc_consumer (sy_crud s) = Waiting \<and> \<not> pc_signalled (sy_crud s) \<and> all_of crud_handled (sy_log s) = all_of requested (sy_log s) \<or>
      pc_consumer (sy_crud s) = Ended \<and> pc_shutdown (sy_crud s)) \<and>
    (pc_consumer (sy_up s) = Waiting \<and> \<not> pc_signalled (sy_up s) \<and> all_of up_handled (sy_log s) = all_of (sent_up E) (sy_log s) \<or>
      pc_consumer (sy_up s) = Ended \<and> pc_shutdown (sy_up s))"
proof -
  note q = reachable_queues [OF assms(1)]
  have p: "pc_step\<^sup>*\<^sup>* pc_init (sy_down s)" "pc_step\<^sup>*\<^sup>* pc_init (sy_crud s)" "pc_step\<^sup>*\<^sup>* pc_init (sy_up s)"
    using q by (simp_all add: queue_ok_def)
  have "pc_consumer (sy_down s) \<in> {Waiting, Ended}" "pc_consumer (sy_crud s) \<in> {Waiting, Ended}"
    "pc_consumer (sy_up s) \<in> {Waiting, Ended}"
    using down_enabled [OF p(1,2)] crud_enabled [OF p(2,3)] up_enabled [OF p(3,2)] assms(2-4) by metis+
  with reachable_keeps p queue_ok_waiting [OF q(1)] queue_ok_waiting [OF q(2)] queue_ok_waiting [OF q(3)]
  show ?thesis by (metis insert_iff empty_iff)
qed

theorem system_rests_when_done_witness:
  "\<exists>s. (sys_step sample_sys_env)\<^sup>*\<^sup>* sample_sys s \<and> all_of down_handled (sy_log s) = [server_msg] \<and>
     length (all_of crud_handled (sy_log s)) = 1 \<and> length (all_of up_handled (sy_log s)) = 1"
proof -
  from run_gives [OF sample_run] obtain s where s: "(sys_step sample_sys_env)\<^sup>*\<^sup>* sample_sys s"
    "pc_consumer (sy_down s) = Waiting" "pc_consumer (sy_crud s) = Waiting" "pc_consumer (sy_up s) = Waiting"
    "all_of arrived (sy_log s) = [server_msg]" "length (all_of requested (sy_log s)) = 1"
    "length (all_of (sent_up sample_sys_env) (sy_log s)) = 1" by blast
  then have "messageHandlerTask_turn sample_sys_env as s = None" "CRUDHandlerTask_turn sample_sys_env a s = None"
    "processUpstreamMessage_turn sample_sys_env as e s = None" for as a e
    by (simp_all add: messageHandlerTask_turn_def CRUDHandlerTask_turn_def processUpstreamMessage_turn_def consumer_turn_def)
  from system_rests_when_done [OF s(1) [unfolded sample_sys_def] this] s show ?thesis by auto
qed

text \<open>
  C20. Whatever the threads do concurrently, a name is reported as registered exactly when a node has it, and the
  count of clients never exceeds the number of nodes. It is equal to it when no registration that can be decoded
  has a name of 32 or a url of 100 characters or more; such a one leaves a node that is not counted.
\<close>

theorem system_clients:
  assumes "(sys_step E)\<^sup>*\<^sup>* (sys_init st mt) s"
  shows "checkClientStatus name (st_clients (sy_store s)) =
      (if name \<in> service_name ` set (reg_list (st_clients (sy_store s))) then 1 else 0) \<and>
    numOfClients (st_clients (sy_store s)) \<le> int (length (reg_list (st_clients (sy_store s)))) \<and>
    (registrations_fit (se_wrp E) \<longrightarrow>
      numOfClients (st_clients (sy_store s)) = int (length (reg_list (st_clients (sy_store s)))))"
proof -
  have "clients_counted fit (st_clients (sy_store s))" if "fit \<Longrightarrow> registrations_fit (se_wrp E)" for fit
    using assms
  proof (induction rule: rtranclp_induct)
    case base
    then show ?case by (simp add: sys_init_def clients_counted_def)
  next
    case (step s s')
    then show ?case using sys_do_clients that by (blast elim: sys_stepE)
  qed
  from this [of False] this [of True] show ?thesis
    by (auto simp: clients_counted_def checkClientStatus_iff entries_pos)
qed

theorem system_clients_witness:
  "\<exists>s. (sys_step sample_sys_env)\<^sup>*\<^sup>* sample_sys s \<and> st_file (sy_store s) = Some ''D'' \<and>
     numOfClients (st_clients (sy_store s)) = int (length (reg_list (st_clients (sy_store s))))"
  using run_gives [OF sample_run] sample_registrations system_clients [of sample_sys_env "sample_state None" "de_meta sample_down"]
  unfolding sample_sys_def by blast

text \<open>
  At shutdown the upstream thread may end before the CRUD thread has queued the response to a request it
  is handling: all threads have ended and the response was never sent.
\<close>

lemma response_lost:
  "\<exists>s. (sys_step sample_sys_env)\<^sup>*\<^sup>* sample_sys s \<and> pc_consumer (sy_down s) = Ended \<and> pc_consumer (sy_crud s) = Ended \<and>
     pc_consumer (sy_up s) = Ended \<and> length (all_of crud_handled (sy_log s)) = 1 \<and>
     length (all_of (sent_up sample_sys_env) (sy_log s)) = 1 \<and> all_of up_handled (sy_log s) = []"
proof (rule run_gives)
  show "run_gives sample_sys_env
    [DownMessage 0 server_msg, DownTurn [], DownTurn [1], CrudTurn 0, Stop, UpTurn [] (), CrudTurn 2, DownTurn [],
     CrudTurn 0, FinalSignal CrudThread, FinalSignal DownThread, FinalSignal UpThread] sample_sys
    (\<lambda>s. pc_consumer (sy_down s) = Ended \<and> pc_consumer (sy_crud s) = Ended \<and> pc_consumer (sy_up s) = Ended \<and>
      length (all_of crud_handled (sy_log s)) = 1 \<and> length (all_of (sent_up sample_sys_env) (sy_log s)) = 1 \<and>
      all_of up_handled (sy_log s) = [])"
    by code_simp
qed

text \<open>
  A RETRIEVE from a client that names Parodus of this device both as source and as destination is answered
  again and again: its response is a RETRIEVE to Parodus too and goes back into the CRUD queue.
\<close>

definition echo_env :: "unit sys_env" where
  "echo_env = sample_sys_env\<lparr>se_wrp := sample_up_wrp\<lparr>wrp_to_struct := (\<lambda>b n.
     (1, Some ((sample_up_msg WRP_MSG_TYPE__RETREIVE sample_dest)\<lparr>wm_crud :=
        sample_crud\<lparr>msg_type := WRP_MSG_TYPE__RETREIVE, crud_source := Some sample_dest\<rparr>\<rparr>)))\<rparr>\<rparr>"

definition echo_sys :: "nat sys" where
  "echo_sys = sys_init ((sample_state (Some ''D''))\<lparr>st_cfg := zero_cfg\<lparr>hw_mac := ''1''\<rparr>\<rparr>) (de_meta sample_down)"

lemma retrieve_echoes:
  "\<exists>s. (sys_step echo_env)\<^sup>*\<^sup>* echo_sys s \<and> length (filter (\<lambda>e. \<exists>m. e = ClientSent m) (sy_log s)) = 1 \<and>
     all_of arrived (sy_log s) = [] \<and> length (all_of crud_handled (sy_log s)) = 3"
proof -
  let ?cycle = "[UpTurn [] (), UpTurn [1] (), CrudTurn 0, CrudTurn 2] :: (nat, unit) sys_action list"
  have "run_gives echo_env (ClientMessage 0 \<lparr> us_msg = Some ''r'', us_len = 1 \<rparr> # ?cycle @ ?cycle @ ?cycle) echo_sys
    (\<lambda>s. length (filter (\<lambda>e. case e of ClientSent m \<Rightarrow> True | _ \<Rightarrow> False) (sy_log s)) = 1 \<and>
      all_of arrived (sy_log s) = [] \<and> length (all_of crud_handled (sy_log s)) = 3)"
    by code_simp
  moreover have "(case e of ClientSent m \<Rightarrow> True | _ \<Rightarrow> False) = (\<exists>m. e = ClientSent m)" for e :: "nat sys_event"
    by (cases e) auto
  ultimately show ?thesis using run_gives [of echo_env _ echo_sys] by simp
qed

end
