(* ===== verification/System_File.thy ===== *)
theory System_File
  imports System_Props
begin

text \<open>
  The file of the tags under concurrency: only the CRUD thread writes it, and what a request makes of it does not
  depend on what the other threads and the main thread do to the rest of the state. So in every interleaving
  the file is what the requests make of it one after another, in the order in which they were queued.
\<close>

subsection \<open>What a request does to the file depends on the file only\<close>

definition same_store :: "crud_state \<Rightarrow> crud_state \<Rightarrow> bool" where
  "same_store a b \<longleftrightarrow> st_file a = st_file b \<and> st_writable a = st_writable b"

definition store_rel :: "crud_result \<Rightarrow> crud_result \<Rightarrow> bool" where
  "store_rel r1 r2 \<longleftrightarrow>
     (case r1 of Inl _ \<Rightarrow> is_fault r2
      | Inr (_, _, a) \<Rightarrow> (case r2 of Inl _ \<Rightarrow> False | Inr (_, _, b) \<Rightarrow> same_store a b))"

lemma store_rel_simps [simp]:
  "store_rel (Inl f) r2 \<longleftrightarrow> is_fault r2" "store_rel r1 (Inl g) \<longleftrightarrow> is_fault r1"
  "store_rel (Inr (n, r, a)) (Inr (n', r', b)) \<longleftrightarrow> same_store a b"
  "store_rel (crud_fail c r a) (crud_fail c' r' b) \<longleftrightarrow> same_store a b"
  "store_rel (Inr (n, r, a)) (crud_fail c' r' b) \<longleftrightarrow> same_store a b"
  "store_rel (crud_fail c r a) (Inr (n', r', b)) \<longleftrightarrow> same_store a b"
  by (auto simp: store_rel_def crud_fail_def split: sum.split)

lemma store_rel_then:
  "(\<And>x. m = Inr x \<Longrightarrow> store_rel (k x) (k' x)) \<Longrightarrow> store_rel (then_run m k) (then_run m k')"
  by (cases m) simp_all

lemma store_rel_finish [simp]:
  "store_rel (finish_write w r) (finish_write w' r') \<longleftrightarrow> same_store (snd w) (snd w')"
  by (cases w; cases w') (auto simp: finish_write_def)

lemma same_store_write:
  assumes "same_store a b"
  shows "same_store (snd (writeToJSON d a)) (snd (writeToJSON d b))"
    "same_store (snd (writeIntoCrudJson J obj name v a)) (snd (writeIntoCrudJson J obj name v b))"
  using assms by (auto simp: writeIntoCrudJson_def writeToJSON_def same_store_def split: option.split)

lemma same_store_read:
  assumes "same_store a b"
  shows "load_json J a = load_json J b" "readFromJSON a = readFromJSON b"
  using assms by (auto simp: load_json_def readFromJSON_def same_store_def)

lemma cloud_disconnect_store:
  assumes "same_store a b"
  shows "store_rel (cloud_disconnect_request J pl resp a) (cloud_disconnect_request J pl resp b)"
  using assms
  by (auto simp: cloud_disconnect_request_def ConnDisconnectFromCloud_def Let_def same_store_def intro!: store_rel_then
      split: option.split)

lemma requests_store:
  assumes "same_store a b"
  shows "store_rel (createObject J W req resp a) (createObject J W req resp b)"
    "store_rel (updateObject J W req resp a) (updateObject J W req resp b)"
    "store_rel (deleteObject J W req resp a) (deleteObject J W req resp b)"
proof -
  note same = same_store_read [OF assms] same_store_write [OF assms] assms
  show "store_rel (createObject J W req resp a) (createObject J W req resp b)"
    unfolding createObject_def create_checked_def create_in_tags_def create_tags_def
    by (auto intro!: store_rel_then split: option.split simp: Let_def same)
  show "store_rel (updateObject J W req resp a) (updateObject J W req resp b)"
    unfolding updateObject_def update_checked_def update_write_def
    by (auto intro!: store_rel_then cloud_disconnect_store split: option.split prod.split simp: Let_def same)
  show "store_rel (deleteObject J W req resp a) (deleteObject J W req resp b)"
    unfolding deleteObject_def delete_tag_def delete_write_def
    by (auto intro!: store_rel_then split: option.split prod.split simp: Let_def same)
qed

lemma processCrudRequest_store:
  assumes "same_store a b" "processCrudRequest J W req a = Inr (n, resp, a')"
  shows "case processCrudRequest J W req b of Inl _ \<Rightarrow> st_file a' = st_file b | Inr (_, _, b') \<Rightarrow> st_file a' = st_file b'"
proof -
  obtain r0 where r0: "response_for req = Inr r0" using assms(2)
    by (auto simp: processCrudRequest_def then_run_Inr_iff)
  have same: "st_file a = st_file b" using assms(1) by (simp add: same_store_def)
  have goal: ?thesis if "store_rel (processCrudRequest J W req a) (processCrudRequest J W req b)"
    using that assms(2) by (auto simp: store_rel_def same_store_def split: sum.splits)
  have lift: "store_rel (then_run r1 (\<lambda>(ret, resp, st). if P ret then Inr (x ret, f resp, st) else Inr (y ret, g resp, st)))
      (then_run r2 (\<lambda>(ret, resp, st). if P ret then Inr (x ret, f resp, st) else Inr (y ret, g resp, st)))"
    if "store_rel r1 r2" for r1 r2 :: crud_result and P f g and x y :: "int \<Rightarrow> int"
    using that by (cases r1; cases r2) (auto simp: store_rel_def split: if_splits)
  note rel = requests_store [OF assms(1), of J W req r0]
  consider "msg_type req = WRP_MSG_TYPE__CREATE" | "msg_type req = WRP_MSG_TYPE__RETREIVE"
    | "msg_type req = WRP_MSG_TYPE__UPDATE" | "msg_type req = WRP_MSG_TYPE__DELETE" | "\<not> is_crud_type (msg_type req)"
    by (auto simp: is_crud_type_def)
  then show ?thesis
  proof cases
    case 2
    have "st_file c' = st_file c" if "processCrudRequest J W req c = Inr (m, resp', c')" for c m resp' c'
      using processCrudRequest_result [OF that] 2 by (simp add: is_crud_type_def)
    with assms(2) same show ?thesis by (auto split: sum.split)
  next
    case 5
    then show ?thesis using assms(2) same r0
      by (cases "msg_type req") (auto simp: processCrudRequest_def is_crud_type_def)
  qed (rule goal, simp add: processCrudRequest_def r0 lift rel)+
qed

subsection \<open>The file in every interleaving\<close>

text \<open>The content of the file after a request; a fault leaves it as it is.\<close>

definition file_after :: "'e sys_env \<Rightarrow> crud_state \<Rightarrow> wrp_crud \<Rightarrow> string option \<Rightarrow> string option" where
  "file_after E base req f =
     (case processCrudRequest (se_json E) (wrp_api.truncate (se_wrp E)) (crud_msg.truncate req) (base\<lparr>st_file := f\<rparr>) of
        Inl _ \<Rightarrow> f
      | Inr (_, _, st) \<Rightarrow> st_file st)"

lemma file_after_request:
  assumes "processCrudRequest (se_json E) (wrp_api.truncate (se_wrp E)) (crud_msg.truncate req) st = Inr (n, resp, st')"
    and "st_writable st = st_writable base"
  shows "st_file st' = file_after E base req (st_file st)"
proof -
  have "same_store st (base\<lparr>st_file := st_file st\<rparr>)" using assms(2) by (simp add: same_store_def)
  from processCrudRequest_store [OF this assms(1)] show ?thesis by (auto simp: file_after_def split: sum.splits)
qed

lemma sys_do_file:
  assumes "sys_do E a s = Some (Inr s')" "st_writable (sy_store s) = st_writable base"
  shows "\<exists>evs. sy_log s' = sy_log s @ evs \<and> st_writable (sy_store s') = st_writable base \<and>
    st_file (sy_store s') = fold (file_after E base) (all_of crud_handled evs) (st_file (sy_store s))"
  using assms
proof (induction E a s rule: sys_do.induct)
  case (3 E as s)
  then show ?case
    by (auto simp: messageHandlerTask_turn_def split: bind_splits consumer.splits sum.splits)
next
  case (4 E a s)
  then show ?case using file_after_request [of E _ "sy_store s" _ _ _ base] processCrudRequest_clients(2)
    by (auto simp: CRUDHandlerTask_turn_def split: bind_splits consumer.splits sum.splits)
next
  case (5 E as e s)
  then show ?case
    by (auto simp: processUpstreamMessage_turn_def split: bind_splits consumer.splits sum.splits)
next
  case (6 E e s)
  then show ?case by (auto simp: serviceAliveTask_turn_def split: prod.splits)
qed auto

lemma reachable_file:
  assumes "(sys_step E)\<^sup>*\<^sup>* (sys_init st mt) s"
  shows "st_writable (sy_store s) = st_writable st \<and>
    st_file (sy_store s) = fold (file_after E st) (all_of crud_handled (sy_log s)) (st_file st)"
  using assms
proof (induction rule: rtranclp_induct)
  case base
  then show ?case by (simp add: sys_init_def)
next
  case (step s s')
  from step.hyps(2) obtain a where "sys_do E a s = Some (Inr s')" by (blast elim: sys_stepE)
  from sys_do_file [OF this, of st] step.IH show ?case by auto
qed

subsection \<open>Properties\<close>

text \<open>
  C3. In every interleaving of the threads the file is what the CRUD requests make of it one after another, in the
  order in which they were queued and starting from the initial file, whatever the other threads and the main
  thread do meanwhile to the configuration, the flags and the clients; when the CRUD thread waits these are
  all the requests that were ever queued.
\<close>

theorem system_file:
  assumes "(sys_step E)\<^sup>*\<^sup>* (sys_init st mt) s"
  shows "st_file (sy_store s) = fold (file_after E st) (all_of crud_handled (sy_log s)) (st_file st) \<and>
    (\<exists>rest. all_of requested (sy_log s) = all_of crud_handled (sy_log s) @ rest \<and>
      (pc_consumer (sy_crud s) = Waiting \<longrightarrow> rest = []))"
  using reachable_file [OF assms] queue_ok_pending [OF reachable_queues(2) [OF assms]]
    queue_ok_waiting [OF reachable_queues(2) [OF assms]] by auto

theorem system_file_witness:
  "\<exists>s req. (sys_step sample_sys_env)\<^sup>*\<^sup>* sample_sys s \<and> all_of requested (sy_log s) = [req] \<and>
     file_after sample_sys_env (sample_state None) req None = Some ''D''"
proof -
  from run_gives [OF sample_run] obtain s where s: "(sys_step sample_sys_env)\<^sup>*\<^sup>* sample_sys s"
    "pc_consumer (sy_crud s) = Waiting" "length (all_of requested (sy_log s)) = 1" "st_file (sy_store s) = Some ''D''"
    by blast
  from s(3) obtain req where r: "all_of requested (sy_log s) = [req]" by (auto simp: length_Suc_conv)
  note f = system_file [OF s(1) [unfolded sample_sys_def]]
  from f s(2) r have "all_of crud_handled (sy_log s) = [req]" by auto
  moreover have "st_file (sample_state None) = None" by (simp add: sample_state_def)
  ultimately have "file_after sample_sys_env (sample_state None) req None = Some ''D''" using f s(4) by simp
  with s(1) r show ?thesis by blast
qed

end
