(* ===== verification/System_Rest.thy ===== *)
theory System_Rest
  imports System_Props
begin

text \<open>
  Without new messages the three threads come to rest: every turn lowers the work that is left, as long as the
  response to a request is not itself a request to Parodus.
\<close>

subsection \<open>A handler queues at most one request\<close>

lemma queued_simps [simp]:
  "queued [] = []" "queued (es @ es') = queued es @ queued es'" "queued (QueueCrud m # es) = m # queued es"
  "queued (SendServer b n # es) = queued es" "queued (SendClient k b n # es) = queued es"
  by (simp_all add: queued_def)

lemma queued_none: "(\<And>req. QueueCrud req \<notin> set es) \<Longrightarrow> queued es = []"
  by (auto simp: queued_def split: effect.splits)

lemma queued_server [simp]: "queued (sendUpstreamMsgToServer mt cfg fl b n) = []"
  using server_effects [of mt cfg fl b n] by auto

lemma queued_route: "route J cl b n m d = (es, f, r, j) \<Longrightarrow> length (queued es) \<le> 1"
  by (auto simp: route_def split: option.splits if_splits)

lemma queued_handle: "handle_routed E b n m = Inr es \<Longrightarrow> length (queued es) \<le> 1"
  using queued_none [OF send_error_effects]
  by (auto simp: handle_routed_def then_run_Inr_iff Let_def split: if_splits option.splits prod.splits
      dest!: queued_route)

lemma queued_down: "down_turn E W m = Inr es \<Longrightarrow> length (queued es) \<le> 1"
  using queued_handle by (auto simp: down_turn_def listenerOnMessage_def split: option.splits prod.splits if_splits)

lemma queued_decoded:
  assumes "handle_decoded E lv b n m s = Inr (lv', s', es)"
  shows "length (queued es) \<le> 1"
proof -
  have "length (queued es1) \<le> 1" if "handle_event E lv b n m = Inr (lv1, es1)" for lv1 es1
    using that by (auto simp: handle_event_def then_run_Inr_iff send_original_def split: if_splits option.splits prod.splits)
  moreover have "length (queued es1) \<le> 1" if "handle_crud E b n m s = Inr (s1, es1)" for s1 es1
    using that by (auto simp: handle_crud_def then_run_Inr_iff send_original_def split: if_splits option.splits prod.splits)
  ultimately show ?thesis using assms
    by (auto simp: handle_decoded_def then_run_Inr_iff send_original_def split: msg_type.splits)
qed

lemma queued_up: "upstream_turn E m lv s = Inr (lv', s', es, r) \<Longrightarrow> length (queued es) \<le> 1"
  by (auto simp: upstream_turn_def then_run_Inr_iff dest: queued_decoded split: prod.splits option.splits if_splits)

subsection \<open>Work\<close>

text \<open>The messages behind the one in hand.\<close>

definition backlog :: "'m pc_state \<Rightarrow> 'm list" where
  "backlog p = drop (length (pc_consumed p) + length (in_flight (pc_consumer p))) (pc_produced p)"

text \<open>
  What is left to do at a queue whose messages have the weight \<open>w\<close>. A message is taken and handled, and its consumer
  may have to be put to sleep again afterwards.
\<close>

definition work :: "('m \<Rightarrow> nat) \<Rightarrow> 'm pc_state \<Rightarrow> nat" where
  "work w p = sum_list (map w (backlog p)) +
     (case pc_consumer p of Ready \<Rightarrow> 1 | Waiting \<Rightarrow> 0 | Ended \<Rightarrow> 0 | Processing a m \<Rightarrow> w m - 1)"

lemma backlog_rel: "pc_rel p as ms \<Longrightarrow> backlog p = ms"
  by (simp add: pc_rel_def backlog_def)

lemma work_turn:
  assumes "pc_step\<^sup>*\<^sup>* pc_init p" "consumer_turn p = Some p'" "\<And>m. 3 \<le> w m"
  shows "work w p' + sum_list (map (\<lambda>m. w m - 3) (in_flight (pc_consumer p))) < work w p"
proof -
  obtain as ms where rel: "pc_rel p as ms" using pc_reachable_rel [OF assms(1)] by blast
  show ?thesis
  proof (cases "pc_consumer p")
    case Ready
    show ?thesis
    proof (cases ms)
      case Nil
      with rel have "q_pop (pc_q p) = None" using q_pop_empty by (auto simp: pc_rel_def)
      with assms(2) Ready rel Nil show ?thesis
        by (auto simp: consumer_turn_def work_def backlog_def pc_rel_def)
    next
      case (Cons m ms')
      with rel have "pc_produced p = pc_consumed p @ m # ms'" using Ready by (simp add: pc_rel_def)
      moreover from rel Cons obtain q' where "q_pop (pc_q p) = Some (hd as, m, q')"
        using q_pop_rel by (fastforce simp: pc_rel_def)
      ultimately show ?thesis using assms(2) assms(3) [of m] Ready
        by (auto simp: consumer_turn_def work_def backlog_def)
    qed
  next
    case (Processing a m)
    with rel assms(2) assms(3) [of m] show ?thesis
      by (auto simp: consumer_turn_def work_def backlog_def pc_rel_def)
  qed (use assms(2) in \<open>auto simp: consumer_turn_def\<close>)
qed

lemma work_put:
  assumes "pc_step\<^sup>*\<^sup>* pc_init p" "queue_put a m p = Some p'"
  shows "work w p' \<le> work w p + w m + 1"
proof -
  obtain as ms where "pc_rel p as ms" using pc_reachable_rel [OF assms(1)] by blast
  with assms(2) show ?thesis
    by (cases "pc_consumer p") (auto simp: queue_put_def work_def backlog_def pc_rel_def split: if_splits)
qed

lemma work_puts:
  "pc_step\<^sup>*\<^sup>* pc_init p \<Longrightarrow> put_all as ms p = Some p' \<Longrightarrow> work w p' \<le> work w p + sum_list (map (\<lambda>m. w m + 1) ms)"
proof (induction as ms p rule: put_all.induct)
  case (2 a as m ms p)
  then obtain q where q: "queue_put a m p = Some q" "put_all as ms q = Some p'" by (auto split: bind_splits)
  with moved_put [OF q(1)] "2.prems"(1) have "pc_step\<^sup>*\<^sup>* pc_init q" by (auto simp: moved_def)
  with "2.IH" [OF q(1) this q(2)] work_put [OF "2.prems"(1) q(1), of w] show ?case by simp
qed simp_all

subsection \<open>Responses that are not requests\<close>

text \<open>The upstream handler may make a CRUD request of the message.\<close>

definition may_request :: "'e sys_env \<Rightarrow> string UpStreamMsg \<Rightarrow> bool" where
  "may_request E u \<longleftrightarrow> (\<exists>(D :: 'e up_env) lv s lv' s' es r. ue_wrp D = se_wrp E \<and>
     upstream_turn D u lv s = Inr (lv', s', es, r) \<and> queued es \<noteq> [])"

text \<open>The requests a message may lead to satisfy \<open>P\<close>.\<close>

definition down_requests :: "'e sys_env \<Rightarrow> (wrp_crud \<Rightarrow> bool) \<Rightarrow> 'n down_msg \<Rightarrow> bool" where
  "down_requests E P m \<longleftrightarrow> (\<forall>D es. down_turn D (se_wrp E) m = Inr es \<longrightarrow> (\<forall>req\<in>set (queued es). P req))"

definition up_requests :: "'e sys_env \<Rightarrow> (wrp_crud \<Rightarrow> bool) \<Rightarrow> string UpStreamMsg \<Rightarrow> bool" where
  "up_requests E P u \<longleftrightarrow> (\<forall>(D :: 'e up_env) lv s lv' s' es r. ue_wrp D = se_wrp E \<and>
     upstream_turn D u lv s = Inr (lv', s', es, r) \<longrightarrow> (\<forall>req\<in>set (queued es). P req))"

text \<open>The response to a request that satisfies \<open>P\<close> is not a request again.\<close>

definition no_echo :: "'e sys_env \<Rightarrow> (wrp_crud \<Rightarrow> bool) \<Rightarrow> bool" where
  "no_echo E P \<longleftrightarrow> (\<forall>req ret resp. P req \<and> answers req ret resp \<longrightarrow> \<not> may_request E (crud_answer E resp))"

text \<open>The messages that a consumer holds or will take.\<close>

definition unhandled :: "'m pc_state \<Rightarrow> 'm list" where
  "unhandled p = drop (length (pc_consumed p)) (pc_produced p)"

definition tame :: "'e sys_env \<Rightarrow> (wrp_crud \<Rightarrow> bool) \<Rightarrow> 'n sys \<Rightarrow> bool" where
  "tame E P s \<longleftrightarrow> list_all (down_requests E P) (unhandled (sy_down s)) \<and> list_all P (unhandled (sy_crud s)) \<and>
     list_all (up_requests E P) (unhandled (sy_up s))"

lemma unhandled_rel:
  assumes "pc_step\<^sup>*\<^sup>* pc_init p"
  shows "unhandled p = in_flight (pc_consumer p) @ backlog p"
proof -
  obtain as ms where "pc_rel p as ms" using pc_reachable_rel [OF assms] by blast
  then show ?thesis by (simp add: pc_rel_def unhandled_def backlog_def)
qed

lemma unhandled_moved:
  assumes "pc_step\<^sup>*\<^sup>* pc_init p" "moved p p' xs (in_flight (pc_consumer p))"
  shows "unhandled p' = backlog p @ xs"
proof -
  obtain as ms where "pc_rel p as ms" using pc_reachable_rel [OF assms(1)] by blast
  with assms(2) show ?thesis by (auto simp: pc_rel_def unhandled_def backlog_def moved_def)
qed

lemma unhandled_put:
  assumes "pc_step\<^sup>*\<^sup>* pc_init p" "moved p p' xs []"
  shows "unhandled p' = unhandled p @ xs"
proof -
  obtain as ms where "pc_rel p as ms" using pc_reachable_rel [OF assms(1)] by blast
  with assms(2) show ?thesis by (auto simp: pc_rel_def unhandled_def moved_def)
qed

lemma no_request: "\<not> may_request E u \<Longrightarrow> up_requests E P u"
  unfolding may_request_def up_requests_def by (metis empty_iff list.set(1))

subsection \<open>Every turn lowers the work\<close>

definition w_up :: "'e sys_env \<Rightarrow> string UpStreamMsg \<Rightarrow> nat" where
  "w_up E u = (if may_request E u then 12 else 3)"

definition system_work :: "'e sys_env \<Rightarrow> 'n sys \<Rightarrow> nat" where
  "system_work E s = work (\<lambda>m. 12) (sy_down s) + work (\<lambda>m. 8) (sy_crud s) + work (w_up E) (sy_up s)"

text \<open>The queues of the state behave as in theory \<open>Msg_Queue\<close>.\<close>

definition queues_ok :: "'n sys \<Rightarrow> bool" where
  "queues_ok s \<longleftrightarrow> pc_step\<^sup>*\<^sup>* pc_init (sy_down s) \<and> pc_step\<^sup>*\<^sup>* pc_init (sy_crud s) \<and> pc_step\<^sup>*\<^sup>* pc_init (sy_up s)"

fun is_turn :: "('n, 'e) sys_action \<Rightarrow> bool" where
  "is_turn (DownTurn as) = True" | "is_turn (CrudTurn a) = True" | "is_turn (UpTurn as e) = True" | "is_turn _ = False"

lemma queues_ok_do: "sys_do E a s = Some (Inr s') \<Longrightarrow> queues_ok s \<Longrightarrow> queues_ok s'"
  using sys_do_moves [of E a s s'] unfolding queues_ok_def system_moved_def moved_def by (metis rtranclp_trans)

lemma one_puts:
  assumes "length ms \<le> 1" "pc_step\<^sup>*\<^sup>* pc_init p" "put_all as ms p = Some p'"
  shows "work (\<lambda>m. 8) p' \<le> work (\<lambda>m. 8) p + 9 * length ms" "ms = [] \<Longrightarrow> p' = p"
proof -
  have "sum_list (map (\<lambda>m. 8 + 1) ms) = 9 * length ms" by (induction ms) auto
  with work_puts [OF assms(2,3), of "\<lambda>m. 8"] show "work (\<lambda>m. 8) p' \<le> work (\<lambda>m. 8) p + 9 * length ms" by simp
  show "ms = [] \<Longrightarrow> p' = p" using assms(3) by (cases as) simp_all
qed

lemma down_turn_works:
  assumes "messageHandlerTask_turn E as s = Some (Inr s')" "queues_ok s" "tame E P s"
  shows "system_work E s' < system_work E s \<and> tame E P s'"
proof -
  note p = assms(2) [unfolded queues_ok_def]
  from assms obtain d where d: "consumer_turn (sy_down s) = Some d"
    by (auto simp: messageHandlerTask_turn_def split: bind_splits)
  note w = work_turn [OF _ d, of "\<lambda>m. 12"] and u = unhandled_rel [of "sy_down s"]
    unhandled_moved [OF _ moved_turn [OF d]]
  show ?thesis
  proof (cases "pc_consumer (sy_down s)")
    case (Processing a m)
    with assms(1) d obtain es c where e: "down_turn (sys_down_env E s) (se_wrp E) m = Inr es"
      and c: "put_all as (queued es) (sy_crud s) = Some c"
      and s': "s' = s\<lparr>sy_down := d, sy_crud := c, sy_log := sy_log s @ [DownHandled m es]\<rparr>"
      by (auto simp: messageHandlerTask_turn_def split: sum.splits)
    have "\<forall>req\<in>set (queued es). P req"
      using assms(3) p u(1) Processing e by (auto simp: tame_def down_requests_def)
    then have "tame E P s'"
      using assms(3) p u Processing unhandled_put [OF _ moved_puts [OF c]] s' by (auto simp: tame_def list_all_iff)
    moreover have "work (\<lambda>m. 8) c < work (\<lambda>m. 8) (sy_crud s) + 10"
      using one_puts(1) [OF queued_down [OF e] _ c] queued_down [OF e] p by linarith
    ultimately show ?thesis using w Processing p s' by (simp add: system_work_def)
  qed (use assms(1,3) d w u p in \<open>auto simp: messageHandlerTask_turn_def system_work_def tame_def\<close>)
qed

lemma up_turn_works:
  assumes "processUpstreamMessage_turn E as e s = Some (Inr s')" "queues_ok s" "tame E P s"
  shows "system_work E s' < system_work E s \<and> tame E P s'"
proof -
  note p = assms(2) [unfolded queues_ok_def]
  from assms obtain d where d: "consumer_turn (sy_up s) = Some d"
    by (auto simp: processUpstreamMessage_turn_def split: bind_splits)
  note w = work_turn [OF _ d, of "w_up E"] and u = unhandled_rel [of "sy_up s"]
    unhandled_moved [OF _ moved_turn [OF d]]
  have w3: "3 \<le> w_up E m" for m by (simp add: w_up_def)
  show ?thesis
  proof (cases "pc_consumer (sy_up s)")
    case (Processing a m)
    with assms(1) d obtain lv cl e' es r c where
      e: "upstream_turn (sys_up_env E s) m (sy_locals s) (st_clients (sy_store s), e) = Inr (lv, (cl, e'), es, r)"
      and c: "put_all as (queued es) (sy_crud s) = Some c"
      and s': "s' = s\<lparr>sy_up := d, sy_crud := c, sy_locals := lv, sy_store := (sy_store s)\<lparr>st_clients := cl\<rparr>,
        sy_log := sy_log s @ [UpHandled m es]\<rparr>"
      by (auto simp: processUpstreamMessage_turn_def split: sum.splits)
    have env: "ue_wrp (sys_up_env E s) = se_wrp E" by (simp add: sys_up_env_def)
    have "\<forall>req\<in>set (queued es). P req"
      using assms(3) p u(1) Processing e env by (fastforce simp: tame_def up_requests_def)
    then have "tame E P s'"
      using assms(3) p u Processing unhandled_put [OF _ moved_puts [OF c]] s' by (auto simp: tame_def list_all_iff)
    moreover have "work (\<lambda>m. 8) c \<le> work (\<lambda>m. 8) (sy_crud s) + (w_up E m - 3)"
    proof (cases "queued es")
      case Nil
      then show ?thesis using one_puts(2) [OF queued_up [OF e] _ c] p by simp
    next
      case (Cons req reqs)
      then have "w_up E m = 12" using e env unfolding w_up_def may_request_def by (metis list.discI)
      then show ?thesis using one_puts(1) [OF queued_up [OF e] _ c] queued_up [OF e] p by simp
    qed
    moreover have "work (w_up E) d + (w_up E m - 3) < work (w_up E) (sy_up s)"
      using w [OF _ w3] Processing p by simp
    ultimately show ?thesis unfolding system_work_def s' by (simp del: diff_add_assoc diff_add_assoc2)
  qed (use assms(1,3) d w w3 u p in \<open>auto simp: processUpstreamMessage_turn_def system_work_def tame_def\<close>)
qed

lemma crud_turn_works:
  assumes "CRUDHandlerTask_turn E a s = Some (Inr s')" "queues_ok s" "tame E P s" "no_echo E P"
  shows "system_work E s' < system_work E s \<and> tame E P s'"
proof -
  note p = assms(2) [unfolded queues_ok_def]
  from assms obtain c where c: "consumer_turn (sy_crud s) = Some c"
    by (auto simp: CRUDHandlerTask_turn_def split: bind_splits)
  note w = work_turn [OF _ c, of "\<lambda>m. 8"] and u = unhandled_rel [of "sy_crud s"]
    unhandled_moved [OF _ moved_turn [OF c]]
  show ?thesis
  proof (cases "pc_consumer (sy_crud s)")
    case (Processing b m)
    with assms(1) c obtain ret resp st d where
      r: "processCrudRequest (se_json E) (wrp_api.truncate (se_wrp E)) (crud_msg.truncate m) (sy_store s) =
        Inr (ret, resp, st)" and d: "queue_put a (crud_answer E resp) (sy_up s) = Some d"
      and s': "s' = s\<lparr>sy_crud := c, sy_up := d, sy_store := st, sy_log := sy_log s @ [CrudHandled m ret resp]\<rparr>"
      by (auto simp: CRUDHandlerTask_turn_def split: sum.splits)
    have "P m" using assms(3) p u(1) Processing by (simp add: tame_def)
    with assms(4) processCrudRequest_answers [OF r] have quiet: "\<not> may_request E (crud_answer E resp)"
      by (auto simp: no_echo_def)
    then have "tame E P s'"
      using assms(3) p u Processing unhandled_put [OF _ moved_put [OF d]] s' no_request [OF quiet]
      by (auto simp: tame_def list_all_iff)
    moreover have "work (w_up E) d \<le> work (w_up E) (sy_up s) + 4"
      using work_put [OF _ d, of "w_up E"] p quiet by (simp add: w_up_def)
    ultimately show ?thesis using w Processing p s' by (simp add: system_work_def)
  qed (use assms(1,3) c w u p in \<open>auto simp: CRUDHandlerTask_turn_def system_work_def tame_def\<close>)
qed

lemma turn_works:
  assumes "sys_do E act s = Some (Inr s')" "is_turn act" "queues_ok s" "tame E P s" "no_echo E P"
  shows "system_work E s' < system_work E s \<and> tame E P s'"
proof (cases act)
  case (DownTurn as)
  with assms show ?thesis using down_turn_works by simp
next
  case (CrudTurn a)
  with assms show ?thesis using crud_turn_works by simp
next
  case (UpTurn as e)
  with assms show ?thesis using up_turn_works by simp
qed (use assms(2) in simp_all)

lemma run_works:
  assumes "sys_run E acts s = Some (Inr s')" "list_all is_turn acts" "queues_ok s" "tame E P s" "no_echo E P"
  shows "length acts \<le> system_work E s"
  using assms
proof (induction acts arbitrary: s)
  case (Cons act acts)
  then obtain t where t: "sys_do E act s = Some (Inr t)" "sys_run E acts t = Some (Inr s')"
    by (auto split: bind_splits sum.splits)
  with turn_works [OF t(1), of P] Cons.prems queues_ok_do [OF t(1)] Cons.IH [OF t(2)] show ?case by fastforce
qed simp

lemma work_bound:
  assumes "pc_step\<^sup>*\<^sup>* pc_init p" "\<And>m. w m \<le> k"
  shows "work w p \<le> k * length (unhandled p) + 1"
proof -
  have "sum_list (map w ms) \<le> k * length ms" for ms
    using assms(2) by (induction ms) (auto simp: add_mono)
  from this [of "backlog p"] show ?thesis unfolding unhandled_rel [OF assms(1)] work_def
  proof (cases "pc_consumer p")
    case (Processing a m)
    have "w m - 1 \<le> k" using assms(2) [of m] by simp
    from add_mono [OF \<open>sum_list (map w (backlog p)) \<le> k * length (backlog p)\<close> this] Processing
    show "sum_list (map w (backlog p)) +
        (case pc_consumer p of Ready \<Rightarrow> 1 | Waiting \<Rightarrow> 0 | Ended \<Rightarrow> 0 | Processing a m \<Rightarrow> w m - 1)
      \<le> k * length (in_flight (pc_consumer p) @ backlog p) + 1" by simp
  qed simp_all
qed

subsection \<open>Properties\<close>

text \<open>
  C4. The threads come to rest. When nothing more arrives, the downstream, CRUD and upstream threads make only a bounded
  number of turns, in any order: at most twelve for each message that is not yet handled and eight for each
  request, and three more. The assumption is that the response to a request (one that satisfies \<open>P\<close>, which
  all requests that can come up do) is not decoded as a request to Parodus of this device again.
\<close>

theorem system_comes_to_rest:
  assumes "(sys_step E)\<^sup>*\<^sup>* (sys_init st mt) s" "tame E P s" "no_echo E P"
    and "list_all is_turn acts" "sys_run E acts s = Some (Inr s')"
  shows "length acts \<le> 12 * (length (unhandled (sy_down s)) + length (unhandled (sy_up s))) +
    8 * length (unhandled (sy_crud s)) + 3"
proof -
  have p: "queues_ok s" using reachable_queues [OF assms(1)] by (simp add: queues_ok_def queue_ok_def)
  note b = work_bound [of "sy_down s" "\<lambda>m. 12" 12] work_bound [of "sy_crud s" "\<lambda>m. 8" 8]
    work_bound [of "sy_up s" "w_up E" 12]
  have "w_up E m \<le> 12" for m by (simp add: w_up_def)
  with b p have "system_work E s \<le> 12 * (length (unhandled (sy_down s)) + length (unhandled (sy_up s))) +
      8 * length (unhandled (sy_crud s)) + 3"
    by (simp add: system_work_def queues_ok_def)
  with run_works [OF assms(5,4) p assms(2,3)] show ?thesis by linarith
qed

lemma sample_no_echo: "no_echo sample_sys_env (\<lambda>req. True)"
proof -
  have a: "crud_answer sample_sys_env resp = \<lparr> us_msg = Some ''resp'', us_len = 4 \<rparr>" for resp
    by (simp add: crud_answer_def sample_sys_env_def)
  have "queued es = []" if "ue_wrp D = se_wrp sample_sys_env"
    "upstream_turn D \<lparr> us_msg = Some ''resp'', us_len = 4 \<rparr> lv s = Inr (lv', s', es, r)"
    for D :: "unit up_env" and lv s lv' s' es r
    using that by (simp add: upstream_turn_def sample_sys_env_def sample_up_wrp_def sample_up_msg_def deref_def
        handle_decoded_def send_original_def) auto
  then show ?thesis unfolding no_echo_def a may_request_def by blast
qed

theorem system_comes_to_rest_witness:
  "\<exists>s s'. sys_run sample_sys_env (tl sample_actions) s = Some (Inr s') \<and> length (unhandled (sy_down s)) = 1 \<and>
     length (tl sample_actions) \<le> 12 * (1 + length (unhandled (sy_up s))) + 8 * length (unhandled (sy_crud s)) + 3"
proof -
  have "run_gives sample_sys_env [DownMessage 0 server_msg] sample_sys
      (\<lambda>s. length (unhandled (sy_down s)) = 1 \<and> run_gives sample_sys_env (tl sample_actions) s (\<lambda>s'. True))"
    by code_simp
  then obtain s where s: "(sys_step sample_sys_env)\<^sup>*\<^sup>* sample_sys s" "length (unhandled (sy_down s)) = 1"
    "run_gives sample_sys_env (tl sample_actions) s (\<lambda>s'. True)" using run_gives by blast
  then obtain s' where s': "sys_run sample_sys_env (tl sample_actions) s = Some (Inr s')"
    by (auto simp: run_gives_def split: option.splits sum.splits)
  have "tame sample_sys_env (\<lambda>req. True) s" by (simp add: tame_def down_requests_def up_requests_def list_all_iff)
  moreover have "list_all is_turn (tl sample_actions)" by (simp add: sample_actions_def)
  ultimately show ?thesis
    using system_comes_to_rest [OF s(1) [unfolded sample_sys_def] _ sample_no_echo _ s'] s(2) s' by fastforce
qed

end
