(* ===== verification/Spec2Isabelle.thy ===== *)
theory Spec2Isabelle
  imports Config Timers Msg_Queue Client_List Partners Crud_Props Upstream Nopoll Auth_Token Token Convey Connection_Props Main_Loop_Props
    Interface_Wait Mutex System_File System_Rest
begin

text \<open>
  Parodus connects a device to a cloud server. It keeps one web socket to the server and passes
  messages of the wrp format between the server and local clients, which talk to it over nanomsg
  sockets. Requests addressed to Parodus itself (CRUD requests) are answered from a JSON file and
  from the configuration.

  \<^bold>\<open>Parts and threads.\<close> \<open>main\<close> reads the configuration and starts the main loop
  (\<^verbatim>\<open>conn_interface.c\<close>), which connects, watches for missing pings and starts five threads. A callback
  of the web socket library puts each received message into \<open>ParodusMsgQ\<close>; the downstream thread
  (\<^verbatim>\<open>thread_tasks.c\<close>, \<^verbatim>\<open>downstream.c\<close>) sends it to a registered client, puts it into \<open>crudMsgQ\<close>, or answers
  with an error. The CRUD thread (\<^verbatim>\<open>crud_interface.c\<close>, \<^verbatim>\<open>crud_tasks.c\<close>, \<^verbatim>\<open>crud_internal.c\<close>) processes a request
  and puts the response into \<open>UpStreamMsgQ\<close>, where the receiving thread also puts what the clients
  send; the upstream thread (\<^verbatim>\<open>upstream.c\<close>) registers clients and sends to the server, to a client or to
  the CRUD queue. A keep-alive thread (\<^verbatim>\<open>service_alive.c\<close>) removes clients that cannot be sent to.

  \<^bold>\<open>Theories.\<close>

  \<^item> \<open>Parodus_Prelude\<close>: faults of C code (null and uninitialised pointers, reads out of bounds, signed
    overflow) as the left values of a sum, the composition \<open>then_run\<close>, C strings and their library
    functions, \<open>parStrncpy\<close> of \<^verbatim>\<open>string_helpers.c\<close>, integers, lists. A C string is a list of characters.
  \<^item> \<open>Config\<close> (\<^verbatim>\<open>config.c\<close>, \<^verbatim>\<open>main.c\<close>): \<open>ParodusCfg\<close>, the parsers of numbers, algorithms, MAC addresses and
    server urls, the command line with every option as a constructor, defaults and loading. Shown:
    numbers and urls are parsed as meant (value, round trip, ranges), an algorithm mask has only RSA
    algorithms, and the configuration \<open>main\<close> goes on with is well formed.
  \<^item> \<open>Nopoll\<close> (\<^verbatim>\<open>nopoll_helpers.c\<close>, \<^verbatim>\<open>nopoll_handlers.c\<close>): the state of the connection that is shared between
    the files (\<open>conn_state\<close>), sending a message in frames, and the ping and close callbacks. Shown: what
    is sent are the frames of the message.
  \<^item> \<open>Auth_Token\<close> (\<^verbatim>\<open>auth_token.c\<close>), \<open>Token\<close> (\<^verbatim>\<open>token.c\<close>), \<open>Convey\<close> (\<^verbatim>\<open>ParodusInternal.c\<close>): the authorization
    token fetched with curl, the server token put together from DNS records, and the header about the
    device. Shown: their buffers are not overrun, a token split over records is put together again,
    what an accepted token has passed, and that the header carries the facts about the device.
  \<^item> \<open>Connection\<close> (\<^verbatim>\<open>connection.c\<close>, \<^verbatim>\<open>networking.c\<close>): the choice of the server, attempts with redirects, 403
    answers and IPv6 before IPv4, backoff, the wait for the interface, closing, and
    \<open>createNopollConnection\<close>. \<open>Connection_Inv\<close> has the invariants of its world (locale \<open>world_invariant\<close>),
    \<open>Connection_Loops\<close> a rule for each loop, the interpretation \<open>later\<close> and that the loops end once a
    shutdown is requested unless the wait for the interface is never woken (\<open>wait_blocks\<close>), \<open>Connection_Props\<close> when
    nothing faults (\<open>connecting_runs\<close>, under conditions on the libraries), the properties, and runs that go wrong.
  \<^item> \<open>Interface_Wait\<close>: that wait and the shutdown that should end it, as two threads that take steps. Shown: the
    shutdown ends the wait unless its signal is sent between the test of the flag and the beginning of the wait.
  \<^item> \<open>Seshat\<close> (\<^verbatim>\<open>seshat_interface.c\<close>): the registration with the seshat service.
  \<^item> \<open>Main_Loop\<close> and \<open>Main_Loop_Props\<close> (\<^verbatim>\<open>conn_interface.c\<close>, \<^verbatim>\<open>main.c\<close>): \<open>main\<close>, its signal handler and the main
    loop, with what the callbacks, signals and other threads do between its steps. Shown: once a
    shutdown is requested \<open>main\<close> comes to its end, unless the wait for the interface or the join of a thread blocks,
    and a reconnect that returns restores the state of a new connection, in every turn.
  \<^item> \<open>Mutex\<close> (\<^verbatim>\<open>mutex.c\<close>): the callbacks for the mutexes of the web socket library, over recursive POSIX
    mutexes. Shown: what a mutex says of its owner counts the locks not undone, and it excludes.
  \<^item> \<open>Timers\<close> (\<^verbatim>\<open>time.c\<close>, \<^verbatim>\<open>heartBeat.c\<close>, \<^verbatim>\<open>close_retry.c\<close>, timers of \<^verbatim>\<open>connection.c\<close>, the watchdog of
    \<^verbatim>\<open>conn_interface.c\<close>): the flags shared between threads, clock arithmetic at the width of the code,
    expire and backoff timers. Shown: when the watchdog reacts, and bounds of the backoff.
  \<^item> \<open>Msg_Queue\<close>: the three queues as linked lists in a heap, their producers, the consumer loop, and
    the interleaving of producers, consumer and shutdown (\<open>pc_step\<close>). The locale \<open>fifo\<close> is what the threads
    rely on; \<open>hq\<close> interprets it on the heap. Shown: no message is lost, repeated or reordered, no
    consumer sleeps on a non-empty queue, and after shutdown it drains the queue and ends.
  \<^item> \<open>Client_List\<close> (\<^verbatim>\<open>client_list.c\<close>, \<^verbatim>\<open>service_alive.c\<close>): the registered clients and the operations on them
    (\<open>client_op\<close>), with the locale \<open>registry\<close> and its interpretation \<open>reg\<close>. Shown: the count is the length of
    the list when registrations fit and never more than it, registering and deleting are inverse, the keep-alive
    walk ends and keeps the live clients.
  \<^item> \<open>Partners\<close> (\<^verbatim>\<open>partners_check.c\<close>): the check of partner ids.
  \<^item> \<open>Cjson\<close>: the JSON library as a parameter, with its documented behaviour as a predicate and a library
    that satisfies it.
  \<^item> \<open>Crud\<close> and \<open>Crud_Props\<close> (\<^verbatim>\<open>crud_internal.c\<close>, \<^verbatim>\<open>crud_tasks.c\<close>): the handlers of CRUD requests. The
    tags in the file are a map from names to items; the locale \<open>tag_store\<close> is its contract and \<open>tags\<close>
    the interpretation on JSON nodes. Shown: successful requests are the operations of the map, a
    created tag is read back, responses are consistent, and requests for tags do not fault.
  \<^item> \<open>Downstream\<close> (\<^verbatim>\<open>downstream.c\<close>) and \<open>Upstream\<close> (\<^verbatim>\<open>upstream.c\<close>, the CRUD thread of \<^verbatim>\<open>crud_interface.c\<close>): one
    turn of each handler, as a function from a message and the state to the new state and its effects
    (\<open>effect\<close>: sent to a client, queued for the CRUD thread, sent to the server). Shown: each request of
    the server has one outcome, error responses go back to the sender, registrations keep the client
    list, and where events and retrieve messages go.
  \<^item> \<open>System\<close>: the consumer threads and the keep-alive task over the three queues and the data they share
    (\<open>sys\<close>), with the main thread, the sockets and signals as environment. \<open>sys_do\<close> carries out one action and
    \<open>sys_step\<close> is any action; a handler is one step, with all its effects. A log records what arrived and what
    was handled. \<open>System_Props\<close>: each queue moves by steps of \<open>Msg_Queue\<close> (\<open>moved\<close>). Shown: in every
    interleaving all messages are handled once and in order, each request has one response that answers
    it, the threads stop only when nothing is left to do, and the registry stays consistent; and two runs that
    go wrong. \<open>System_File\<close>: the file is the sequential composition of the requests, in every
    interleaving. \<open>System_Rest\<close>: each turn lowers the work left (\<open>system_work\<close>), so the threads come to rest.
  \<^item> This theory: a CRUD request on its way through downstream handler, CRUD thread and upstream handler.

  \<^bold>\<open>Conventions.\<close> A record is a C structure or the state of a component; an operation takes and returns
  it. Everything outside the sources is a parameter: nanomsg (\<open>nn_api\<close>, over a state of its own), wrp
  (\<open>wrp_api\<close>, \<open>up_wrp\<close>, \<open>encoded\<close>), cJSON (\<open>cjson_api\<close>), cjwt, the web socket library, the clock, random
  numbers. A critical section is one step. Integers have the width of the code where it matters
  (\<open>u32\<close>, \<open>64 word\<close>). Loops are recursive functions with termination proofs; \<open>last_cell\<close>, which walks a
  linked list, is a partial function, and that it returns on every queue that is reached is part
  of the proofs. The receive loop, the keep-alive task and the watchdog take the list of what their
  environment returns, so no fuel is used except in \<open>consumer_turns\<close>, whose bound the theorem that
  the consumer ends gives. The loops of the connection and of the main thread may run forever; they are
  partial functions into an option, with the environment as a record of functions (\<open>conn_api\<close>,
  \<open>main_api\<close>) over a state of its own, and the theorems that they end bound how often \<open>g_shutdown\<close> can
  still be read as false. Of the calls that wait, those with a timeout always return; \<^verbatim>\<open>pthread_cond_wait\<close> and
  the joins of the threads may never do so (\<open>None\<close>), and the theorems name them as the two ways not to end.

  \<^bold>\<open>Not modelled.\<close> Memory allocation is assumed to succeed and releasing memory has no effect in the model,
  except where the code frees an uninitialised pointer; log output is left out. Of a union the model
  has the fields the code reads. That \<^verbatim>\<open>config.c\<close> reads one byte behind the buffer of a url with a bracket, a byte
  that is behind the terminator of the text and not used, is not a fault in the model (\<open>bracket_shift_oob\<close> shows the read).
  Strings received from the decoder are taken to be terminated.
  The main thread is not interleaved step by step with the consumer threads: in \<open>System\<close> what it writes is
  arbitrary, and in \<open>Main_Loop\<close> the other threads and signals act between its calls. Within a handler the other
  threads do not act. The mutexes that guard the queues are the critical sections; functions that only read or
  set a variable are the field of the state. Left out, because there is no behaviour to model: the calls of
  \<^verbatim>\<open>pthread_create\<close> and \<^verbatim>\<open>pthread_join\<close> in \<^verbatim>\<open>spin_thread.c\<close>, the empty stubs \<^verbatim>\<open>privilege.c\<close> and
  \<^verbatim>\<open>event_handler.c\<close>, the stubs of builds without seshat or DNS tokens, and \<^verbatim>\<open>__report_log\<close>, which only logs.
\<close>

subsection \<open>From a request of the server to its answer\<close>

lemma upstream_turn_response:
  assumes "wrp_to_struct (ue_wrp U) (Some b) len = (rv, Some um)" "0 < rv" "is_crud_type (wm_type um)"
    and "crud_dest (wm_crud um) = Some dest" "getDeviceId (ue_cfg U) = Some (dev, k)"
    and "\<not> strncasecmp_eq dev dest (k - 1)"
  shows "\<exists>r. upstream_turn U \<lparr> us_msg = Some b, us_len = len \<rparr> lv s =
    Inr (lv\<lparr>msg_uninit := False\<rparr>, s, send_original U b len, r)"
  using assms by (auto simp: upstream_turn_def handle_decoded_def handle_crud_def is_crud_type_def)

text \<open>
  C1. A CRUD request of the server that the downstream handler queues and the CRUD task processes is
  answered: the task appends the encoded response to the upstream queue, and the upstream handler,
  which decodes it, sends it to the server. The response has the transaction id of the request and
  its addresses swapped. Encoder and decoder fit together on the response, and the sender of the
  request is not this device.
\<close>

theorem crud_request_answered:
  assumes down: "listenerOnMessage E (Some bytes) n (Some m) = Inr [QueueCrud req]" "is_crud_type (wm_type m)"
    and queue: "q_rel q as ms" "q_unused a q"
    and task: "processCrudRequest J W (crud_msg.truncate req) st = Inr (ret, resp, st')"
    and codec: "enc resp = (sz, Some b)" "0 < sz" "sz < 2 ^ 31"
      "wrp_to_struct (ue_wrp U) (Some b) (word_of_int sz) = (rv, Some um)" "0 < rv"
      "wm_type um = msg_type resp" "crud_dest (wm_crud um) = crud_dest resp"
    and addr: "crud_source (wm_crud m) = Some src" "getDeviceId (ue_cfg U) = Some (dev, k)"
      "\<not> strncasecmp_eq dev src (k - 1)"
  shows "transaction_uuid resp = transaction_uuid (wm_crud m) \<and> crud_dest resp = Some src \<and>
    crud_source resp = crud_dest (wm_crud m) \<and>
    (\<exists>q' message r. crud_task_turn J W enc a req (st, q) = Inr (Some (st', q')) \<and>
      q_rel q' (as @ [a]) (ms @ [message]) \<and>
      upstream_turn U message lv s = Inr (lv\<lparr>msg_uninit := False\<rparr>, s,
        sendUpstreamMsgToServer (ue_meta U) (ue_cfg U) (ue_flags U) b (nat sz), r))"
proof -
  have "wm_type m \<noteq> WRP_MSG_TYPE__EVENT" using down(2) by (auto simp: is_crud_type_def)
  then have req: "msg_type req = wm_type m" "transaction_uuid req = transaction_uuid (wm_crud m)"
    "crud_dest req = crud_dest (wm_crud m)" "crud_source req = crud_source (wm_crud m)"
    using queued_request [OF down(1)] by (simp_all add: createNewMsgForCRUD_def)
  have head: "msg_type resp = wm_type m" "transaction_uuid resp = transaction_uuid (wm_crud m)"
    "crud_source resp = crud_dest (wm_crud m)" "crud_dest resp = Some src"
    using processCrudRequest_result [OF task] down(2) addr(1)
    by (simp_all add: req crud_msg.defs)
  let ?len = "scast (word_of_int sz :: u32) :: 64 word"
  have len: "?len = word_of_int sz" "unat ?len = nat sz"
    using size_of_int [OF codec(2,3)] by simp_all
  from q_add_rel [OF queue, of "\<lparr> us_msg = Some b, us_len = ?len \<rparr>"] obtain q' where
    "q_add a \<lparr> us_msg = Some b, us_len = ?len \<rparr> q = Some (q', ms = [])"
    "q_rel q' (as @ [a]) (ms @ [\<lparr> us_msg = Some b, us_len = ?len \<rparr>])" by blast
  moreover from this(1) have "crud_task_turn J W enc a req (st, q) = Inr (Some (st', q'))"
    using task codec(1) by (simp add: crud_task_turn_def addCRUDresponseToUpstreamQ_def)
  moreover have "\<exists>r. upstream_turn U \<lparr> us_msg = Some b, us_len = ?len \<rparr> lv s =
      Inr (lv\<lparr>msg_uninit := False\<rparr>, s, send_original U b ?len, r)"
    using upstream_turn_response [OF codec(4,5) _ _ addr(2,3), of lv s] head codec(6,7) down(2) len(1) by simp
  ultimately show ?thesis using head len(2) by (auto simp: send_original_def)
qed

definition sample_delete_msg :: wrp_msg where
  "sample_delete_msg = (sample_request sample_dest)\<lparr>wm_type := WRP_MSG_TYPE__DELETE\<rparr>"

theorem crud_request_answered_witness:
  "\<exists>st' q' message lv' r. crud_task_turn sample_json sample_wrp (\<lambda>_. (3, Some ''rsp'')) 0
       (createNewMsgForCRUD WRP_MSG_TYPE__DELETE (wm_crud sample_delete_msg)) (sample_state (Some ''D''), empty_q) =
       Inr (Some (st', q')) \<and>
     q_rel q' [0] [message] \<and>
     upstream_turn (sample_up (sample_up_msg WRP_MSG_TYPE__DELETE ''dns:server'')) message
       \<lparr> msg_uninit = True, bytes_uninit = True \<rparr> (one_client, ()) =
       Inr (lv', (one_client, ()), [SendServer ''rspm'' 4], r)"
proof -
  let ?req = "createNewMsgForCRUD WRP_MSG_TYPE__DELETE (wm_crud sample_delete_msg)"
  let ?U = "sample_up (sample_up_msg WRP_MSG_TYPE__DELETE ''dns:server'')"
  have down: "listenerOnMessage sample_down (Some ''b'') 5 (Some sample_delete_msg) = Inr [QueueCrud ?req]"
    by code_simp
  have "case processCrudRequest sample_json sample_wrp (crud_msg.truncate ?req) (sample_state (Some ''D'')) of
      Inl _ \<Rightarrow> False | Inr (ret, resp, st') \<Rightarrow> msg_type resp = WRP_MSG_TYPE__DELETE \<and> crud_dest resp = Some ''dns:server''"
    by code_simp
  then obtain ret resp st' where
    p: "processCrudRequest sample_json sample_wrp (crud_msg.truncate ?req) (sample_state (Some ''D'')) = Inr (ret, resp, st')"
    and r: "msg_type resp = WRP_MSG_TYPE__DELETE" "crud_dest resp = Some ''dns:server''"
    by (auto split: sum.splits)
  have addr: "getDeviceId (ue_cfg ?U) = Some (''mac:1'', 6)" "\<not> strncasecmp_eq ''mac:1'' ''dns:server'' 5"
    by code_simp+
  have send: "sendUpstreamMsgToServer (ue_meta ?U) (ue_cfg ?U) (ue_flags ?U) ''rsp'' 3 = [SendServer ''rspm'' 4]"
    by code_simp
  have prem: "is_crud_type (wm_type sample_delete_msg)" "q_unused 0 empty_q"
    "wrp_to_struct (ue_wrp ?U) (Some ''rsp'') (word_of_int 3) = (1, Some (sample_up_msg WRP_MSG_TYPE__DELETE ''dns:server''))"
    "wm_type (sample_up_msg WRP_MSG_TYPE__DELETE ''dns:server'') = msg_type resp"
    "crud_dest (wm_crud (sample_up_msg WRP_MSG_TYPE__DELETE ''dns:server'')) = crud_dest resp"
    "crud_source (wm_crud sample_delete_msg) = Some ''dns:server''"
    using r by (simp_all add: sample_delete_msg_def sample_request_def sample_up_msg_def sample_up_def
        is_crud_type_def q_unused_def empty_q_def)
  obtain q' message r where "crud_task_turn sample_json sample_wrp (\<lambda>_. (3, Some ''rsp'')) 0 ?req
      (sample_state (Some ''D''), empty_q) = Inr (Some (st', q'))" "q_rel q' ([] @ [0]) ([] @ [message])"
    "upstream_turn ?U message \<lparr> msg_uninit = True, bytes_uninit = True \<rparr> (one_client, ()) =
      Inr (\<lparr> msg_uninit = True, bytes_uninit = True \<rparr>\<lparr>msg_uninit := False\<rparr>, (one_client, ()),
        sendUpstreamMsgToServer (ue_meta ?U) (ue_cfg ?U) (ue_flags ?U) ''rsp'' (nat 3), r)"
    using crud_request_answered [OF down prem(1) q_rel_empty prem(2) p, of "\<lambda>_. (3, Some ''rsp'')", OF refl _ _
        prem(3) _ prem(4-6) addr(1)] addr(2) by fastforce
  with send show ?thesis by simp blast
qed

end
